(* ===== verification/Prelude.thy ===== *)
theory Prelude
  imports Main "HOL-Library.Sublist"
begin

text \<open>
  Shared vocabulary of the development: the Python string operations that
  \<open>build_support/cpplint.py\<close> uses (a \<open>str\<close> is a list of characters whose code
  points lie in U+0000 to U+00FF), the reports handed to an error callback, and
  the generic facts on lists the components share.  The collection
  \<open>str_simps\<close> gathers the equations that rewrite string operations.
\<close>

named_theorems str_simps \<open>rewrite rules for the Python string operations\<close>

section \<open>Types\<close>

type_synonym linenum = int

text \<open>
  A report is one call of the callback \<open>error(filename, linenum, category,
  confidence, message)\<close>.  The checks take the callback as an argument and thread
  the state it updates; \<open>collect\<close> is the callback that only records the calls.
\<close>

record report =
  r_filename :: string
  r_linenum :: linenum
  r_category :: string
  r_confidence :: int
  r_message :: string

type_synonym 's handler = "report \<Rightarrow> 's \<Rightarrow> 's"

text \<open>
  The exceptions of the modelled code.  \<open>NoReturn\<close> is no exception of Python: it stands for a
  call that does not return, where a check makes such a call.
\<close>

datatype py_error =
    ValueError string | AttributeError | IndexError | AssertionError | TypeError | KeyError
  | NoReturn

definition mk_report :: "string \<Rightarrow> linenum \<Rightarrow> string \<Rightarrow> int \<Rightarrow> string \<Rightarrow> report" where
  "mk_report f l c n m =
     \<lparr>r_filename = f, r_linenum = l, r_category = c, r_confidence = n, r_message = m\<rparr>"

definition collect :: "report list handler" where
  "collect r rs = rs @ [r]"

text \<open>A check that only calls the callback is modelled by the list of its calls.\<close>

definition emit :: "'s handler \<Rightarrow> report list \<Rightarrow> 's \<Rightarrow> 's" where
  "emit h rs s = fold h rs s"

lemma emit_simps [simp]:
  "emit h [] s = s" "emit h (r # rs) s = emit h rs (h r s)"
  "emit h (rs @ rs') s = emit h rs' (emit h rs s)"
  by (simp_all add: emit_def)

lemma emit_collect [simp]: "emit collect rs acc = acc @ rs"
  by (induction rs arbitrary: acc) (simp_all add: collect_def)

section \<open>Python string operations\<close>

definition startswith :: "string \<Rightarrow> string \<Rightarrow> bool" where
  "startswith s p \<longleftrightarrow> take (length p) s = p"

definition endswith :: "string \<Rightarrow> string \<Rightarrow> bool" where
  "endswith s p \<longleftrightarrow> length p \<le> length s \<and> drop (length s - length p) s = p"

text \<open>\<open>s.find(p)\<close>: the first index, \<open>None\<close> for Python's \<open>-1\<close>.\<close>

fun str_find :: "string \<Rightarrow> string \<Rightarrow> nat option" where
  "str_find [] p = (if p = [] then Some 0 else None)"
| "str_find (c # s) p =
     (if startswith (c # s) p then Some 0 else map_option Suc (str_find s p))"

text \<open>\<open>s.replace(old, new)\<close> for a non-empty \<open>old\<close>, left to right without overlap.\<close>

function str_replace :: "string \<Rightarrow> string \<Rightarrow> string \<Rightarrow> string" where
  "str_replace [] old new = []"
| "str_replace (c # s) old new =
     (if old \<noteq> [] \<and> startswith (c # s) old
      then new @ str_replace (drop (length old) (c # s)) old new
      else c # str_replace s old new)"
  by pat_completeness auto
termination
  by (relation "measure (\<lambda>(s, old, new). length s)") (auto simp: neq_Nil_conv)

text \<open>\<open>s.count(p)\<close> for a non-empty \<open>p\<close>: the number of disjoint occurrences.\<close>

function str_count :: "string \<Rightarrow> string \<Rightarrow> nat" where
  "str_count [] p = 0"
| "str_count (c # s) p =
     (if p \<noteq> [] \<and> startswith (c # s) p
      then Suc (str_count (drop (length p) (c # s)) p)
      else str_count s p)"
  by pat_completeness auto
termination
  by (relation "measure (\<lambda>(s, p). length s)") (auto simp: neq_Nil_conv)

text \<open>\<open>s[i:]\<close> and \<open>s[:i]\<close> for an index that may be negative.\<close>

definition str_from :: "string \<Rightarrow> int \<Rightarrow> string" where
  "str_from s i = (if 0 \<le> i then drop (nat i) s else drop (length s - nat (- i)) s)"

definition str_upto :: "string \<Rightarrow> int \<Rightarrow> string" where
  "str_upto s i = (if 0 \<le> i then take (nat i) s else take (length s - nat (- i)) s)"

text \<open>\<open>s.split(c)\<close> for a one-character separator: never an empty list.\<close>

fun str_split :: "char \<Rightarrow> string \<Rightarrow> string list" where
  "str_split c [] = [[]]"
| "str_split c (x # s) =
     (if x = c then [] # str_split c s
      else (case str_split c s of [] \<Rightarrow> [[x]] | w # ws \<Rightarrow> (x # w) # ws))"

fun str_join :: "string \<Rightarrow> string list \<Rightarrow> string" where
  "str_join sep [] = []"
| "str_join sep [w] = w"
| "str_join sep (w # ws) = w @ sep @ str_join sep ws"

text \<open>
  The character classes of Python 3 on U+0000 to U+00FF: \<open>str.isspace\<close> (also the
  class of the regular expression \<open>\s\<close>), the decimal digits (\<open>\d\<close>) and the
  word characters (\<open>\w\<close>, the alphanumeric code points and the underscore).
\<close>

definition is_space :: "char \<Rightarrow> bool" where
  "is_space c \<longleftrightarrow> (let n = of_char c :: nat in
     (9 \<le> n \<and> n \<le> 13) \<or> (28 \<le> n \<and> n \<le> 32) \<or> n = 133 \<or> n = 160)"

definition is_digit :: "char \<Rightarrow> bool" where
  "is_digit c \<longleftrightarrow> (let n = of_char c :: nat in 48 \<le> n \<and> n \<le> 57)"

definition is_upper_ascii :: "char \<Rightarrow> bool" where
  "is_upper_ascii c \<longleftrightarrow> (let n = of_char c :: nat in 65 \<le> n \<and> n \<le> 90)"

definition is_lower_ascii :: "char \<Rightarrow> bool" where
  "is_lower_ascii c \<longleftrightarrow> (let n = of_char c :: nat in 97 \<le> n \<and> n \<le> 122)"

definition is_word :: "char \<Rightarrow> bool" where
  "is_word c \<longleftrightarrow> is_digit c \<or> is_upper_ascii c \<or> is_lower_ascii c \<or> c = CHR ''_'' \<or>
     (let n = of_char c :: nat in
        n = 170 \<or> n = 178 \<or> n = 179 \<or> n = 181 \<or> n = 185 \<or> n = 186 \<or>
        (188 \<le> n \<and> n \<le> 190) \<or> (192 \<le> n \<and> n \<le> 255 \<and> n \<noteq> 215 \<and> n \<noteq> 247))"

definition lstrip :: "string \<Rightarrow> string" where
  "lstrip s = dropWhile is_space s"

definition rstrip :: "string \<Rightarrow> string" where
  "rstrip s = rev (dropWhile is_space (rev s))"

definition strip :: "string \<Rightarrow> string" where
  "strip s = rstrip (lstrip s)"

text \<open>\<open>s.split()\<close>: the maximal runs of characters that are not white space.\<close>

function str_words :: "string \<Rightarrow> string list" where
  "str_words s =
     (let t = lstrip s in
      if t = [] then []
      else takeWhile (\<lambda>c. \<not> is_space c) t # str_words (dropWhile (\<lambda>c. \<not> is_space c) t))"
  by pat_completeness auto
termination
proof (relation "measure length", goal_cases)
  case 1
  show ?case by simp
next
  case (2 s t)
  have t: "t = dropWhile is_space s" and ne: "t \<noteq> []"
    using 2 by (simp_all add: lstrip_def)
  then have "\<not> is_space (hd t)" by (metis hd_dropWhile)
  with ne have "length (dropWhile (\<lambda>c. \<not> is_space c) t) < length t"
    by (cases t) (simp_all add: le_imp_less_Suc length_dropWhile_le)
  also have "length t \<le> length s"
    by (simp add: t length_dropWhile_le)
  finally show ?case by simp
qed

declare str_words.simps [simp del]

text \<open>
  \<open>str.lower\<close> is exact on U+0000 to U+00FF; \<open>str.upper\<close> is modelled for ASCII
  letters, the only characters the code applies it to.
\<close>

definition lower_char :: "char \<Rightarrow> char" where
  "lower_char c = (let n = of_char c :: nat in
     if is_upper_ascii c \<or> (192 \<le> n \<and> n \<le> 222 \<and> n \<noteq> 215) then char_of (n + 32) else c)"

definition upper_char :: "char \<Rightarrow> char" where
  "upper_char c = (if is_lower_ascii c then char_of ((of_char c :: nat) - 32) else c)"

definition str_lower :: "string \<Rightarrow> string" where
  "str_lower s = map lower_char s"

definition str_upper :: "string \<Rightarrow> string" where
  "str_upper s = map upper_char s"

text \<open>\<open>'%d' % n\<close> and \<open>str(n)\<close>.\<close>

fun nat_str :: "nat \<Rightarrow> string" where
  "nat_str n = (if n < 10 then [char_of (48 + n)]
                else nat_str (n div 10) @ [char_of (48 + n mod 10)])"

declare nat_str.simps [simp del]

definition int_str :: "int \<Rightarrow> string" where
  "int_str i = (if i < 0 then CHR ''-'' # nat_str (nat (- i)) else nat_str (nat i))"

section \<open>Facts on the string operations\<close>

lemma startswith_Nil [simp, str_simps]: "startswith s []"
  by (simp add: startswith_def)

lemma startswith_Nil_left [simp, str_simps]: "startswith [] p \<longleftrightarrow> p = []"
  by (auto simp: startswith_def)

lemma startswith_Cons [simp, str_simps]:
  "startswith (c # s) (d # p) \<longleftrightarrow> c = d \<and> startswith s p"
  by (auto simp: startswith_def)

lemma startswith_append [simp, str_simps]: "startswith (p @ s) p"
  by (simp add: startswith_def)

lemma startswith_iff: "startswith s p \<longleftrightarrow> (\<exists>t. s = p @ t)"
  by (metis append_take_drop_id startswith_append startswith_def)

lemma startswith_len: "startswith s p \<Longrightarrow> length p \<le> length s"
  by (auto simp: startswith_iff)

lemma endswith_iff: "endswith s p \<longleftrightarrow> (\<exists>t. s = t @ p)"
proof
  assume "endswith s p"
  then have "s = take (length s - length p) s @ p"
    by (metis append_take_drop_id endswith_def)
  then show "\<exists>t. s = t @ p" ..
qed (auto simp: endswith_def)

lemma str_find_Some:
  "str_find s p = Some i \<Longrightarrow> i + length p \<le> length s \<and> take (length p) (drop i s) = p"
proof (induction s p arbitrary: i rule: str_find.induct)
  case (1 p)
  then show ?case by (simp split: if_splits)
next
  case (2 c s p)
  show ?case
  proof (cases "startswith (c # s) p")
    case True
    with 2 show ?thesis using startswith_len [OF True] by (auto simp: startswith_def)
  next
    case False
    with 2 show ?thesis by auto
  qed
qed

lemma str_find_None: "str_find s p = None \<longleftrightarrow> (\<forall>u v. s \<noteq> u @ p @ v)"
proof (induction s p rule: str_find.induct)
  case (1 p)
  then show ?case by auto
next
  case (2 c s p)
  show ?case
  proof (cases "startswith (c # s) p")
    case True
    then obtain v where "c # s = [] @ p @ v" by (auto simp: startswith_iff)
    then have "\<not> (\<forall>u v. c # s \<noteq> u @ p @ v)" by blast
    with True show ?thesis by simp
  next
    case False
    have "(\<forall>u v. c # s \<noteq> u @ p @ v) \<longleftrightarrow> (\<forall>u v. s \<noteq> u @ p @ v)"
      (is "?L \<longleftrightarrow> ?R")
    proof
      assume ?L
      show ?R
      proof (intro allI notI)
        fix u v assume "s = u @ p @ v"
        then have "c # s = (c # u) @ p @ v" by simp
        with \<open>?L\<close> show False by blast
      qed
    next
      assume ?R
      show ?L
      proof (intro allI notI)
        fix u v assume eq: "c # s = u @ p @ v"
        with False have "u \<noteq> []" by (metis append_Nil startswith_append)
        with eq obtain u' where "s = u' @ p @ v" by (cases u) auto
        with \<open>?R\<close> show False by blast
      qed
    qed
    with False 2 show ?thesis by simp
  qed
qed

lemma str_find_first:
  "str_find s p = Some i \<Longrightarrow> j < i \<Longrightarrow> \<not> startswith (drop j s) p"
proof (induction s p arbitrary: i j rule: str_find.induct)
  case (1 p)
  then show ?case by (simp split: if_splits)
next
  case (2 c s p)
  then show ?case by (cases j) (auto split: if_splits)
qed

lemma length_dropWhile_hd:
  "s \<noteq> [] \<Longrightarrow> P (hd s) \<Longrightarrow> length (dropWhile P s) < length s"
  by (cases s) (auto intro: le_imp_less_Suc length_dropWhile_le)

lemma length_strip [simp]:
  "length (lstrip s) \<le> length s" "length (rstrip s) \<le> length s" "length (strip s) \<le> length s"
proof -
  show l: "length (lstrip s) \<le> length s" for s
    by (simp add: lstrip_def length_dropWhile_le)
  show r: "length (rstrip s) \<le> length s" for s
    using length_dropWhile_le [of is_space "rev s"] by (simp add: rstrip_def)
  show "length (strip s) \<le> length s"
    unfolding strip_def using l [of s] r [of "lstrip s"] by simp
qed

lemma rstrip_decomp: "\<exists>w. s = rstrip s @ w \<and> list_all is_space w"
proof (intro exI conjI)
  have "rev s = takeWhile is_space (rev s) @ dropWhile is_space (rev s)" by simp
  then have "rev (rev s) = rev (dropWhile is_space (rev s)) @ rev (takeWhile is_space (rev s))"
    by (metis rev_append)
  then show "s = rstrip s @ rev (takeWhile is_space (rev s))" by (simp add: rstrip_def)
  show "list_all is_space (rev (takeWhile is_space (rev s)))"
    by (auto simp: list_all_iff dest: set_takeWhileD)
qed

lemma str_split_ne [simp]: "str_split c s \<noteq> []"
  by (induction s) (auto split: list.splits)

lemma str_join_split: "str_join [c] (str_split c s) = s"
proof (induction s)
  case Nil
  show ?case by simp
next
  case (Cons x s)
  obtain w ws where ws: "str_split c s = w # ws"
    by (meson neq_Nil_conv str_split_ne)
  with Cons show ?case by (cases ws) auto
qed

lemma str_join_snoc: "ws \<noteq> [] \<Longrightarrow> str_join sep (ws @ [w]) = str_join sep ws @ sep @ w"
  by (induction sep ws rule: str_join.induct) auto

lemma str_split_no_sep: "\<forall>w \<in> set (str_split c s). c \<notin> set w"
  by (induction s) (auto split: list.splits)

lemma str_split_append:
  "c \<notin> set w \<Longrightarrow> str_split c (w @ c # s) = w # str_split c s"
  by (induction w) auto

lemma str_split_id: "c \<notin> set w \<Longrightarrow> str_split c w = [w]"
  by (induction w) auto

lemma str_split_join:
  assumes "ws \<noteq> []" and "\<forall>w \<in> set ws. c \<notin> set w"
  shows "str_split c (str_join [c] ws) = ws"
  using assms
proof (induction "[c]" ws rule: str_join.induct)
  case (3 w v vs)
  then show ?case by (simp add: str_split_append)
qed (auto simp: str_split_id)

lemma str_count_le: "str_count s p \<le> length s"
proof (induction s p rule: str_count.induct)
  case (2 c s p)
  show ?case
  proof (cases "p \<noteq> [] \<and> startswith (c # s) p")
    case True
    then obtain n where "length p = Suc n" by (cases p) auto
    with True 2(1) show ?thesis by auto
  next
    case False
    with 2(2) show ?thesis by auto
  qed
qed simp

text \<open>Counting one character is counting its occurrences in the list.\<close>

lemma str_count_char: "str_count s [c] = count_list s c"
proof (induction s)
  case (Cons a s)
  then show ?case by (cases s) auto
qed simp

lemma str_replace_absent:
  "\<forall>u v. s \<noteq> u @ old @ v \<Longrightarrow> str_replace s old new = s"
proof (induction s)
  case (Cons c s)
  have "\<not> startswith (c # s) old"
    using Cons.prems [rule_format, of "[]"] by (auto simp: startswith_iff)
  moreover have "\<forall>u v. s \<noteq> u @ old @ v"
    using Cons.prems by (metis append_Cons)
  ultimately show ?case using Cons.IH by simp
qed simp

text \<open>Replacing one character by another is a map.\<close>

lemma str_replace_char: "str_replace s [a] [b] = map (\<lambda>c. if c = a then b else c) s"
  by (induction s) auto

text \<open>Code points of characters, and the letters under a change of case.\<close>

lemma code_point_bound: "(of_char c :: nat) < 256"
  by (metis mod_less_divisor of_char_mod_256 zero_less_numeral)

lemma code_point_char_of [simp]: "n < 256 \<Longrightarrow> (of_char (char_of n) :: nat) = n"
  by simp

lemma char_eq_code_point: "c = d \<longleftrightarrow> (of_char c :: nat) = of_char d"
  by (metis char_of_char)

lemma lower_char_idem [simp]: "lower_char (lower_char c) = lower_char c"
  using code_point_bound [of c] by (auto simp: lower_char_def Let_def is_upper_ascii_def)

lemma lower_char_dash: "lower_char c = CHR ''-'' \<longleftrightarrow> c = CHR ''-''"
  using code_point_bound [of c]
  by (auto simp: lower_char_def Let_def is_upper_ascii_def char_eq_code_point)

lemma find_in_set: "find p xs = Some x \<Longrightarrow> x \<in> set xs"
  by (induction xs) (auto split: if_splits)

lemma span_stop:
  "\<forall>x \<in> set xs. P x \<Longrightarrow> \<not> P y \<Longrightarrow>
   takeWhile P (xs @ y # ys) = xs \<and> dropWhile P (xs @ y # ys) = y # ys"
  by (induction xs) auto

lemma span_all:
  "\<forall>x \<in> set xs. P x \<Longrightarrow> takeWhile P xs = xs \<and> dropWhile P xs = []"
  by (induction xs) auto

text \<open>An element that occurs once has one position.\<close>

lemma only_occurrence:
  "\<lbrakk>x \<notin> set h; x \<notin> set t; (h @ x # t) ! y = x; y < length (h @ x # t)\<rbrakk> \<Longrightarrow> y = length h"
proof (induction h arbitrary: y)
  case Nil
  then show ?case by (cases y) (auto simp: in_set_conv_nth)
next
  case (Cons a h)
  then show ?case by (cases y) auto
qed

text \<open>Lower case, and replacement in two parts that no occurrence straddles.\<close>

lemma lower_char_underscore: "lower_char c = CHR ''_'' \<longleftrightarrow> c = CHR ''_''"
  using code_point_bound [of c]
  by (auto simp: lower_char_def Let_def is_upper_ascii_def char_eq_code_point)

lemma str_replace_append:
  "\<lbrakk>\<And>u v. p = u @ v \<Longrightarrow> v \<noteq> [] \<Longrightarrow> startswith (v @ t) old \<Longrightarrow> startswith v old; old \<noteq> []\<rbrakk> \<Longrightarrow>
   str_replace (p @ t) old new = str_replace p old new @ str_replace t old new"
proof (induction p rule: length_induct)
  case (1 p)
  show ?case
  proof (cases p)
    case (Cons c p')
    note part = "1.prems"(1)
    show ?thesis
    proof (cases "startswith (p @ t) old")
      case True
      then have "startswith p old" using part [of "[]" p] Cons by simp
      then obtain r where r: "p = old @ r" by (auto simp: startswith_iff)
      have "length r < length p" using "1.prems"(2) by (simp add: r)
      moreover have "\<And>u v. r = u @ v \<Longrightarrow> v \<noteq> [] \<Longrightarrow> startswith (v @ t) old \<Longrightarrow> startswith v old"
        using part [of "old @ _"] by (simp add: r)
      ultimately have "str_replace (r @ t) old new = str_replace r old new @ str_replace t old new"
        using "1.IH" "1.prems"(2) by blast
      moreover have "str_replace (old @ x) old new = new @ str_replace x old new" for x
        using "1.prems"(2) by (cases old) (simp_all add: startswith_iff)
      ultimately show ?thesis by (simp add: r)
    next
      case False
      then have "\<not> startswith p old" unfolding startswith_iff by (metis append_assoc)
      moreover have "str_replace (p' @ t) old new = str_replace p' old new @ str_replace t old new"
        using "1.IH" Cons "1.prems"(2) part [of "c # _"] by simp
      ultimately show ?thesis using False Cons by simp
    qed
  qed simp
qed

end
