(* ===== verification/PyRegex.thy ===== *)
theory PyRegex
  imports Prelude
begin

text \<open>
  The part of Python's \<open>re\<close> module the linter relies on: a datatype of regular
  expressions with the constructs that occur in its patterns, a backtracking
  matcher that enumerates all matches in the order in which the \<open>re\<close> engine
  tries them, and \<open>match\<close>, \<open>search\<close> and \<open>sub\<close> on top of it.  Each pattern
  of the source is written as a term of this datatype beside its pattern text.
  The second half proves the facts the components use: matches stay inside the
  string and do not go backwards, mandatory groups take part in every match, and
  repetitions of one character class act like \<open>takeWhile\<close>.
\<close>

named_theorems re_simps \<open>equations of the matcher\<close>

section \<open>Expressions\<close>

datatype re =
    Eps
  | Cls "char \<Rightarrow> bool"        \<comment> \<open>one character of a class\<close>
  | Seq re re
  | Alt re re                 \<comment> \<open>\<open>a|b\<close>, \<open>a\<close> tried first\<close>
  | Star re                   \<comment> \<open>\<open>r*\<close>, greedy\<close>
  | LStar re                  \<comment> \<open>\<open>r*?\<close>, lazy\<close>
  | Grp nat re                \<comment> \<open>capturing group\<close>
  | Bol                       \<comment> \<open>\<open>^\<close>\<close>
  | Eol                       \<comment> \<open>\<open>$\<close>: at the end or before a final newline\<close>
  | Wb                        \<comment> \<open>\<open>\b\<close>\<close>
  | Look re                   \<comment> \<open>\<open>(?=r)\<close>\<close>
  | NLook re                  \<comment> \<open>\<open>(?!r)\<close>\<close>
  | Back nat                  \<comment> \<open>\<open>\1\<close>\<close>

definition Ch :: "char \<Rightarrow> re" where
  "Ch c = Cls (\<lambda>x. x = c)"

definition Any :: re where           \<comment> \<open>\<open>.\<close>\<close>
  "Any = Cls (\<lambda>x. x \<noteq> CHR 0x0A)"

definition OneOf :: "string \<Rightarrow> re" where
  "OneOf cs = Cls (\<lambda>x. x \<in> set cs)"

definition NoneOf :: "string \<Rightarrow> re" where
  "NoneOf cs = Cls (\<lambda>x. x \<notin> set cs)"

definition Plus :: "re \<Rightarrow> re" where
  "Plus r = Seq r (Star r)"

definition Opt :: "re \<Rightarrow> re" where
  "Opt r = Alt r Eps"

fun Seqs :: "re list \<Rightarrow> re" where
  "Seqs [] = Eps"
| "Seqs [r] = r"
| "Seqs (r # rs) = Seq r (Seqs rs)"

fun Alts :: "re list \<Rightarrow> re" where
  "Alts [] = Cls (\<lambda>_. False)"
| "Alts [r] = r"
| "Alts (r # rs) = Alt r (Alts rs)"

definition Lit :: "string \<Rightarrow> re" where
  "Lit s = Seqs (map Ch s)"

abbreviation Space :: re where "Space \<equiv> Cls is_space"      \<comment> \<open>\<open>\s\<close>\<close>
abbreviation NonSpace :: re where "NonSpace \<equiv> Cls (\<lambda>c. \<not> is_space c)"  \<comment> \<open>\<open>\S\<close>\<close>
abbreviation Word :: re where "Word \<equiv> Cls is_word"         \<comment> \<open>\<open>\w\<close>\<close>
abbreviation NonWord :: re where "NonWord \<equiv> Cls (\<lambda>c. \<not> is_word c)"      \<comment> \<open>\<open>\W\<close>\<close>
abbreviation Digit :: re where "Digit \<equiv> Cls is_digit"       \<comment> \<open>\<open>\d\<close>\<close>

section \<open>The matcher\<close>

text \<open>
  A matcher state is a position and the spans captured so far, the latest first.
  \<open>rm r s st\<close> lists the states in which a match of \<open>r\<close> from \<open>st\<close> can end, in the
  order of the backtracking search.  A repetition goes on only after an iteration
  that consumed something; the number \<open>length s\<close> bounds the iterations.  No pattern of
  the source captures inside a lookahead, so a lookahead keeps the captures it finds.
\<close>

type_synonym caps = "(nat \<times> nat \<times> nat) list"
type_synonym mstate = "nat \<times> caps"

fun star_run :: "nat \<Rightarrow> (mstate \<Rightarrow> mstate list) \<Rightarrow> mstate \<Rightarrow> mstate list" where
  "star_run 0 f st = [st]"
| "star_run (Suc n) f st =
     concat (map (star_run n f) (filter (\<lambda>st'. fst st < fst st') (f st))) @ [st]"

fun lstar_run :: "nat \<Rightarrow> (mstate \<Rightarrow> mstate list) \<Rightarrow> mstate \<Rightarrow> mstate list" where
  "lstar_run 0 f st = [st]"
| "lstar_run (Suc n) f st =
     st # concat (map (lstar_run n f) (filter (\<lambda>st'. fst st < fst st') (f st)))"

definition word_at :: "string \<Rightarrow> nat \<Rightarrow> bool" where
  "word_at s i \<longleftrightarrow> i < length s \<and> is_word (s ! i)"

definition at_boundary :: "string \<Rightarrow> nat \<Rightarrow> bool" where
  "at_boundary s i \<longleftrightarrow> (0 < i \<and> word_at s (i - 1)) \<noteq> word_at s i"

definition at_eol :: "string \<Rightarrow> nat \<Rightarrow> bool" where
  "at_eol s i \<longleftrightarrow> i = length s \<or> (Suc i = length s \<and> s ! i = CHR 0x0A)"

primrec rm :: "re \<Rightarrow> string \<Rightarrow> mstate \<Rightarrow> mstate list" where
  "rm Eps s st = [st]"
| "rm (Cls p) s st = (if fst st < length s \<and> p (s ! fst st) then [(Suc (fst st), snd st)] else [])"
| "rm (Seq a b) s st = concat (map (rm b s) (rm a s st))"
| "rm (Alt a b) s st = rm a s st @ rm b s st"
| "rm (Star a) s st = star_run (length s) (rm a s) st"
| "rm (LStar a) s st = lstar_run (length s) (rm a s) st"
| "rm (Grp k a) s st = map (\<lambda>st'. (fst st', (k, fst st, fst st') # snd st')) (rm a s st)"
| "rm Bol s st = (if fst st = 0 then [st] else [])"
| "rm Eol s st = (if at_eol s (fst st) then [st] else [])"
| "rm Wb s st = (if at_boundary s (fst st) then [st] else [])"
| "rm (Look a) s st = (if rm a s st = [] then [] else [st])"
| "rm (NLook a) s st = (if rm a s st = [] then [st] else [])"
| "rm (Back k) s st =
     (case map_of (snd st) k of
        None \<Rightarrow> []
      | Some (i, j) \<Rightarrow>
          let w = take (j - i) (drop i s)
          in if startswith (drop (fst st) s) w then [(fst st + length w, snd st)] else [])"

section \<open>\<open>match\<close>, \<open>search\<close>, \<open>sub\<close>\<close>

record pymatch =
  m_string :: string
  m_start :: nat
  m_end :: nat
  m_caps :: caps

definition slice :: "string \<Rightarrow> nat \<Rightarrow> nat \<Rightarrow> string" where
  "slice s i j = take (j - i) (drop i s)"

definition match_at :: "re \<Rightarrow> string \<Rightarrow> nat \<Rightarrow> pymatch option" where
  "match_at r s i =
     (case rm r s (i, []) of [] \<Rightarrow> None
      | st # _ \<Rightarrow> Some \<lparr>m_string = s, m_start = i, m_end = fst st, m_caps = snd st\<rparr>)"

text \<open>The module's \<open>Match\<close>, \<open>Search\<close> and \<open>ReplaceAll\<close> (their cache of compiled patterns
  does not change a result).\<close>

definition Match :: "re \<Rightarrow> string \<Rightarrow> pymatch option" where
  "Match r s = match_at r s 0"

fun search_from :: "re \<Rightarrow> string \<Rightarrow> nat \<Rightarrow> nat \<Rightarrow> pymatch option" where
  "search_from r s i 0 = match_at r s i"
| "search_from r s i (Suc n) =
     (case match_at r s i of Some m \<Rightarrow> Some m | None \<Rightarrow> search_from r s (Suc i) n)"

definition Search :: "re \<Rightarrow> string \<Rightarrow> pymatch option" where
  "Search r s = search_from r s 0 (length s)"

abbreviation matches :: "re \<Rightarrow> string \<Rightarrow> bool" where
  "matches r s \<equiv> Match r s \<noteq> None"

abbreviation found :: "re \<Rightarrow> string \<Rightarrow> bool" where
  "found r s \<equiv> Search r s \<noteq> None"

text \<open>
  \<open>m.group(k)\<close>: \<open>None\<close> for a group that took no part.  \<open>grp\<close> is for the groups that
  take part in every match (see \<open>must_groups\<close>), and for the tests of truth, where
  Python treats \<open>None\<close> as the empty string.
\<close>

definition group :: "pymatch \<Rightarrow> nat \<Rightarrow> string option" where
  "group m k =
     (if k = 0 then Some (slice (m_string m) (m_start m) (m_end m))
      else map_option (\<lambda>(i, j). slice (m_string m) i j) (map_of (m_caps m) k))"

definition grp :: "pymatch \<Rightarrow> nat \<Rightarrow> string" where
  "grp m k = (case group m k of None \<Rightarrow> [] | Some t \<Rightarrow> t)"

text \<open>
  \<open>re.sub\<close> for a pattern that does not match the empty string: the leftmost matches, from
  left to right, each replaced by what the function makes of the match.
\<close>

fun sub_from :: "re \<Rightarrow> (pymatch \<Rightarrow> string) \<Rightarrow> string \<Rightarrow> nat \<Rightarrow> nat \<Rightarrow> string" where
  "sub_from r rep s i 0 = drop i s"
| "sub_from r rep s i (Suc n) =
     (if length s \<le> i then []
      else case match_at r s i of
        None \<Rightarrow> s ! i # sub_from r rep s (Suc i) n
      | Some m \<Rightarrow> if i < m_end m then rep m @ sub_from r rep s (m_end m) n
                  else s ! i # sub_from r rep s (Suc i) n)"

definition re_sub_fn :: "re \<Rightarrow> (pymatch \<Rightarrow> string) \<Rightarrow> string \<Rightarrow> string" where
  "re_sub_fn r rep s = sub_from r rep s 0 (length s)"

definition re_sub :: "re \<Rightarrow> string \<Rightarrow> string \<Rightarrow> string" where
  "re_sub r rep s = re_sub_fn r (\<lambda>_. rep) s"

text \<open>\<open>re.split\<close> for a pattern without groups that does not match the empty string.\<close>

fun split_from :: "re \<Rightarrow> string \<Rightarrow> string \<Rightarrow> nat \<Rightarrow> nat \<Rightarrow> string list" where
  "split_from r s piece i 0 = [piece @ drop i s]"
| "split_from r s piece i (Suc n) =
     (if length s \<le> i then [piece]
      else case match_at r s i of
        None \<Rightarrow> split_from r s (piece @ [s ! i]) (Suc i) n
      | Some m \<Rightarrow> if i < m_end m then piece # split_from r s [] (m_end m) n
                  else split_from r s (piece @ [s ! i]) (Suc i) n)"

definition re_split :: "re \<Rightarrow> string \<Rightarrow> string list" where
  "re_split r s = split_from r s [] 0 (length s)"

text \<open>A literal with \<open>re.I\<close>.\<close>

definition LitI :: "string \<Rightarrow> re" where
  "LitI w = Seqs (map (\<lambda>c. Cls (\<lambda>x. lower_char x = lower_char c)) w)"

text \<open>\<open>re.finditer\<close> for a pattern that does not match the empty string.\<close>

fun finditer_from :: "re \<Rightarrow> string \<Rightarrow> nat \<Rightarrow> nat \<Rightarrow> pymatch list" where
  "finditer_from r s i 0 = []"
| "finditer_from r s i (Suc n) =
     (if length s \<le> i then []
      else case match_at r s i of
        None \<Rightarrow> finditer_from r s (Suc i) n
      | Some m \<Rightarrow> if i < m_end m then m # finditer_from r s (m_end m) n
                  else finditer_from r s (Suc i) n)"

definition re_finditer :: "re \<Rightarrow> string \<Rightarrow> pymatch list" where
  "re_finditer r s = finditer_from r s 0 (length s)"

text \<open>\<open>ReplaceAll\<close>.\<close>

definition ReplaceAll :: "re \<Rightarrow> string \<Rightarrow> string \<Rightarrow> string" where
  "ReplaceAll pattern rep s = re_sub pattern rep s"

section \<open>Matches stay inside the string and go forward\<close>

lemma star_run_forward:
  assumes "\<And>st st'. st' \<in> set (f st) \<Longrightarrow> fst st \<le> N \<Longrightarrow> fst st \<le> fst st' \<and> fst st' \<le> N"
  shows "st' \<in> set (star_run n f st) \<Longrightarrow> fst st \<le> N \<Longrightarrow> fst st \<le> fst st' \<and> fst st' \<le> N"
proof (induction n arbitrary: st)
  case (Suc n)
  show ?case
  proof (cases "st' = st")
    case False
    with Suc.prems obtain x where x: "x \<in> set (f st)" "st' \<in> set (star_run n f x)" by auto
    from assms [OF x(1) Suc.prems(2)] Suc.IH [OF x(2)] show ?thesis by auto
  qed (use Suc.prems in simp)
qed simp

lemma lstar_run_set: "set (lstar_run n f st) = set (star_run n f st)"
  by (induction n arbitrary: st) auto

lemma rm_forward:
  "st' \<in> set (rm r s st) \<Longrightarrow> fst st \<le> length s \<Longrightarrow> fst st \<le> fst st' \<and> fst st' \<le> length s"
proof (induction r arbitrary: st st')
  case (Seq a b)
  from Seq.prems obtain x where x: "x \<in> set (rm a s st)" "st' \<in> set (rm b s x)" by auto
  from Seq.IH(1) [OF x(1) Seq.prems(2)] Seq.IH(2) [OF x(2)] show ?case by auto
next
  case (Star a)
  show ?case
    by (rule star_run_forward [where f = "rm a s"]) (use Star in auto)
next
  case (LStar a)
  show ?case
    by (rule star_run_forward [where f = "rm a s"]) (use LStar in \<open>auto simp: lstar_run_set\<close>)
next
  case (Back k)
  then show ?case
    by (auto simp: Let_def dest!: startswith_len split: if_splits option.splits prod.splits)
qed (auto split: if_splits list.splits)

text \<open>The bound on the number of iterations never cuts a repetition short.\<close>

lemma star_run_enough:
  assumes "\<And>st st'. st' \<in> set (f st) \<Longrightarrow> fst st \<le> N \<Longrightarrow> fst st' \<le> N"
  shows "fst st \<le> N \<Longrightarrow> N - fst st \<le> n \<Longrightarrow> N - fst st \<le> m \<Longrightarrow> star_run n f st = star_run m f st"
proof (induction "N - fst st" arbitrary: st n m rule: less_induct)
  case less
  show ?case
  proof (cases "filter (\<lambda>st'. fst st < fst st') (f st) = []")
    case True
    then show ?thesis by (cases n; cases m) auto
  next
    case False
    then obtain x where "x \<in> set (f st)" "fst st < fst x"
      by (auto simp: filter_empty_conv)
    with assms [of x st] less.prems have "fst st < N" by linarith
    with less.prems obtain n' m' where n: "n = Suc n'" and m: "m = Suc m'"
      by (cases n; cases m) auto
    have eq: "star_run n' f x = star_run m' f x"
      if "x \<in> set (filter (\<lambda>st'. fst st < fst st') (f st))" for x
    proof (rule less.hyps)
      show "N - fst x < N - fst st" using that \<open>fst st < N\<close> by (simp add: diff_less_mono2)
      show "fst x \<le> N" using that assms [of x st] less.prems(1) by simp
      show "N - fst x \<le> n'" "N - fst x \<le> m'" using that less.prems n m by auto
    qed
    have "map (star_run n' f) (filter (\<lambda>st'. fst st < fst st') (f st)) =
        map (star_run m' f) (filter (\<lambda>st'. fst st < fst st') (f st))"
      by (rule map_cong [OF refl eq])
    then show ?thesis unfolding n m star_run.simps by (simp only:)
  qed
qed

text \<open>The least number of characters a match consumes.\<close>

primrec min_len :: "re \<Rightarrow> nat" where
  "min_len Eps = 0"
| "min_len (Cls p) = 1"
| "min_len (Seq a b) = min_len a + min_len b"
| "min_len (Alt a b) = min (min_len a) (min_len b)"
| "min_len (Star a) = 0"
| "min_len (LStar a) = 0"
| "min_len (Grp k a) = min_len a"
| "min_len Bol = 0"
| "min_len Eol = 0"
| "min_len Wb = 0"
| "min_len (Look a) = 0"
| "min_len (NLook a) = 0"
| "min_len (Back k) = 0"

lemma rm_min_len:
  "st' \<in> set (rm r s st) \<Longrightarrow> fst st \<le> length s \<Longrightarrow> fst st + min_len r \<le> fst st'"
proof (induction r arbitrary: st st')
  case (Seq a b)
  from Seq.prems obtain x where x: "x \<in> set (rm a s st)" "st' \<in> set (rm b s x)" by auto
  with Seq.IH(1) [OF x(1) Seq.prems(2)] Seq.IH(2) [OF x(2)] rm_forward [OF x(1) Seq.prems(2)]
  show ?case by simp
next
  case (Alt a b)
  from Alt.prems Alt.IH(1) [of st' st] Alt.IH(2) [of st' st] show ?case by auto
next
  case (Star a)
  with rm_forward [OF Star.prems] show ?case by simp
next
  case (LStar a)
  with rm_forward [OF LStar.prems] show ?case by simp
qed (auto simp: Let_def split: if_splits list.splits option.splits prod.splits)

section \<open>Captured groups\<close>

text \<open>The groups that take part in every match of an expression.\<close>

primrec must_groups :: "re \<Rightarrow> nat list" where
  "must_groups Eps = []"
| "must_groups (Cls p) = []"
| "must_groups (Seq a b) = must_groups a @ must_groups b"
| "must_groups (Alt a b) = filter (\<lambda>k. k \<in> set (must_groups b)) (must_groups a)"
| "must_groups (Star a) = []"
| "must_groups (LStar a) = []"
| "must_groups (Grp k a) = k # must_groups a"
| "must_groups Bol = []"
| "must_groups Eol = []"
| "must_groups Wb = []"
| "must_groups (Look a) = []"
| "must_groups (NLook a) = []"
| "must_groups (Back k) = []"


primrec all_groups :: "re \<Rightarrow> nat list" where
  "all_groups Eps = []"
| "all_groups (Cls p) = []"
| "all_groups (Seq a b) = all_groups a @ all_groups b"
| "all_groups (Alt a b) = all_groups a @ all_groups b"
| "all_groups (Star a) = all_groups a"
| "all_groups (LStar a) = all_groups a"
| "all_groups (Grp k a) = k # all_groups a"
| "all_groups Bol = []"
| "all_groups Eol = []"
| "all_groups Wb = []"
| "all_groups (Look a) = []"
| "all_groups (NLook a) = []"
| "all_groups (Back k) = []"

text \<open>
  What a match adds to the captures: spans of groups of the expression, that lie
  between the start and the end of the match.
\<close>

definition caps_ok :: "nat \<Rightarrow> nat \<Rightarrow> caps \<Rightarrow> bool" where
  "caps_ok i N cs \<longleftrightarrow> (\<forall>(k, a, b) \<in> set cs. i \<le> a \<and> a \<le> b \<and> b \<le> N)"

definition caps_step :: "nat list \<Rightarrow> mstate \<Rightarrow> mstate \<Rightarrow> bool" where
  "caps_step ks st st' \<longleftrightarrow> fst st \<le> fst st' \<and>
     (\<exists>d. snd st' = d @ snd st \<and> fst ` set d \<subseteq> set ks \<and> caps_ok (fst st) (fst st') d)"

lemma caps_ok_append [simp]: "caps_ok i N (c @ d) \<longleftrightarrow> caps_ok i N c \<and> caps_ok i N d"
  by (simp add: caps_ok_def ball_Un)

lemma caps_ok_mono: "caps_ok j N c \<Longrightarrow> i \<le> j \<Longrightarrow> N \<le> M \<Longrightarrow> caps_ok i M c"
  by (fastforce simp: caps_ok_def)

lemma caps_step_refl [intro, simp]: "snd st' = snd st \<Longrightarrow> fst st \<le> fst st' \<Longrightarrow> caps_step ks st st'"
  by (auto simp: caps_step_def caps_ok_def)

lemma caps_step_mono: "caps_step ks st st' \<Longrightarrow> set ks \<subseteq> set ks' \<Longrightarrow> caps_step ks' st st'"
  by (auto simp: caps_step_def)

lemma caps_step_trans:
  assumes "caps_step ks st st'" "caps_step ks st' st''"
  shows "caps_step ks st st''"
proof -
  obtain d where d: "snd st' = d @ snd st" "fst ` set d \<subseteq> set ks" "caps_ok (fst st) (fst st') d"
    "fst st \<le> fst st'" using assms(1) by (auto simp: caps_step_def)
  obtain e where e: "snd st'' = e @ snd st'" "fst ` set e \<subseteq> set ks" "caps_ok (fst st') (fst st'') e"
    "fst st' \<le> fst st''" using assms(2) by (auto simp: caps_step_def)
  show ?thesis unfolding caps_step_def
    using d e caps_ok_mono [OF e(3) d(4) le_refl] caps_ok_mono [OF d(3) le_refl e(4)]
    by (intro conjI exI [of _ "e @ d"]) auto
qed

lemma star_run_caps_step:
  assumes "\<And>st st'. st' \<in> set (f st) \<Longrightarrow> caps_step ks st st'"
  shows "st' \<in> set (star_run n f st) \<Longrightarrow> caps_step ks st st'"
proof (induction n arbitrary: st)
  case (Suc n)
  show ?case
  proof (cases "st' = st")
    case False
    with Suc.prems obtain x where x: "x \<in> set (f st)" "st' \<in> set (star_run n f x)" by auto
    from assms [OF x(1)] Suc.IH [OF x(2)] show ?thesis by (rule caps_step_trans)
  qed simp
qed simp

lemma rm_caps_step: "st' \<in> set (rm r s st) \<Longrightarrow> caps_step (all_groups r) st st'"
proof (induction r arbitrary: st st')
  case (Seq a b)
  from Seq.prems obtain x where x: "x \<in> set (rm a s st)" "st' \<in> set (rm b s x)" by auto
  have "caps_step (all_groups (Seq a b)) st x"
    by (rule caps_step_mono [OF Seq.IH(1) [OF x(1)]]) simp
  moreover have "caps_step (all_groups (Seq a b)) x st'"
    by (rule caps_step_mono [OF Seq.IH(2) [OF x(2)]]) simp
  ultimately show ?case by (rule caps_step_trans)
next
  case (Alt a b)
  then consider "st' \<in> set (rm a s st)" | "st' \<in> set (rm b s st)" by auto
  then show ?case
    by cases (rule caps_step_mono, erule Alt.IH, simp)+
next
  case (Star a)
  then show ?case using star_run_caps_step [of "rm a s" "all_groups a" st' "length s" st] by simp
next
  case (LStar a)
  then show ?case using star_run_caps_step [of "rm a s" "all_groups a" st' "length s" st]
    by (simp add: lstar_run_set)
next
  case (Grp k a)
  then obtain x where x: "x \<in> set (rm a s st)" "st' = (fst x, (k, fst st, fst x) # snd x)" by auto
  from Grp.IH [OF x(1)] obtain d where
    "snd x = d @ snd st" "fst ` set d \<subseteq> set (all_groups a)" "caps_ok (fst st) (fst x) d"
    "fst st \<le> fst x"
    by (auto simp: caps_step_def)
  with x(2) show ?case
    unfolding caps_step_def
    by (intro conjI exI [of _ "(k, fst st, fst x) # d"]) (auto simp: caps_ok_def)
qed (auto simp: Let_def split: if_splits option.splits prod.splits)

lemma rm_must_groups:
  "st' \<in> set (rm r s st) \<Longrightarrow> fst st \<le> length s \<Longrightarrow> k \<in> set (must_groups r)
   \<Longrightarrow> k \<in> fst ` set (snd st')"
proof (induction r arbitrary: st st')
  case (Seq a b)
  from Seq.prems obtain x where x: "x \<in> set (rm a s st)" "st' \<in> set (rm b s x)" by auto
  have lx: "fst x \<le> length s" using rm_forward [OF x(1) Seq.prems(2)] by simp
  from Seq.prems(3) show ?case
  proof (simp, elim disjE)
    assume "k \<in> set (must_groups a)"
    from Seq.IH(1) [OF x(1) Seq.prems(2) this] rm_caps_step [OF x(2)]
    show "k \<in> fst ` set (snd st')" by (auto simp: caps_step_def)
  next
    assume "k \<in> set (must_groups b)"
    from Seq.IH(2) [OF x(2) lx this] show "k \<in> fst ` set (snd st')" .
  qed
next
  case (Grp k' a)
  then obtain x where "x \<in> set (rm a s st)" "snd st' = (k', fst st, fst x) # snd x" by auto
  with Grp.IH [of x st] Grp.prems(2,3) show ?case by auto
qed (auto split: if_splits)

section \<open>Facts on \<open>match\<close>, \<open>search\<close> and groups\<close>

lemma match_atD:
  assumes "match_at r s i = Some m" and "i \<le> length s"
  shows "m_string m = s" "m_start m = i" "i + min_len r \<le> m_end m" "m_end m \<le> length s"
    "(m_end m, m_caps m) \<in> set (rm r s (i, []))"
    "caps_ok i (m_end m) (m_caps m)" "fst ` set (m_caps m) \<subseteq> set (all_groups r)"
proof -
  from assms(1) obtain st sts where st: "rm r s (i, []) = st # sts"
    and m: "m = \<lparr>m_string = s, m_start = i, m_end = fst st, m_caps = snd st\<rparr>"
    by (auto simp: match_at_def split: list.splits)
  have mem: "st \<in> set (rm r s (i, []))" by (simp add: st)
  from m show "m_string m = s" "m_start m = i" by simp_all
  from rm_min_len [OF mem] assms(2) m show "i + min_len r \<le> m_end m" by simp
  from rm_forward [OF mem] assms(2) m show "m_end m \<le> length s" by simp
  from mem m show "(m_end m, m_caps m) \<in> set (rm r s (i, []))" by simp
  from rm_caps_step [OF mem] assms(2) m
  show "caps_ok i (m_end m) (m_caps m)" "fst ` set (m_caps m) \<subseteq> set (all_groups r)"
    by (auto simp: caps_step_def)
qed

lemmas MatchD = match_atD [where i = 0, folded Match_def, simplified]

lemma search_from_match_at:
  "search_from r s i n = Some m \<Longrightarrow> \<exists>j. i \<le> j \<and> j \<le> i + n \<and> match_at r s j = Some m"
proof (induction n arbitrary: i)
  case (Suc n)
  show ?case
  proof (cases "match_at r s i")
    case None
    with Suc.prems have "search_from r s (Suc i) n = Some m" by simp
    from Suc.IH [OF this] show ?thesis by (metis Suc_leD add_Suc_right add_Suc)
  next
    case (Some x)
    with Suc.prems show ?thesis by auto
  qed
qed auto

lemma Search_SomeE:
  assumes "Search r s = Some m"
  obtains j where "j \<le> length s" "match_at r s j = Some m"
  using search_from_match_at [OF assms [unfolded Search_def]] by auto

lemma Search_end: "Search r s = Some m \<Longrightarrow> min_len r \<le> m_end m \<and> m_end m \<le> length s"
  by (erule Search_SomeE, frule (1) match_atD(3), drule (1) match_atD(4)) simp

lemma search_from_None:
  "search_from r s i n = None \<longleftrightarrow> (\<forall>j. i \<le> j \<and> j \<le> i + n \<longrightarrow> match_at r s j = None)"
proof (induction n arbitrary: i)
  case 0
  show ?case by (auto simp: le_antisym)
next
  case (Suc n)
  have "(\<forall>j. i \<le> j \<and> j \<le> i + Suc n \<longrightarrow> match_at r s j = None) \<longleftrightarrow>
    match_at r s i = None \<and> (\<forall>j. Suc i \<le> j \<and> j \<le> Suc i + n \<longrightarrow> match_at r s j = None)"
    by (metis Suc_leD Suc_leI add_Suc add_Suc_right le_add1 le_eq_less_or_eq)
  with Suc show ?case by (auto split: option.splits)
qed

lemma match_at_None: "match_at r s i = None \<longleftrightarrow> rm r s (i, []) = []"
  by (auto simp: match_at_def split: list.splits)

lemma found_iff: "found r s \<longleftrightarrow> (\<exists>i \<le> length s. rm r s (i, []) \<noteq> [])"
  by (auto simp: Search_def search_from_None match_at_None)

lemma length_slice [simp]: "length (slice s i j) = min (j - i) (length s - i)"
  by (simp add: slice_def)

lemma slice_all [simp]: "slice s 0 (length s) = s"
  by (simp add: slice_def)

lemma grp_caps:
  assumes "k \<noteq> 0"
  shows "grp m k = (case map_of (m_caps m) k of None \<Rightarrow> []
     | Some (i, j) \<Rightarrow> slice (m_string m) i j)"
  using assms by (auto simp: grp_def group_def split: option.splits)

lemma Match_must_group:
  assumes "Match r s = Some m" and "k \<in> set (must_groups r)"
  shows "group m k \<noteq> None"
proof -
  have "k \<in> fst ` set (m_caps m)"
    using rm_must_groups [OF MatchD(5) [OF assms(1)]] assms(2) by simp
  then have "map_of (m_caps m) k \<noteq> None" by (simp add: map_of_eq_None_iff)
  then show ?thesis by (simp add: group_def)
qed

lemma grp_length:
  assumes "Match r s = Some m"
  shows "length (grp m k) \<le> length s"
  using MatchD(1,2,4) [OF assms]
  by (auto simp: grp_def group_def split: option.splits)

lemma rm_Seq_assoc: "rm (Seq a (Seq b c)) s st = rm (Seq (Seq a b) c) s st"
proof -
  have "concat (map g (concat (map h xs))) = concat (map (\<lambda>x. concat (map g (h x))) xs)"
    for g :: "mstate \<Rightarrow> mstate list" and h :: "mstate \<Rightarrow> mstate list" and xs
    by (induction xs) simp_all
  moreover have "rm (Seq b c) s = (\<lambda>x. concat (map (rm c s) (rm b s x)))"
    by (rule ext) simp
  ultimately show ?thesis by simp
qed

text \<open>
  The groups of two consecutive parts of an expression capture consecutive parts of the
  text: the loops that go on with the text of such a group end.
\<close>

lemma Match_SeqE:
  assumes "Match (Seq a b) s = Some m"
  obtains x d e where "(x, d) \<in> set (rm a s (0, []))" "(m_end m, m_caps m) \<in> set (rm b s (x, d))"
    "m_caps m = e @ d" "caps_ok 0 x d" "caps_ok x (m_end m) e"
    "fst ` set d \<subseteq> set (all_groups a)" "fst ` set e \<subseteq> set (all_groups b)"
    "min_len a \<le> x" "x + min_len b \<le> m_end m" "m_end m \<le> length s" "m_string m = s"
proof -
  note D = MatchD [OF assms]
  from D(5) obtain st where st: "st \<in> set (rm a s (0, []))"
    "(m_end m, m_caps m) \<in> set (rm b s st)" by auto
  obtain x d where xd: "st = (x, d)" by (cases st)
  from rm_caps_step [OF st(1)] xd have d: "caps_ok 0 x d" "fst ` set d \<subseteq> set (all_groups a)"
    by (auto simp: caps_step_def)
  from rm_caps_step [OF st(2)] xd obtain e where e: "m_caps m = e @ d"
    "caps_ok x (m_end m) e" "fst ` set e \<subseteq> set (all_groups b)"
    by (auto simp: caps_step_def)
  have lx: "x \<le> length s" using rm_forward [OF st(1)] xd by simp
  show ?thesis
    using that st xd d e rm_min_len [OF st(1)] rm_min_len [OF st(2)] lx D(1,4) by simp
qed

lemma grp_span:
  assumes "k \<noteq> 0" and "m_caps m = e @ d" and "k \<notin> fst ` set e" and "caps_ok i j d"
  shows "length (grp m k) \<le> j - i"
proof (cases "map_of (m_caps m) k")
  case None
  with assms(1) show ?thesis by (simp add: grp_caps)
next
  case (Some ab)
  have "map_of e k = None" using assms(3) by (simp add: map_of_eq_None_iff)
  with Some assms(2) have "map_of d k = Some ab" by (simp add: map_add_def)
  then have "(k, ab) \<in> set d" by (rule map_of_SomeD)
  with assms(4) have "i \<le> fst ab \<and> snd ab \<le> j" by (auto simp: caps_ok_def)
  with assms(1) Some show ?thesis by (auto simp: grp_caps split: prod.splits)
qed

lemma grp_span_suffix:
  assumes "k \<noteq> 0" and "m_caps m = e @ d" and "k \<notin> fst ` set d" and "caps_ok i j e"
  shows "length (grp m k) \<le> j - i"
proof -
  have "map_of d k = None" using assms(3) by (simp add: map_of_eq_None_iff)
  then have eq: "map_of (m_caps m) k = map_of e k"
    using assms(2) by (simp add: map_add_def split: option.splits)
  show ?thesis
  proof (cases "map_of e k")
    case (Some ab)
    then have "(k, ab) \<in> set e" by (rule map_of_SomeD)
    with assms(4) have "i \<le> fst ab \<and> snd ab \<le> j" by (auto simp: caps_ok_def)
    with assms(1) Some eq show ?thesis by (auto simp: grp_caps split: prod.splits)
  qed (use assms(1) eq in \<open>simp add: grp_caps\<close>)
qed

lemma grp_before_after:
  assumes m: "Match (Seq a b) s = Some m" and k: "k \<noteq> 0" "k \<notin> set (all_groups b)"
    and l: "l \<noteq> 0" "l \<notin> set (all_groups a)"
  shows "length (grp m k) + length (grp m l) \<le> length s"
proof -
  from m obtain x d e where x: "m_caps m = e @ d" "caps_ok 0 x d" "caps_ok x (m_end m) e"
    "fst ` set d \<subseteq> set (all_groups a)" "fst ` set e \<subseteq> set (all_groups b)"
    "x + min_len b \<le> m_end m" "m_end m \<le> length s"
    by (rule Match_SeqE)
  have "length (grp m k) \<le> x - 0"
    by (rule grp_span [OF k(1) x(1)]) (use k(2) x in auto)
  moreover have "length (grp m l) \<le> m_end m - x"
    by (rule grp_span_suffix [OF l(1) x(1)]) (use l(2) x in auto)
  ultimately show ?thesis using x(6,7) by simp
qed

lemma grp_around:
  assumes m: "Match (Seq a (Seq c b)) s = Some m"
    and k: "k \<noteq> 0" "k \<notin> set (all_groups c)" "k \<notin> set (all_groups b)"
    and l: "l \<noteq> 0" "l \<notin> set (all_groups a)" "l \<notin> set (all_groups c)"
  shows "length (grp m k) + min_len c + length (grp m l) \<le> length s"
proof -
  from m obtain x d e where x: "(x, d) \<in> set (rm a s (0, []))"
    "(m_end m, m_caps m) \<in> set (rm (Seq c b) s (x, d))" "m_end m \<le> length s"
    "caps_ok 0 x d" "fst ` set d \<subseteq> set (all_groups a)"
    by (rule Match_SeqE)
  from x(2) obtain y d' where y: "(y, d') \<in> set (rm c s (x, d))"
    "(m_end m, m_caps m) \<in> set (rm b s (y, d'))" by auto
  have lx: "x \<le> length s" using rm_forward [OF x(1)] by simp
  from rm_caps_step [OF y(1)] obtain f where f: "d' = f @ d" "fst ` set f \<subseteq> set (all_groups c)"
    by (auto simp: caps_step_def)
  from rm_caps_step [OF y(2)] obtain e where e: "m_caps m = e @ d'"
    "fst ` set e \<subseteq> set (all_groups b)" "caps_ok y (m_end m) e" "y \<le> m_end m"
    by (auto simp: caps_step_def)
  have "length (grp m k) \<le> x - 0"
    by (rule grp_span [OF k(1), of m "e @ f" d]) (use k e f x in auto)
  moreover have "length (grp m l) \<le> m_end m - y"
    by (rule grp_span_suffix [OF l(1) e(1)]) (use l e f x in auto)
  moreover have "x + min_len c \<le> y" using rm_min_len [OF y(1)] lx by simp
  ultimately show ?thesis using x(3) e(4) by simp
qed

lemma grp_after_prefix:
  assumes m: "Match (Seq a b) s = Some m" and k: "k \<noteq> 0" "k \<notin> set (all_groups a)"
  shows "length (grp m k) + min_len a \<le> length s"
proof -
  from m obtain x d e where x: "m_caps m = e @ d" "caps_ok x (m_end m) e"
    "fst ` set d \<subseteq> set (all_groups a)" "min_len a \<le> x" "x + min_len b \<le> m_end m"
    "m_end m \<le> length s"
    by (rule Match_SeqE)
  have "length (grp m k) \<le> m_end m - x"
    by (rule grp_span_suffix [OF k(1) x(1)]) (use k(2) x in auto)
  with x show ?thesis by simp
qed

lemma head_group_length:
  assumes "Match (Seqs (Bol # Grp 1 a # r # rs)) s = Some m" and "1 \<notin> set (all_groups (Seqs (r # rs)))"
  shows "length (grp m 1) + min_len (Seqs (r # rs)) \<le> length s"
proof -
  let ?b = "Seqs (r # rs)"
  have "Match (Seq (Seq Bol (Grp 1 a)) ?b) s = Some m"
    using assms(1) rm_Seq_assoc [of Bol "Grp 1 a" ?b]
    by (simp add: Seqs.simps Match_def match_at_def del: rm.simps)
  then obtain x d e where x: "m_caps m = e @ d" "caps_ok 0 x d" "fst ` set e \<subseteq> set (all_groups ?b)"
    "x + min_len ?b \<le> m_end m" "m_end m \<le> length s"
    by (rule Match_SeqE)
  have "length (grp m 1) \<le> x - 0"
    by (rule grp_span [OF _ x(1)]) (use assms(2) x in auto)
  with x(4,5) show ?thesis by simp
qed

section \<open>Repetitions of one character class\<close>

lemma takeWhile_drop_step:
  "i < length s \<Longrightarrow> takeWhile p (drop i s) =
     (if p (s ! i) then s ! i # takeWhile p (drop (Suc i) s) else [])"
  by (simp add: Cons_nth_drop_Suc [symmetric])

definition run_end :: "(char \<Rightarrow> bool) \<Rightarrow> string \<Rightarrow> nat \<Rightarrow> nat" where
  "run_end p s i = i + length (takeWhile p (drop i s))"

lemma run_end_le [simp]: "i \<le> length s \<Longrightarrow> run_end p s i \<le> length s"
  using length_takeWhile_le [of p "drop i s"] by (simp add: run_end_def)

lemma run_end_ge [simp]: "i \<le> run_end p s i"
  by (simp add: run_end_def)

lemma run_end_in: "i \<le> j \<Longrightarrow> j < run_end p s i \<Longrightarrow> j < length s \<and> p (s ! j)"
proof -
  assume j: "i \<le> j" "j < run_end p s i"
  then have lt: "j - i < length (takeWhile p (drop i s))" by (simp add: run_end_def)
  then have jl: "j - i < length (drop i s)"
    using length_takeWhile_le [of p "drop i s"] by linarith
  have "takeWhile p (drop i s) ! (j - i) \<in> set (takeWhile p (drop i s))"
    using lt by (rule nth_mem)
  then have "p (takeWhile p (drop i s) ! (j - i))" by (rule set_takeWhileD [THEN conjunct2])
  with takeWhile_nth [OF lt] j(1) jl show ?thesis by simp
qed

lemma run_end_out: "run_end p s i < length s \<Longrightarrow> \<not> p (s ! run_end p s i)"
proof -
  assume lt: "run_end p s i < length s"
  then have "length (takeWhile p (drop i s)) < length (drop i s)" by (simp add: run_end_def)
  from nth_length_takeWhile [OF this] lt show ?thesis by (simp add: run_end_def)
qed

lemma star_run_cls:
  "i \<le> length s \<Longrightarrow> length s - i \<le> n \<Longrightarrow>
   star_run n (rm (Cls p) s) (i, c) = map (\<lambda>j. (j, c)) (rev [i..<Suc (run_end p s i)])"
proof (induction n arbitrary: i)
  case 0
  then show ?case by (simp add: run_end_def)
next
  case (Suc n)
  show ?case
  proof (cases "i < length s \<and> p (s ! i)")
    case True
    have "star_run n (rm (Cls p) s) (Suc i, c)
        = map (\<lambda>j. (j, c)) (rev [Suc i..<Suc (run_end p s (Suc i))])"
      by (rule Suc.IH) (use True Suc.prems in auto)
    moreover have "run_end p s i = run_end p s (Suc i)"
      using True by (simp add: run_end_def takeWhile_drop_step [of i])
    moreover have "[i..<Suc (run_end p s (Suc i))] = i # [Suc i..<Suc (run_end p s (Suc i))]"
      by (rule upt_conv_Cons) (simp add: run_end_def)
    moreover have "star_run (Suc n) (rm (Cls p) s) (i, c) =
        star_run n (rm (Cls p) s) (Suc i, c) @ [(i, c)]"
      using True by simp
    ultimately show ?thesis by (simp only: rev.simps map_append list.map append.simps)
  next
    case False
    then have "takeWhile p (drop i s) = []"
      by (cases "i < length s") (auto simp: takeWhile_drop_step [of i])
    with False show ?thesis by (auto simp: run_end_def)
  qed
qed

lemma rm_star_cls:
  "i \<le> length s \<Longrightarrow>
   rm (Star (Cls p)) s (i, c) = map (\<lambda>j. (j, c)) (rev [i..<Suc (run_end p s i)])"
  by (simp add: star_run_cls)

text \<open>
  A greedy repetition of a class in front of an expression that fails at every position
  inside the run can only stop at the end of the run.
\<close>

lemma rm_Seq_star_cls:
  assumes i: "i \<le> length s"
    and fail: "\<And>j. i \<le> j \<Longrightarrow> j < run_end p s i \<Longrightarrow> rm r s (j, c) = []"
  shows "rm (Seq (Star (Cls p)) r) s (i, c) = rm r s (run_end p s i, c)"
proof -
  have "concat (map (\<lambda>j. rm r s (j, c)) (rev [i..<run_end p s i])) = []"
    using fail by (auto simp: concat_eq_Nil_conv)
  then have "concat (map (\<lambda>j. rm r s (j, c)) (rev [i..<Suc (run_end p s i)]))
      = rm r s (run_end p s i, c)"
    by simp
  then show ?thesis
    by (simp only: rm.simps(3) rm_star_cls [OF i] map_map comp_def)
qed

section \<open>Sequences, literals, options\<close>

lemma rm_Seqs_Nil [re_simps]: "rm (Seqs []) s st = [st]"
  by simp

lemma rm_Seqs_Cons [re_simps]:
  "rm (Seqs (r # rs)) s st = concat (map (rm (Seqs rs) s) (rm r s st))"
proof (cases rs)
  case Nil
  have "concat (map (rm Eps s) xs) = xs" for xs by (induction xs) simp_all
  with Nil show ?thesis by simp
qed simp

lemma rm_Lit [re_simps]:
  "rm (Lit w) s (i, c) = (if startswith (drop i s) w then [(i + length w, c)] else [])"
proof (induction w arbitrary: i)
  case Nil
  show ?case by (simp add: Lit_def)
next
  case (Cons x w)
  show ?case
  proof (cases "i < length s")
    case True
    then have d: "drop i s = s ! i # drop (Suc i) s" by (simp add: Cons_nth_drop_Suc)
    have "rm (Lit (x # w)) s (i, c) = concat (map (rm (Lit w) s) (rm (Ch x) s (i, c)))"
      unfolding Lit_def list.map by (rule rm_Seqs_Cons)
    with True Cons.IH [of "Suc i"] show ?thesis by (simp add: Ch_def d)
  next
    case False
    have "rm (Lit (x # w)) s (i, c) = concat (map (rm (Lit w) s) (rm (Ch x) s (i, c)))"
      unfolding Lit_def list.map by (rule rm_Seqs_Cons)
    with False show ?thesis by (simp add: Ch_def)
  qed
qed

lemma rm_Seqs_step: "rm r s st = [st'] \<Longrightarrow> rm (Seqs (r # rs)) s st = rm (Seqs rs) s st'"
  by (simp add: rm_Seqs_Cons del: Seqs.simps)

lemma rm_Opt [re_simps]: "rm (Opt r) s st = rm r s st @ [st]"
  by (simp add: Opt_def)

lemma rm_Alts_Nil [re_simps]: "rm (Alts []) s st = []"
  by simp

lemma rm_Alts_Cons [re_simps]: "rm (Alts (r # rs)) s st = rm r s st @ rm (Alts rs) s st"
  by (cases rs) simp_all

lemma rm_Seqs_star_cls:
  assumes "i \<le> length s"
    and "\<And>j. i \<le> j \<Longrightarrow> j < run_end p s i \<Longrightarrow> rm (Seqs rs) s (j, c) = []"
  shows "rm (Seqs (Star (Cls p) # rs)) s (i, c) = rm (Seqs rs) s (run_end p s i, c)"
  using rm_Seq_star_cls [OF assms] by (simp only: rm_Seqs_Cons rm.simps(3))

lemma rm_Seqs_plus_cls:
  assumes "i \<le> length s"
    and "\<And>j. i < j \<Longrightarrow> j < run_end p s (Suc i) \<Longrightarrow> rm (Seqs rs) s (j, c) = []"
  shows "rm (Seqs (Plus (Cls p) # rs)) s (i, c) =
    (if i < length s \<and> p (s ! i) then rm (Seqs rs) s (run_end p s (Suc i), c) else [])"
proof (cases "i < length s \<and> p (s ! i)")
  case True
  have "rm (Seqs (Plus (Cls p) # rs)) s (i, c) = rm (Seqs (Star (Cls p) # rs)) s (Suc i, c)"
    unfolding rm_Seqs_Cons Plus_def using True by simp
  also have "\<dots> = rm (Seqs rs) s (run_end p s (Suc i), c)"
    by (rule rm_Seqs_star_cls) (use True assms(2) in auto)
  finally show ?thesis using True by simp
next
  case False
  then show ?thesis unfolding rm_Seqs_Cons Plus_def by auto
qed

lemma run_end_append:
  assumes "list_all p v" and "w = [] \<or> \<not> p (hd w)"
  shows "run_end p (u @ v @ w) (length u) = length u + length v"
proof -
  have "takeWhile p (v @ w) = v"
    using assms by (cases w) (auto simp: takeWhile_append2 list_all_iff)
  then show ?thesis by (simp add: run_end_def)
qed


text \<open>The first match of a search, when no match starts earlier.\<close>

lemma search_from_first:
  "\<lbrakk>\<And>j. i \<le> j \<Longrightarrow> j < k \<Longrightarrow> match_at r s j = None; i \<le> k; k \<le> i + n; match_at r s k = Some m\<rbrakk>
   \<Longrightarrow> search_from r s i n = Some m"
proof (induction n arbitrary: i)
  case 0
  then show ?case by simp
next
  case (Suc n)
  show ?case
  proof (cases "i = k")
    case True
    with Suc.prems show ?thesis by simp
  next
    case False
    then have "match_at r s i = None" using Suc.prems by simp
    moreover have "search_from r s (Suc i) n = Some m"
      by (rule Suc.IH) (use False Suc.prems in auto)
    ultimately show ?thesis by simp
  qed
qed

lemma Search_first:
  "\<lbrakk>\<And>j. j < k \<Longrightarrow> match_at r s j = None; k \<le> length s; match_at r s k = Some m\<rbrakk>
   \<Longrightarrow> Search r s = Some m"
  unfolding Search_def by (rule search_from_first [where k = k]) auto

text \<open>From here on sequences and alternatives are unfolded by \<open>re_simps\<close> only.\<close>

lemma rm_Seqs_single [simp, re_simps]: "rm (Seqs [r]) s st = rm r s st"
  by simp

declare Seqs.simps [simp del] Alts.simps [simp del]

section \<open>The rest of the text\<close>

lemma run_end_all: "i \<le> length s \<Longrightarrow> list_all p (drop i s) \<Longrightarrow> run_end p s i = length s"
  by (simp add: run_end_def list_all_iff takeWhile_eq_all_conv [THEN iffD2])

lemma at_eol_end: "CHR 0x0A \<notin> set (drop i s) \<Longrightarrow> i \<le> j \<Longrightarrow> at_eol s j \<longleftrightarrow> j = length s"
  by (auto simp: at_eol_def in_set_conv_nth)
     (metis add_diff_inverse_nat diff_less_mono lessI linorder_not_le)

lemma rm_rest:
  assumes "i \<le> length s" and "CHR 0x0A \<notin> set (drop i s)"
  shows "rm (Seq (Grp k (Star Any)) Eol) s (i, c) = [(length s, (k, i, length s) # c)]"
proof -
  have "list_all (\<lambda>c. c \<noteq> CHR 0x0A) (drop i s)" using assms(2) by (auto simp: list_all_iff)
  then have "run_end (\<lambda>c. c \<noteq> CHR 0x0A) s i = length s" by (rule run_end_all [OF assms(1)])
  then have "rm (Grp k (Star Any)) s (i, c) =
      map (\<lambda>j. (j, (k, i, j) # c)) (rev [i..<Suc (length s)])"
    unfolding Any_def rm.simps(7) rm_star_cls [OF assms(1)] by (simp add: comp_def)
  moreover have "concat (map (rm Eol s) (map (\<lambda>j. (j, (k, i, j) # c)) (rev [i..<length s]))) = []"
    using at_eol_end [OF assms(2)] by (auto simp: concat_eq_Nil_conv)
  moreover have "at_eol s (length s)" by (simp add: at_eol_def)
  ultimately show ?thesis using assms(1) by simp
qed

lemma rm_Star_skip: "st \<in> set (rm (Star r) s st)"
  by (cases "length s") auto

lemma rm_Seq_ne: "x \<in> set (rm a s st) \<Longrightarrow> rm b s x \<noteq> [] \<Longrightarrow> rm (Seq a b) s st \<noteq> []"
  by (auto simp: concat_eq_Nil_conv)

section \<open>Substitution\<close>

text \<open>Replacing each character of a class is a map.\<close>

lemma sub_from_cls:
  "length s - i \<le> n \<Longrightarrow> sub_from (Cls p) (\<lambda>_. [b]) s i n = map (\<lambda>c. if p c then b else c) (drop i s)"
proof (induction n arbitrary: i)
  case (Suc n)
  show ?case
  proof (cases "i < length s")
    case True
    then show ?thesis using Suc
      by (auto simp: match_at_def Cons_nth_drop_Suc [symmetric])
  qed simp
qed simp

lemma re_sub_cls: "re_sub (Cls p) [b] s = map (\<lambda>c. if p c then b else c) s"
  by (simp add: re_sub_def re_sub_fn_def sub_from_cls)

text \<open>A constant replacement no longer than any match does not lengthen the string.\<close>

lemma length_sub_from:
  assumes "length rep \<le> min_len r"
  shows "i \<le> length s \<Longrightarrow> length (sub_from r (\<lambda>_. rep) s i n) \<le> length s - i"
proof (induction n arbitrary: i)
  case (Suc n)
  show ?case
  proof (cases "i < length s")
    case True
    have step: "length (sub_from r (\<lambda>_. rep) s (Suc i) n) \<le> length s - Suc i"
      using Suc.IH True by simp
    have "length rep + length (sub_from r (\<lambda>_. rep) s (m_end m) n) \<le> length s - i"
      if "match_at r s i = Some m" for m
      using match_atD(3,4) [OF that Suc.prems] Suc.IH [of "m_end m"] assms by simp
    with step True show ?thesis by (auto split: option.split)
  qed simp
qed simp

lemma length_re_sub: "length rep \<le> min_len r \<Longrightarrow> length (re_sub r rep s) \<le> length s"
  using length_sub_from [of rep r 0 s "length s"] by (simp add: re_sub_def re_sub_fn_def)

text \<open>Nothing is replaced where nothing matches.\<close>

lemma sub_from_absent:
  "(\<And>j. i \<le> j \<Longrightarrow> j < length s \<Longrightarrow> match_at r s j = None) \<Longrightarrow> sub_from r rep s i n = drop i s"
proof (induction n arbitrary: i)
  case (Suc n)
  show ?case
  proof (cases "i < length s")
    case True
    with Suc.prems have "match_at r s i = None" by simp
    moreover have "sub_from r rep s (Suc i) n = drop (Suc i) s"
      by (rule Suc.IH) (use Suc.prems in auto)
    ultimately show ?thesis using True by (simp add: Cons_nth_drop_Suc)
  qed simp
qed simp

section \<open>Groups after a head, words among alternatives\<close>

lemma rm_Seqs_append: "rm (Seqs (xs @ ys)) s st = concat (map (rm (Seqs ys) s) (rm (Seqs xs) s st))"
proof (induction xs arbitrary: st)
  case (Cons r xs)
  have "concat (map g (concat (map h zs))) = concat (map (\<lambda>z. concat (map g (h z))) zs)"
    for g :: "mstate \<Rightarrow> mstate list" and h :: "mstate \<Rightarrow> mstate list" and zs
    by (induction zs) simp_all
  moreover have "rm (Seqs (xs @ ys)) s = (\<lambda>z. concat (map (rm (Seqs ys) s) (rm (Seqs xs) s z)))"
    by (rule ext) (rule Cons.IH)
  ultimately show ?case by (simp add: rm_Seqs_Cons)
qed (simp add: rm_Seqs_Nil)

lemma tail_group_length:
  assumes "Match (Seqs (xs @ ys)) s = Some m" and "k \<noteq> 0" and "k \<notin> set (all_groups (Seqs xs))"
  shows "length (grp m k) + min_len (Seqs xs) \<le> length s"
proof -
  have "Match (Seq (Seqs xs) (Seqs ys)) s = Some m"
    using assms(1) by (simp add: Match_def match_at_def rm_Seqs_append)
  from grp_after_prefix [OF this assms(2,3)] show ?thesis .
qed

lemma rm_Alts_words:
  "(x, d) \<in> set (rm (Alts (map Lit ws)) s (i, c)) \<longleftrightarrow>
   (\<exists>w \<in> set ws. startswith (drop i s) w \<and> x = i + length w \<and> d = c)"
  by (induction ws) (auto simp: rm_Alts_Nil rm_Alts_Cons rm_Lit simp del: Alts.simps)

section \<open>Matches without their groups\<close>

text \<open>Where a pattern matches does not depend on its groups, when it has no back reference.\<close>

primrec erase :: "re \<Rightarrow> re" where
  "erase Eps = Eps"
| "erase (Cls p) = Cls p"
| "erase (Seq a b) = Seq (erase a) (erase b)"
| "erase (Alt a b) = Alt (erase a) (erase b)"
| "erase (Star a) = Star (erase a)"
| "erase (LStar a) = LStar (erase a)"
| "erase (Grp k a) = erase a"
| "erase Bol = Bol"
| "erase Eol = Eol"
| "erase Wb = Wb"
| "erase (Look a) = Look (erase a)"
| "erase (NLook a) = NLook (erase a)"
| "erase (Back k) = Back k"

primrec no_back :: "re \<Rightarrow> bool" where
  "no_back Eps = True"
| "no_back (Cls p) = True"
| "no_back (Seq a b) = (no_back a \<and> no_back b)"
| "no_back (Alt a b) = (no_back a \<and> no_back b)"
| "no_back (Star a) = no_back a"
| "no_back (LStar a) = no_back a"
| "no_back (Grp k a) = no_back a"
| "no_back Bol = True"
| "no_back Eol = True"
| "no_back Wb = True"
| "no_back (Look a) = no_back a"
| "no_back (NLook a) = no_back a"
| "no_back (Back k) = False"

lemma map_fst_bind:
  assumes "\<And>i c c'. map fst (f (i, c)) = map fst (f' (i, c'))" and "map fst xs = map fst ys"
  shows "map fst (concat (map f xs)) = map fst (concat (map f' ys))"
  using assms(2)
proof (induction xs arbitrary: ys)
  case (Cons x xs)
  then obtain y ys' where y: "ys = y # ys'" "fst x = fst y" "map fst xs = map fst ys'" by (cases ys) auto
  have "map fst (f x) = map fst (f' y)"
    using assms(1) [of "fst x" "snd x" "snd y"] y(2) by (metis prod.collapse)
  with Cons.IH [OF y(3)] y show ?case by simp
qed simp

lemma map_fst_filter:
  fixes xs :: "('a \<times> 'b) list" and ys :: "('a \<times> 'c) list"
  shows "map fst xs = map fst ys \<Longrightarrow>
   map fst (filter (\<lambda>st. p (fst st)) xs) = map fst (filter (\<lambda>st. p (fst st)) ys)"
proof -
  have "map fst (filter (\<lambda>st. p (fst st)) zs) = filter p (map fst zs)" for zs :: "('a \<times> 'c) list"
    by (induction zs) auto
  moreover have "map fst (filter (\<lambda>st. p (fst st)) zs) = filter p (map fst zs)" for zs :: "('a \<times> 'b) list"
    by (induction zs) auto
  ultimately show "map fst xs = map fst ys \<Longrightarrow> ?thesis" by simp
qed

lemma star_run_erase:
  assumes "\<And>i c c'. map fst (f (i, c)) = map fst (f' (i, c'))"
  shows "map fst (star_run n f (i, c)) = map fst (star_run n f' (i, c'))"
proof (induction n arbitrary: i c c')
  case (Suc n)
  have "map fst (filter (\<lambda>st'. i < fst st') (f (i, c))) = map fst (filter (\<lambda>st'. i < fst st') (f' (i, c')))"
    by (rule map_fst_filter [OF assms])
  from map_fst_bind [of "star_run n f" "star_run n f'", OF Suc this] show ?case by simp
qed simp

lemma lstar_run_erase:
  assumes "\<And>i c c'. map fst (f (i, c)) = map fst (f' (i, c'))"
  shows "map fst (lstar_run n f (i, c)) = map fst (lstar_run n f' (i, c'))"
proof (induction n arbitrary: i c c')
  case (Suc n)
  have "map fst (filter (\<lambda>st'. i < fst st') (f (i, c))) = map fst (filter (\<lambda>st'. i < fst st') (f' (i, c')))"
    by (rule map_fst_filter [OF assms])
  from map_fst_bind [of "lstar_run n f" "lstar_run n f'", OF Suc this] show ?case by simp
qed simp

lemma rm_erase: "no_back r \<Longrightarrow> map fst (rm r s (i, c)) = map fst (rm (erase r) s (i, c'))"
proof (induction r arbitrary: i c c')
  case (Seq a b)
  from map_fst_bind [of "rm b s" "rm (erase b) s", OF Seq.IH(2) Seq.IH(1)] Seq.prems show ?case by simp
next
  case (Alt a b)
  then show ?case by (metis erase.simps(4) map_append no_back.simps(4) rm.simps(4))
next
  case (Star a)
  from star_run_erase [of "rm a s" "rm (erase a) s", OF Star.IH] Star.prems show ?case by simp
next
  case (LStar a)
  from lstar_run_erase [of "rm a s" "rm (erase a) s", OF LStar.IH] LStar.prems show ?case by simp
next
  case (Grp k a)
  then have "map fst (rm a s (i, c)) = map fst (rm (erase a) s (i, c'))" by simp
  then show ?case by (simp add: comp_def)
next
  case (Look a)
  then have "map fst (rm a s (i, c)) = map fst (rm (erase a) s (i, c'))" by simp
  then show ?case by (auto dest: map_is_Nil_conv [THEN iffD2])
next
  case (NLook a)
  then have "map fst (rm a s (i, c)) = map fst (rm (erase a) s (i, c'))" by simp
  then show ?case by (auto dest: map_is_Nil_conv [THEN iffD2])
qed simp_all

lemma found_erase: "no_back r \<Longrightarrow> found r s \<longleftrightarrow> found (erase r) s"
  unfolding found_iff using rm_erase [of r s _ "[]" "[]"] by (metis map_is_Nil_conv)

lemma erase_Seqs [simp]: "erase (Seqs rs) = Seqs (map erase rs)"
  by (induction rs rule: Seqs.induct) (simp_all add: Seqs.simps)

lemma no_back_Seqs [simp]: "no_back (Seqs rs) \<longleftrightarrow> list_all no_back rs"
  by (induction rs rule: Seqs.induct) (simp_all add: Seqs.simps)

lemma erase_LitI [simp]: "erase (LitI w) = LitI w"
  by (simp add: LitI_def comp_def)

lemma no_back_LitI [simp]: "no_back (LitI w)"
  by (simp add: LitI_def list_all_iff)

lemma Search_last_char:
  assumes "Search (Seqs (rs @ [Ch c])) s = Some m"
  shows "0 < m_end m \<and> s ! (m_end m - 1) = c"
proof -
  from assms obtain i where "match_at (Seqs (rs @ [Ch c])) s i = Some m" by (rule Search_SomeE)
  then have "(m_end m, m_caps m) \<in> set (rm (Seqs (rs @ [Ch c])) s (i, []))"
    by (auto simp: match_at_def split: list.splits)
  then show ?thesis by (auto simp: rm_Seqs_append Ch_def split: if_splits)
qed

section \<open>A first group and the rest, positions inside a repetition\<close>

lemma Match_head_rest:
  assumes pre: "rm (Seqs pre) s (0, []) = [(0, [])]" and r: "rm r s (0, []) = (k, []) # others"
    and k: "k \<le> length s" "CHR 0x0A \<notin> set (drop k s)"
  shows "\<exists>m. Match (Seqs (pre @ [Grp 1 r, Grp 2 (Star Any), Eol])) s = Some m \<and>
    grp m 1 = take k s \<and> grp m 2 = drop k s"
proof -
  have tail: "rm (Seqs [Grp 2 (Star Any), Eol]) s (k, c) = [(length s, (2, k, length s) # c)]" for c
    using rm_rest [OF k, of 2 c] by (simp add: Seqs.simps)
  let ?ys = "[Grp 1 r, Grp 2 (Star Any), Eol]"
  have "rm (Seqs (pre @ ?ys)) s (0, []) = rm (Seqs ?ys) s (0, [])"
    by (simp only: rm_Seqs_append pre list.map concat.simps append_Nil2)
  also have "\<dots> = concat (map (rm (Seqs [Grp 2 (Star Any), Eol]) s) (rm (Grp 1 r) s (0, [])))"
    by (rule rm_Seqs_Cons)
  also have "rm (Grp 1 r) s (0, []) = (k, [(1, 0, k)]) # map (\<lambda>st. (fst st, (1, 0, fst st) # snd st)) others"
    by (simp add: r)
  finally obtain others' where "rm (Seqs (pre @ ?ys)) s (0, []) = (length s, [(2, k, length s), (1, 0, k)]) # others'"
    by (simp add: tail)
  then have "Match (Seqs (pre @ ?ys)) s = Some \<lparr>m_string = s, m_start = 0, m_end = length s,
      m_caps = [(2, k, length s), (1, 0, k)]\<rparr>"
    by (simp add: Match_def match_at_def)
  then show ?thesis using k(1) by (auto simp: grp_caps slice_def)
qed

lemma rm_star_cls_in:
  assumes "(j, d) \<in> set (rm (Star (Cls p)) s (i, c))" and "i \<le> length s"
  shows "i \<le> j \<and> j \<le> length s \<and> d = c \<and> (\<forall>x. i \<le> x \<and> x < j \<longrightarrow> p (s ! x))"
proof -
  have "i \<le> j" "j \<le> run_end p s i" "d = c"
    using assms(1) unfolding rm_star_cls [OF assms(2)] by auto
  moreover have "p (s ! x)" if "i \<le> x" "x < j" for x
    using run_end_in [of i x p s] that \<open>j \<le> _\<close> by simp
  ultimately show ?thesis using run_end_le [OF assms(2), of p] by (meson le_trans)
qed

lemma rm_Ch: "rm (Ch x) s (i, c) = (if i < length s \<and> s ! i = x then [(Suc i, c)] else [])"
  by (simp add: Ch_def)

lemma rm_Seqs_in: "\<lbrakk>x \<in> set (rm r s st); y \<in> set (rm (Seqs rs) s x)\<rbrakk> \<Longrightarrow> y \<in> set (rm (Seqs (r # rs)) s st)"
  by (auto simp: rm_Seqs_Cons)

lemma star_cls_reaches:
  assumes "s = u @ v @ w" and "list_all p v"
  shows "(length u + length v, c) \<in> set (rm (Star (Cls p)) s (length u, c))"
proof -
  have "length u + length v \<le> run_end p s (length u)"
    using assms by (simp add: run_end_def takeWhile_append2 list_all_iff)
  moreover have "length u \<le> length s" using assms(1) by simp
  ultimately show ?thesis by (force simp add: rm_star_cls simp del: rm.simps(5))
qed

end
