(* ===== verification/Tables.thy ===== *)
theory Tables
  imports PyRegex
begin

text \<open>
  The module-level tables and compiled patterns of \<open>build_support/cpplint.py\<close>: the
  categories of errors, the default filters, the standard headers, the assertion
  macros with their replacements, the alternative tokens, and the patterns compiled
  once for the module.  A Python set is the list of its elements.
\<close>

section \<open>Categories and filters\<close>

definition error_categories :: "string list" where
  "error_categories =
    [''build/class'', ''build/c++11'', ''build/c++14'', ''build/c++tr1'',
     ''build/deprecated'', ''build/endif_comment'', ''build/explicit_make_pair'',
     ''build/forward_decl'', ''build/header_guard'', ''build/include'',
     ''build/include_subdir'', ''build/include_alpha'', ''build/include_order'',
     ''build/include_what_you_use'', ''build/namespaces_literals'', ''build/namespaces'',
     ''build/printf_format'', ''build/storage_class'', ''legal/copyright'',
     ''readability/alt_tokens'', ''readability/braces'', ''readability/casting'',
     ''readability/check'', ''readability/constructors'', ''readability/fn_size'',
     ''readability/inheritance'', ''readability/multiline_comment'',
     ''readability/multiline_string'', ''readability/namespace'', ''readability/nolint'',
     ''readability/nul'', ''readability/strings'', ''readability/todo'',
     ''readability/utf8'', ''runtime/arrays'', ''runtime/casting'', ''runtime/explicit'',
     ''runtime/int'', ''runtime/init'', ''runtime/invalid_increment'',
     ''runtime/member_string_references'', ''runtime/memset'',
     ''runtime/indentation_namespace'', ''runtime/operator'', ''runtime/printf'',
     ''runtime/printf_format'', ''runtime/references'', ''runtime/string'',
     ''runtime/threadsafe_fn'', ''runtime/vlog'', ''whitespace/blank_line'',
     ''whitespace/braces'', ''whitespace/comma'', ''whitespace/comments'',
     ''whitespace/empty_conditional_body'', ''whitespace/empty_if_body'',
     ''whitespace/empty_loop_body'', ''whitespace/end_of_line'',
     ''whitespace/ending_newline'', ''whitespace/forcolon'', ''whitespace/indent'',
     ''whitespace/line_length'', ''whitespace/newline'', ''whitespace/operators'',
     ''whitespace/parens'', ''whitespace/semicolon'', ''whitespace/tab'',
     ''whitespace/todo'']"

definition legacy_error_categories :: "string list" where
  "legacy_error_categories =
    [''readability/streams'', ''readability/function'']"

definition default_filters :: "string list" where
  "default_filters =
    [''-build/include_alpha'']"

definition default_c_suppressed_categories :: "string list" where
  "default_c_suppressed_categories =
    [''readability/casting'']"

definition default_kernel_suppressed_categories :: "string list" where
  "default_kernel_suppressed_categories =
    [''whitespace/tab'']"

section \<open>Headers\<close>

definition cpp_headers :: "string list" where
  "cpp_headers =
    [''algobase.h'', ''algo.h'', ''alloc.h'', ''builtinbuf.h'', ''bvector.h'',
     ''complex.h'', ''defalloc.h'', ''deque.h'', ''editbuf.h'', ''fstream.h'',
     ''function.h'', ''hash_map'', ''hash_map.h'', ''hash_set'', ''hash_set.h'',
     ''hashtable.h'', ''heap.h'', ''indstream.h'', ''iomanip.h'', ''iostream.h'',
     ''istream.h'', ''iterator.h'', ''list.h'', ''map.h'', ''multimap.h'', ''multiset.h'',
     ''ostream.h'', ''pair.h'', ''parsestream.h'', ''pfstream.h'', ''procbuf.h'',
     ''pthread_alloc'', ''pthread_alloc.h'', ''rope'', ''rope.h'', ''ropeimpl.h'',
     ''set.h'', ''slist'', ''slist.h'', ''stack.h'', ''stdiostream.h'', ''stl_alloc.h'',
     ''stl_relops.h'', ''streambuf.h'', ''stream.h'', ''strfile.h'', ''strstream.h'',
     ''tempbuf.h'', ''tree.h'', ''type_traits.h'', ''vector.h'', ''algorithm'', ''array'',
     ''atomic'', ''bitset'', ''chrono'', ''codecvt'', ''complex'', ''condition_variable'',
     ''deque'', ''exception'', ''forward_list'', ''fstream'', ''functional'', ''future'',
     ''initializer_list'', ''iomanip'', ''ios'', ''iosfwd'', ''iostream'', ''istream'',
     ''iterator'', ''limits'', ''list'', ''locale'', ''map'', ''memory'', ''mutex'',
     ''new'', ''numeric'', ''ostream'', ''queue'', ''random'', ''ratio'', ''regex'',
     ''scoped_allocator'', ''set'', ''sstream'', ''stack'', ''stdexcept'', ''streambuf'',
     ''string'', ''strstream'', ''system_error'', ''thread'', ''tuple'', ''typeindex'',
     ''typeinfo'', ''type_traits'', ''unordered_map'', ''unordered_set'', ''utility'',
     ''valarray'', ''vector'', ''shared_mutex'', ''any'', ''charconv'', ''codecvt'',
     ''execution'', ''filesystem'', ''memory_resource'', ''optional'', ''string_view'',
     ''variant'', ''cassert'', ''ccomplex'', ''cctype'', ''cerrno'', ''cfenv'', ''cfloat'',
     ''cinttypes'', ''ciso646'', ''climits'', ''clocale'', ''cmath'', ''csetjmp'',
     ''csignal'', ''cstdalign'', ''cstdarg'', ''cstdbool'', ''cstddef'', ''cstdint'',
     ''cstdio'', ''cstdlib'', ''cstring'', ''ctgmath'', ''ctime'', ''cuchar'', ''cwchar'',
     ''cwctype'']"

text \<open>\<open>_TYPES\<close>: the alternatives between \<open>^(?:\<close> and \<open>)$\<close> (the last one is empty).\<close>

definition types_re :: re where
  "types_re = Seqs [Bol, Alts [
     Grp 1 (Seq (Lit ''char'') (Opt (Grp 2 (Alt (Lit ''16_t'') (Lit ''32_t''))))),
     Lit ''wchar_t'',
     Lit ''bool'', Lit ''short'', Lit ''int'', Lit ''long'', Lit ''signed'', Lit ''unsigned'',
     Lit ''float'', Lit ''double'',
     Grp 3 (Alts [Lit ''ptrdiff_t'', Lit ''size_t'', Lit ''max_align_t'', Lit ''nullptr_t'']),
     Grp 4 (Seqs [Opt (Lit ''u''), Lit ''int'', Opt (Grp 5 (Alt (Lit ''_fast'') (Lit ''_least''))),
       Grp 6 (Alts [Lit ''8'', Lit ''16'', Lit ''32'', Lit ''64'']), Lit ''_t'']),
     Grp 7 (Seqs [Opt (Lit ''u''), Lit ''int'', Grp 8 (Alt (Lit ''max'') (Lit ''ptr'')), Lit ''_t'']),
     Eps], Eol]"

text \<open>\<open>^(?:[^/]*[A-Z][^/]*\.h|lua\.h|lauxlib\.h|lualib\.h)$\<close>\<close>

definition third_party_headers_re :: re where
  "third_party_headers_re = Seqs [Bol, Alts [
     Seqs [Star (NoneOf ''/''), Cls is_upper_ascii, Star (NoneOf ''/''), Lit ''.h''],
     Lit ''lua.h'', Lit ''lauxlib.h'', Lit ''lualib.h''], Eol]"

text \<open>\<open>(_test|_regtest|_unittest)$\<close>\<close>

definition test_file_suffix_re :: re where
  "test_file_suffix_re =
     Seq (Grp 1 (Alts [Lit ''_test'', Lit ''_regtest'', Lit ''_unittest''])) Eol"

text \<open>\<open>^\s*$\<close>\<close>

definition empty_conditional_body_re :: re where
  "empty_conditional_body_re = Seqs [Bol, Star Space, Eol]"

section \<open>Assertion macros\<close>

definition check_macros :: "string list" where
  "check_macros = [''DCHECK'', ''CHECK'', ''EXPECT_TRUE'', ''ASSERT_TRUE'', ''EXPECT_FALSE'',
     ''ASSERT_FALSE'']"

definition check_ops :: "(string \<times> string) list" where
  "check_ops = [(''=='', ''EQ''), (''!='', ''NE''), (''>='', ''GE''), (''>'', ''GT''),
     (''<='', ''LE''), (''<'', ''LT'')]"

definition inv_check_ops :: "(string \<times> string) list" where
  "inv_check_ops = [(''=='', ''NE''), (''!='', ''EQ''), (''>='', ''LT''), (''>'', ''LE''),
     (''<='', ''GT''), (''<'', ''GE'')]"

text \<open>\<open>_CHECK_REPLACEMENT[macro][op]\<close>; \<open>None\<close> where the lookup raises \<open>KeyError\<close>.\<close>

definition check_replacement :: "string \<Rightarrow> string \<Rightarrow> string option" where
  "check_replacement macro op =
     (if macro = ''DCHECK'' then map_option (\<lambda>r. ''DCHECK_'' @ r) (map_of check_ops op)
      else if macro = ''CHECK'' then map_option (\<lambda>r. ''CHECK_'' @ r) (map_of check_ops op)
      else if macro = ''EXPECT_TRUE'' then map_option (\<lambda>r. ''EXPECT_'' @ r) (map_of check_ops op)
      else if macro = ''ASSERT_TRUE'' then map_option (\<lambda>r. ''ASSERT_'' @ r) (map_of check_ops op)
      else if macro = ''EXPECT_FALSE''
        then map_option (\<lambda>r. ''EXPECT_'' @ r) (map_of inv_check_ops op)
      else if macro = ''ASSERT_FALSE''
        then map_option (\<lambda>r. ''ASSERT_'' @ r) (map_of inv_check_ops op)
      else None)"

section \<open>Alternative tokens\<close>

definition alt_token_replacement :: "(string \<times> string) list" where
  "alt_token_replacement = [(''and'', ''&&''), (''bitor'', ''|''), (''or'', ''||''),
     (''xor'', ''^''), (''compl'', ''~''), (''bitand'', ''&''), (''and_eq'', ''&=''),
     (''or_eq'', ''|=''), (''xor_eq'', ''^=''), (''not'', ''!''), (''not_eq'', ''!='')]"

text \<open>\<open>[ =()](and|bitor|...)(?=[ (]|$)\<close>\<close>

definition alt_token_re :: re where
  "alt_token_re = Seqs [OneOf '' =()'', Grp 1 (Alts (map (Lit \<circ> fst) alt_token_replacement)),
     Look (Alt (OneOf '' ('') Eol)]"

section \<open>Inline assembly and file directives\<close>

text \<open>The states \<open>_NO_ASM\<close>, \<open>_INSIDE_ASM\<close>, \<open>_END_ASM\<close>, \<open>_BLOCK_ASM\<close>.\<close>

datatype asm_state = NO_ASM | INSIDE_ASM | END_ASM | BLOCK_ASM

text \<open>\<open>^\s*(?:asm|_asm|__asm|__asm__)(?:\s+(volatile|__volatile__))?\s*[{(]\<close>\<close>

definition match_asm_re :: re where
  "match_asm_re = Seqs [Bol, Star Space, Alts [Lit ''asm'', Lit ''_asm'', Lit ''__asm'', Lit ''__asm__''],
     Opt (Seq (Plus Space) (Grp 1 (Alt (Lit ''volatile'') (Lit ''__volatile__'')))),
     Star Space, OneOf ''{('']"

text \<open>\<open>\b(?:LINT_C_FILE|vim?:\s*.*(\s*|:)filetype=c(\s*|:|$))\<close>\<close>

definition search_c_file_re :: re where
  "search_c_file_re = Seq Wb (Alt (Lit ''LINT_C_FILE'')
     (Seqs [Lit ''vi'', Opt (Lit ''m''), Lit '':'', Star Space, Star Any,
        Grp 1 (Alt (Star Space) (Lit '':'')), Lit ''filetype=c'',
        Grp 2 (Alts [Star Space, Lit '':'', Eol])]))"

text \<open>\<open>\b(?:LINT_KERNEL_FILE)\<close>\<close>

definition search_kernel_file_re :: re where
  "search_kernel_file_re = Seq Wb (Lit ''LINT_KERNEL_FILE'')"

section \<open>Facts on the tables\<close>

text \<open>Every macro of the list has a replacement for every comparison operator.\<close>

lemma check_replacement_defined:
  "\<forall>macro \<in> set check_macros. \<forall>op \<in> set (map fst check_ops). check_replacement macro op \<noteq> None"
  by code_simp

end
