(* ===== verification/LintState.thy ===== *)
theory LintState
  imports Tables "HOL-Library.List_Lexorder" "HOL-Library.Char_ord"
begin

text \<open>
  The module-wide state of \<open>build_support/cpplint.py\<close>: the line and file suppressions
  (\<open>ParseNolintSuppressions\<close> and its companions), the class \<open>_CppLintState\<close> with the
  category filters, error counts and output, the accessors around its one instance, and
  \<open>Error\<close>, the callback every check reports to.  The locale \<open>error_sink\<close> is the
  contract of a callback; it is interpreted on \<open>Error\<close> and on the recording callback.
\<close>

section \<open>State\<close>

text \<open>\<open>_CppLintState.__init__\<close>.  A failure kept for JUnit is the tuple of the report.\<close>

record cpplint_state =
  verbose_level :: int
  error_count :: int
  filters :: "string list"
  filters_backup :: "string list"
  counting :: string
  errors_by_category :: "(string \<times> int) list"
  quiet :: bool
  output_format :: string
  junit_errors :: "string list"
  junit_failures :: "report list"

definition init_cpplint_state :: cpplint_state where
  "init_cpplint_state =
     \<lparr>verbose_level = 1, error_count = 0, filters = default_filters,
      filters_backup = default_filters, counting = ''total'', errors_by_category = [],
      quiet = False, output_format = ''emacs'', junit_errors = [], junit_failures = []\<rparr>"

text \<open>
  The global variables.  \<open>_error_suppressions\<close> maps a category (\<open>None\<close>: all) to the lines
  it is suppressed on; an absent key reads as the empty set.  What the program writes to
  \<open>sys.stdout\<close> and \<open>sys.stderr\<close> is kept as the list of the writes.
\<close>

record lint_globals =
  error_suppressions :: "string option \<Rightarrow> linenum set"
  global_suppressions :: "string \<Rightarrow> bool"
  root_flag :: "string option"
  repository_flag :: "string option"
  excludes :: "string list option"
  quiet_flag :: bool
  line_length :: int
  hpp_headers :: "string list"
  valid_extensions :: "string list"
  lint :: cpplint_state
  out :: "string list"
  err :: "string list"

definition init_globals :: lint_globals where
  "init_globals =
     \<lparr>error_suppressions = (\<lambda>_. {}), global_suppressions = (\<lambda>_. False), root_flag = None,
      repository_flag = None, excludes = None, quiet_flag = False, line_length = 80,
      hpp_headers = [], valid_extensions = [], lint = init_cpplint_state, out = [], err = []\<rparr>"

section \<open>Suppressions\<close>

text \<open>\<open>\bNOLINT(NEXTLINE)?\b(\([^)]+\))?\<close>\<close>

definition nolint_re :: re where
  "nolint_re = Seqs [Wb, Lit ''NOLINT'', Opt (Grp 1 (Lit ''NEXTLINE'')), Wb,
     Opt (Grp 2 (Seqs [Ch CHR ''('', Plus (NoneOf '')''), Ch CHR '')'']))]"

definition add_suppression :: "string option \<Rightarrow> linenum \<Rightarrow> lint_globals \<Rightarrow> lint_globals" where
  "add_suppression k l g = g\<lparr>error_suppressions :=
     (error_suppressions g)(k := insert l (error_suppressions g k))\<rparr>"

definition ParseNolintSuppressions ::
  "lint_globals handler \<Rightarrow> string \<Rightarrow> string \<Rightarrow> linenum \<Rightarrow> lint_globals \<Rightarrow> lint_globals" where
  "ParseNolintSuppressions error filename raw_line linenum g =
     (case Search nolint_re raw_line of
        None \<Rightarrow> g
      | Some matched \<Rightarrow>
          let suppressed_line = (if grp matched 1 \<noteq> [] then linenum + 1 else linenum);
              category = group matched 2
          in if category = None \<or> category = Some ''(*)''
             then add_suppression None suppressed_line g
             else let cat = the category in
               if startswith cat ''('' \<and> endswith cat '')''
               then let c = butlast (tl cat) in
                 if c \<in> set error_categories then add_suppression (Some c) suppressed_line g
                 else if c \<notin> set legacy_error_categories
                 then error (mk_report filename linenum ''readability/nolint'' 5
                        (''Unknown NOLINT error category: '' @ c)) g
                 else g
               else g)"

definition suppress_globally :: "string list \<Rightarrow> lint_globals \<Rightarrow> lint_globals" where
  "suppress_globally cats g =
     g\<lparr>global_suppressions := (\<lambda>c. c \<in> set cats \<or> global_suppressions g c)\<rparr>"

fun ProcessGlobalSuppresions :: "string list \<Rightarrow> lint_globals \<Rightarrow> lint_globals" where
  "ProcessGlobalSuppresions [] g = g"
| "ProcessGlobalSuppresions (line # lines) g =
     (let g1 = (if found search_c_file_re line
                then suppress_globally default_c_suppressed_categories g else g);
          g2 = (if found search_kernel_file_re line
                then suppress_globally default_kernel_suppressed_categories g1 else g1)
      in ProcessGlobalSuppresions lines g2)"

definition ResetNolintSuppressions :: "lint_globals \<Rightarrow> lint_globals" where
  "ResetNolintSuppressions g =
     g\<lparr>error_suppressions := (\<lambda>_. {}), global_suppressions := (\<lambda>_. False)\<rparr>"

definition IsErrorSuppressedByNolint :: "lint_globals \<Rightarrow> string \<Rightarrow> linenum \<Rightarrow> bool" where
  "IsErrorSuppressedByNolint g category linenum \<longleftrightarrow>
     global_suppressions g category \<or>
     linenum \<in> error_suppressions g (Some category) \<or>
     linenum \<in> error_suppressions g None"

section \<open>Operations of \<open>_CppLintState\<close>\<close>

definition SetOutputFormat :: "string \<Rightarrow> cpplint_state \<Rightarrow> cpplint_state" where
  "SetOutputFormat fmt s = s\<lparr>output_format := fmt\<rparr>"

definition SetQuiet :: "bool \<Rightarrow> cpplint_state \<Rightarrow> bool \<times> cpplint_state" where
  "SetQuiet q s = (quiet s, s\<lparr>quiet := q\<rparr>)"

definition SetVerboseLevel :: "int \<Rightarrow> cpplint_state \<Rightarrow> int \<times> cpplint_state" where
  "SetVerboseLevel level s = (verbose_level s, s\<lparr>verbose_level := level\<rparr>)"

definition SetCountingStyle :: "string \<Rightarrow> cpplint_state \<Rightarrow> cpplint_state" where
  "SetCountingStyle style s = s\<lparr>counting := style\<rparr>"

definition filter_ok :: "string \<Rightarrow> bool" where
  "filter_ok f \<longleftrightarrow> startswith f ''+'' \<or> startswith f ''-''"

text \<open>The appended filters and the first one that is not well-formed, if any.\<close>

definition clean_filters :: "string \<Rightarrow> string list" where
  "clean_filters fs = filter (\<lambda>f. f \<noteq> []) (map strip (str_split CHR '','' fs))"

definition AddFilters :: "string \<Rightarrow> cpplint_state \<Rightarrow> py_error + cpplint_state" where
  "AddFilters fs s =
     (let s' = s\<lparr>filters := filters s @ clean_filters fs\<rparr>
      in case find (\<lambda>f. \<not> filter_ok f) (filters s') of
           None \<Rightarrow> Inr s'
         | Some f \<Rightarrow> Inl (ValueError (''Every filter in --filters must start with + or - ('' @ f @
             '' does not)'')))"

definition SetFilters :: "string \<Rightarrow> cpplint_state \<Rightarrow> py_error + cpplint_state" where
  "SetFilters fs s = AddFilters fs (s\<lparr>filters := default_filters\<rparr>)"

definition BackupFilters :: "cpplint_state \<Rightarrow> cpplint_state" where
  "BackupFilters s = s\<lparr>filters_backup := filters s\<rparr>"

definition RestoreFilters :: "cpplint_state \<Rightarrow> cpplint_state" where
  "RestoreFilters s = s\<lparr>filters := filters_backup s\<rparr>"

definition ResetErrorCounts :: "cpplint_state \<Rightarrow> cpplint_state" where
  "ResetErrorCounts s = s\<lparr>error_count := 0, errors_by_category := []\<rparr>"

text \<open>\<open>d[k] += 1\<close> after \<open>d[k] = 0\<close> where \<open>k\<close> was absent: insertion order is kept.\<close>

fun bump :: "string \<Rightarrow> (string \<times> int) list \<Rightarrow> (string \<times> int) list" where
  "bump k [] = [(k, 1)]"
| "bump k ((k', n) # d) = (if k = k' then (k', n + 1) # d else (k', n) # bump k d)"

definition IncrementErrorCount :: "string \<Rightarrow> cpplint_state \<Rightarrow> cpplint_state" where
  "IncrementErrorCount category s =
     (let s' = s\<lparr>error_count := error_count s + 1\<rparr> in
      if counting s = ''toplevel'' \<or> counting s = ''detailed''
      then let cat = (if counting s \<noteq> ''detailed'' then hd (str_split CHR ''/'' category)
                      else category)
           in s'\<lparr>errors_by_category := bump cat (errors_by_category s)\<rparr>
      else s')"

definition PrintInfo :: "string \<Rightarrow> lint_globals \<Rightarrow> lint_globals" where
  "PrintInfo message g =
     (if \<not> quiet_flag g \<and> output_format (lint g) \<noteq> ''junit'' then g\<lparr>out := out g @ [message]\<rparr>
      else g)"

definition PrintError :: "string \<Rightarrow> lint_globals \<Rightarrow> lint_globals" where
  "PrintError message g =
     (if output_format (lint g) = ''junit''
      then g\<lparr>lint := (lint g)\<lparr>junit_errors := junit_errors (lint g) @ [message]\<rparr>\<rparr>
      else g\<lparr>err := err g @ [message]\<rparr>)"

definition PrintErrorCounts :: "lint_globals \<Rightarrow> lint_globals" where
  "PrintErrorCounts g =
     (let g1 = fold (\<lambda>(category, count). PrintInfo (''Category '' @ [CHR 0x27] @ category @ [CHR 0x27] @
                  '' errors found: '' @ int_str count @ [CHR 0x0A]))
                 (sort_key fst (errors_by_category (lint g))) g
      in if error_count (lint g1) > 0
         then PrintInfo (''Total errors found: '' @ int_str (error_count (lint g1)) @ [CHR 0x0A]) g1
         else g1)"

definition AddJUnitFailure :: "report \<Rightarrow> cpplint_state \<Rightarrow> cpplint_state" where
  "AddJUnitFailure r s = s\<lparr>junit_failures := junit_failures s @ [r]\<rparr>"

section \<open>JUnit output\<close>

text \<open>
  \<open>FormatJUnitXML\<close> builds a tree of \<open>xml.etree.ElementTree\<close> elements; the serialiser of
  that library is an argument.
\<close>

datatype xml = Elem (tag: string) (attrib: "(string \<times> string) list") (text_of: "string option")
  (children: "xml list")

fun file_order :: "report list \<Rightarrow> string list \<Rightarrow> string list" where
  "file_order [] seen = seen"
| "file_order (f # fs) seen =
     (if r_filename f \<in> set seen then file_order fs seen
      else file_order fs (seen @ [r_filename f]))"

text \<open>The line number as it is printed; \<open>no_line\<close> stands for the line \<open>None\<close>, which the check for a
  missing include passes when the file includes nothing.\<close>

definition no_line :: linenum where "no_line = -1"

definition line_str :: "linenum \<Rightarrow> string" where
  "line_str l = (if l = no_line then ''None'' else int_str l)"

definition failure_text :: "report \<Rightarrow> string" where
  "failure_text f = line_str (r_linenum f) @ '': '' @ r_message f @ '' ['' @ r_category f @
     ''] ['' @ int_str (r_confidence f) @ '']''"

definition failure_case :: "report list \<Rightarrow> string \<Rightarrow> xml" where
  "failure_case failures failed_file =
     Elem ''testcase'' [(''name'', failed_file)] None
       [Elem ''failure'' []
          (Some (str_join [CHR 0x0A]
             (map failure_text (filter (\<lambda>f. r_filename f = failed_file) failures)))) []]"

definition junit_testsuite :: "cpplint_state \<Rightarrow> xml" where
  "junit_testsuite s =
     (let num_errors = length (junit_errors s);
          num_failures = length (junit_failures s);
          attribs = (\<lambda>tests::nat. [(''name'', ''cpplint''), (''errors'', nat_str num_errors),
             (''failures'', nat_str num_failures), (''tests'', nat_str tests)])
      in if num_errors = 0 \<and> num_failures = 0
         then Elem ''testsuite'' (attribs 1) None
                [Elem ''testcase'' [(''name'', ''passed'')] None []]
         else Elem ''testsuite'' (attribs (num_errors + num_failures)) None
                ((if num_errors > 0
                  then [Elem ''testcase'' [(''name'', ''errors'')] None
                          [Elem ''error'' [] (Some (str_join [CHR 0x0A] (junit_errors s))) []]]
                  else []) @
                 map (failure_case (junit_failures s)) (file_order (junit_failures s) [])))"

definition FormatJUnitXML :: "(xml \<Rightarrow> string) \<Rightarrow> cpplint_state \<Rightarrow> string" where
  "FormatJUnitXML tostring s =
     ''<?xml version='' @ [CHR 0x22] @ ''1.0'' @ [CHR 0x22] @ '' encoding='' @ [CHR 0x22] @ ''UTF-8'' @
     [CHR 0x22] @ '' ?>'' @ [CHR 0x0A] @ tostring (junit_testsuite s)"

section \<open>The accessors of the one state\<close>

definition OutputFormat :: "lint_globals \<Rightarrow> string" where
  "OutputFormat g = output_format (lint g)"

definition SetOutputFormat_g :: "string \<Rightarrow> lint_globals \<Rightarrow> lint_globals" where
  "SetOutputFormat_g fmt g = g\<lparr>lint := SetOutputFormat fmt (lint g)\<rparr>"

definition Quiet :: "lint_globals \<Rightarrow> bool" where
  "Quiet g = quiet (lint g)"

definition SetQuiet_g :: "bool \<Rightarrow> lint_globals \<Rightarrow> bool \<times> lint_globals" where
  "SetQuiet_g q g = (case SetQuiet q (lint g) of (old, s) \<Rightarrow> (old, g\<lparr>lint := s\<rparr>))"

definition VerboseLevel :: "lint_globals \<Rightarrow> int" where
  "VerboseLevel g = verbose_level (lint g)"

definition SetVerboseLevel_g :: "int \<Rightarrow> lint_globals \<Rightarrow> int \<times> lint_globals" where
  "SetVerboseLevel_g level g =
     (case SetVerboseLevel level (lint g) of (old, s) \<Rightarrow> (old, g\<lparr>lint := s\<rparr>))"

definition SetCountingStyle_g :: "string \<Rightarrow> lint_globals \<Rightarrow> lint_globals" where
  "SetCountingStyle_g level g = g\<lparr>lint := SetCountingStyle level (lint g)\<rparr>"

definition Filters :: "lint_globals \<Rightarrow> string list" where
  "Filters g = filters (lint g)"

definition lift_state :: "(cpplint_state \<Rightarrow> py_error + cpplint_state) \<Rightarrow> lint_globals \<Rightarrow>
    py_error + lint_globals" where
  "lift_state f g = map_sum id (\<lambda>s. g\<lparr>lint := s\<rparr>) (f (lint g))"

definition SetFilters_g :: "string \<Rightarrow> lint_globals \<Rightarrow> py_error + lint_globals" where
  "SetFilters_g fs = lift_state (SetFilters fs)"

definition AddFilters_g :: "string \<Rightarrow> lint_globals \<Rightarrow> py_error + lint_globals" where
  "AddFilters_g fs = lift_state (AddFilters fs)"

definition BackupFilters_g :: "lint_globals \<Rightarrow> lint_globals" where
  "BackupFilters_g g = g\<lparr>lint := BackupFilters (lint g)\<rparr>"

definition RestoreFilters_g :: "lint_globals \<Rightarrow> lint_globals" where
  "RestoreFilters_g g = g\<lparr>lint := RestoreFilters (lint g)\<rparr>"

section \<open>\<open>_ShouldPrintError\<close> and \<open>Error\<close>\<close>

fun filter_loop :: "string \<Rightarrow> string list \<Rightarrow> bool \<Rightarrow> py_error + bool" where
  "filter_loop category [] is_filtered = Inr is_filtered"
| "filter_loop category (one_filter # fs) is_filtered =
     (if startswith one_filter ''-''
      then filter_loop category fs (if startswith category (tl one_filter) then True else is_filtered)
      else if startswith one_filter ''+''
      then filter_loop category fs (if startswith category (tl one_filter) then False else is_filtered)
      else Inl AssertionError)"

definition ShouldPrintError :: "lint_globals \<Rightarrow> string \<Rightarrow> int \<Rightarrow> linenum \<Rightarrow> py_error + bool" where
  "ShouldPrintError g category confidence linenum =
     (if IsErrorSuppressedByNolint g category linenum then Inr False
      else if confidence < verbose_level (lint g) then Inr False
      else map_sum id Not (filter_loop category (Filters g) False))"

definition vs7_text :: "report \<Rightarrow> string" where
  "vs7_text r = r_filename r @ ''('' @ line_str (r_linenum r) @ ''): error cpplint: ['' @ r_category r @
     ''] '' @ r_message r @ '' ['' @ int_str (r_confidence r) @ '']'' @ [CHR 0x0A]"

definition eclipse_text :: "report \<Rightarrow> string" where
  "eclipse_text r = r_filename r @ '':'' @ line_str (r_linenum r) @ '': warning: '' @ r_message r @
     ''  ['' @ r_category r @ ''] ['' @ int_str (r_confidence r) @ '']'' @ [CHR 0x0A]"

definition emacs_text :: "report \<Rightarrow> string" where
  "emacs_text r = r_filename r @ '':'' @ line_str (r_linenum r) @ '':  '' @ r_message r @
     ''  ['' @ r_category r @ ''] ['' @ int_str (r_confidence r) @ '']'' @ [CHR 0x0A]"

text \<open>What a format that is not JUnit writes for a report; every other format is like \<open>emacs\<close>.\<close>

definition report_text :: "string \<Rightarrow> report \<Rightarrow> string" where
  "report_text fmt =
     (if fmt = ''vs7'' then vs7_text else if fmt = ''eclipse'' then eclipse_text else emacs_text)"

definition write_error :: "report \<Rightarrow> lint_globals \<Rightarrow> lint_globals" where
  "write_error r g =
     (let g1 = g\<lparr>lint := IncrementErrorCount (r_category r) (lint g)\<rparr>;
          fmt = output_format (lint g1)
      in if fmt = ''vs7'' then PrintError (vs7_text r) g1
         else if fmt = ''eclipse'' then g1\<lparr>err := err g1 @ [eclipse_text r]\<rparr>
         else if fmt = ''junit'' then g1\<lparr>lint := AddJUnitFailure r (lint g1)\<rparr>
         else g1\<lparr>err := err g1 @ [emacs_text r]\<rparr>)"

definition Error_op :: "report \<Rightarrow> lint_globals \<Rightarrow> py_error + lint_globals" where
  "Error_op r g =
     map_sum id (\<lambda>b. if b then write_error r g else g)
       (ShouldPrintError g (r_category r) (r_confidence r) (r_linenum r))"

text \<open>
  The callback as the checks use it.  The only exception \<open>Error_op\<close> knows is the failed
  assertion on an ill-formed filter, which \<open>filters_ok\<close> excludes (\<open>Error_op_total\<close>).
\<close>

definition Error :: "lint_globals handler" where
  "Error r g = (case Error_op r g of Inr g' \<Rightarrow> g' | Inl _ \<Rightarrow> g)"

definition accepts :: "lint_globals \<Rightarrow> report \<Rightarrow> bool" where
  "accepts g r \<longleftrightarrow> ShouldPrintError g (r_category r) (r_confidence r) (r_linenum r) = Inr True"

definition filters_ok :: "lint_globals \<Rightarrow> bool" where
  "filters_ok g \<longleftrightarrow> list_all filter_ok (Filters g)"

section \<open>The contract of an error callback\<close>

text \<open>
  A callback accepts a report or ignores it; what it accepts does not depend on the reports
  it has handled, and it counts what it accepts.  A log is a callback that keeps the
  accepted reports in order.
\<close>

locale report_sink =
  fixes handle :: "report \<Rightarrow> 's \<Rightarrow> 's"
    and accept :: "'s \<Rightarrow> report \<Rightarrow> bool"
    and tally :: "'s \<Rightarrow> int"
    and inv :: "'s \<Rightarrow> bool"
  assumes inv_handle: "inv s \<Longrightarrow> inv (handle r s)"
    and accept_handle: "inv s \<Longrightarrow> accept (handle r s) = accept s"
    and tally_handle: "inv s \<Longrightarrow> tally (handle r s) = tally s + (if accept s r then 1 else 0)"
    and reject_handle: "inv s \<Longrightarrow> \<not> accept s r \<Longrightarrow> handle r s = s"
begin

lemma emit_inv: "inv s \<Longrightarrow> inv (emit handle rs s)"
  by (induction rs arbitrary: s) (simp_all add: inv_handle)

lemma emit_accept: "inv s \<Longrightarrow> accept (emit handle rs s) = accept s"
  by (induction rs arbitrary: s) (simp_all add: inv_handle accept_handle)

lemma emit_tally:
  "inv s \<Longrightarrow> tally (emit handle rs s) = tally s + int (length (filter (accept s) rs))"
  by (induction rs arbitrary: s) (simp_all add: inv_handle accept_handle tally_handle)

lemma emit_filter: "inv s \<Longrightarrow> emit handle rs s = emit handle (filter (accept s) rs) s"
  by (induction rs arbitrary: s) (simp_all add: inv_handle accept_handle reject_handle)

end

locale report_log = report_sink handle accept tally inv
  for handle :: "report \<Rightarrow> 's \<Rightarrow> 's" and accept tally inv +
  fixes log :: "'s \<Rightarrow> report list"
  assumes log_handle: "inv s \<Longrightarrow> log (handle r s) = log s @ (if accept s r then [r] else [])"
begin

lemma emit_log: "inv s \<Longrightarrow> log (emit handle rs s) = log s @ filter (accept s) rs"
  by (induction rs arbitrary: s) (simp_all add: inv_handle accept_handle log_handle)

end

interpretation recorder: report_log collect "\<lambda>_ _. True" "\<lambda>rs. int (length rs)" "\<lambda>_. True" "\<lambda>rs. rs"
  by unfold_locales (auto simp: collect_def)

section \<open>The filters decide by the last match\<close>

definition last_match :: "string list \<Rightarrow> string \<Rightarrow> string option" where
  "last_match fs category = find (\<lambda>f. startswith category (tl f)) (rev fs)"

definition filtered_out :: "string list \<Rightarrow> string \<Rightarrow> bool" where
  "filtered_out fs category =
     (case last_match fs category of None \<Rightarrow> False | Some f \<Rightarrow> startswith f ''-'')"

lemma filter_ok_cases:
  assumes "filter_ok f"
  obtains t where "f = CHR ''+'' # t" | t where "f = CHR ''-'' # t"
  using assms by (cases f) (auto simp: filter_ok_def)

lemma find_append: "find P (xs @ ys) = (case find P xs of None \<Rightarrow> find P ys | Some x \<Rightarrow> Some x)"
  by (induction xs) auto

lemma filter_loop_last:
  "list_all filter_ok fs \<Longrightarrow> filter_loop category fs b =
     Inr (case last_match fs category of None \<Rightarrow> b | Some f \<Rightarrow> startswith f ''-'')"
proof (induction fs arbitrary: b)
  case Nil
  show ?case by (simp add: last_match_def)
next
  case (Cons f fs)
  from Cons.prems have "filter_ok f" by simp
  then show ?case
    by (cases rule: filter_ok_cases)
      (use Cons in \<open>auto simp: last_match_def find_append split: option.splits\<close>)
qed

lemma ShouldPrintError_eq:
  assumes "filters_ok g"
  shows "ShouldPrintError g category confidence linenum =
     Inr (\<not> IsErrorSuppressedByNolint g category linenum \<and> verbose_level (lint g) \<le> confidence \<and>
          \<not> filtered_out (Filters g) category)"
  using assms filter_loop_last [of "Filters g" category False]
  by (auto simp: ShouldPrintError_def filters_ok_def filtered_out_def split: option.splits)

lemma Error_op_total:
  "filters_ok g \<Longrightarrow> Error_op r g = Inr (Error r g)"
  by (simp add: Error_def Error_op_def ShouldPrintError_eq)

lemma Error_eq: "filters_ok g \<Longrightarrow> Error r g = (if accepts g r then write_error r g else g)"
  by (simp add: Error_def Error_op_def accepts_def ShouldPrintError_eq)

section \<open>What \<open>Error\<close> leaves alone\<close>

lemma IncrementErrorCount_frame [simp]:
  "filters (IncrementErrorCount c s) = filters s"
  "verbose_level (IncrementErrorCount c s) = verbose_level s"
  "error_count (IncrementErrorCount c s) = error_count s + 1"
  "junit_failures (IncrementErrorCount c s) = junit_failures s"
  "junit_errors (IncrementErrorCount c s) = junit_errors s"
  "output_format (IncrementErrorCount c s) = output_format s"
  "counting (IncrementErrorCount c s) = counting s"
  "filters_backup (IncrementErrorCount c s) = filters_backup s"
  "quiet (IncrementErrorCount c s) = quiet s"
  by (simp_all add: IncrementErrorCount_def Let_def)

lemma write_error_frame [simp]:
  "filters (lint (write_error r g)) = filters (lint g)"
  "verbose_level (lint (write_error r g)) = verbose_level (lint g)"
  "error_count (lint (write_error r g)) = error_count (lint g) + 1"
  "output_format (lint (write_error r g)) = output_format (lint g)"
  "counting (lint (write_error r g)) = counting (lint g)"
  "errors_by_category (lint (write_error r g)) =
     errors_by_category (IncrementErrorCount (r_category r) (lint g))"
  "error_suppressions (write_error r g) = error_suppressions g"
  "global_suppressions (write_error r g) = global_suppressions g"
  by (simp_all add: write_error_def Let_def PrintError_def AddJUnitFailure_def)

lemma write_error_junit:
  "output_format (lint g) = ''junit'' \<Longrightarrow>
   junit_failures (lint (write_error r g)) = junit_failures (lint g) @ [r]"
  by (simp add: write_error_def Let_def AddJUnitFailure_def)

lemma write_error_junit_err: "output_format (lint g) = ''junit'' \<Longrightarrow> err (write_error r g) = err g"
  by (simp add: write_error_def Let_def)

lemma write_error_text:
  "output_format (lint g) \<noteq> ''junit'' \<Longrightarrow>
   err (write_error r g) = err g @ [report_text (output_format (lint g)) r] \<and>
   junit_failures (lint (write_error r g)) = junit_failures (lint g)"
  by (simp add: write_error_def Let_def PrintError_def report_text_def)

lemma write_error_junit_errors: "junit_errors (lint (write_error r g)) = junit_errors (lint g)"
  by (simp add: write_error_def Let_def PrintError_def AddJUnitFailure_def)

lemma write_error_accepts: "accepts (write_error r g) = accepts g"
  by (simp add: accepts_def ShouldPrintError_def IsErrorSuppressedByNolint_def Filters_def
    fun_eq_iff)

lemma filters_ok_write_error [simp]: "filters_ok (write_error r g) = filters_ok g"
  by (simp add: filters_ok_def Filters_def)

lemma filters_ok_Error [simp]: "filters_ok g \<Longrightarrow> filters_ok (Error r g)"
  by (simp add: Error_eq)

interpretation printer: report_sink Error accepts "\<lambda>g. error_count (lint g)" filters_ok
  by unfold_locales (simp_all add: Error_eq write_error_accepts)

interpretation junit: report_log Error accepts "\<lambda>g. error_count (lint g)"
  "\<lambda>g. filters_ok g \<and> output_format (lint g) = ''junit''" "\<lambda>g. junit_failures (lint g)"
  by unfold_locales (simp_all add: Error_eq write_error_accepts write_error_junit)

section \<open>Counting per category\<close>

text \<open>The key \<open>IncrementErrorCount\<close> counts a category under, and the count of a key.\<close>

definition count_key :: "string \<Rightarrow> string \<Rightarrow> string" where
  "count_key style category = (if style \<noteq> ''detailed'' then hd (str_split CHR ''/'' category) else category)"

definition count_of :: "(string \<times> int) list \<Rightarrow> string \<Rightarrow> int" where
  "count_of d c = (case map_of d c of None \<Rightarrow> 0 | Some n \<Rightarrow> n)"

lemma count_of_bump: "count_of (bump k d) c = count_of d c + (if c = k then 1 else 0)"
  by (induction k d rule: bump.induct) (auto simp: count_of_def)

lemma sum_bump: "sum_list (map snd (bump k d)) = sum_list (map snd d) + 1"
  by (induction k d rule: bump.induct) auto

lemma emit_Error_counts:
  assumes "filters_ok g" and "counting (lint g) \<in> {''toplevel'', ''detailed''}"
  shows "count_of (errors_by_category (lint (emit Error rs g))) c =
      count_of (errors_by_category (lint g)) c +
      int (length (filter (\<lambda>r. accepts g r \<and> count_key (counting (lint g)) (r_category r) = c) rs)) \<and>
     sum_list (map snd (errors_by_category (lint (emit Error rs g)))) =
      sum_list (map snd (errors_by_category (lint g))) + int (length (filter (accepts g) rs))"
  using assms
proof (induction rs arbitrary: g)
  case (Cons r rs)
  show ?case
  proof (cases "accepts g r")
    case True
    then have E: "Error r g = write_error r g" using Cons.prems by (simp add: Error_eq)
    have "errors_by_category (lint (write_error r g)) =
        bump (count_key (counting (lint g)) (r_category r)) (errors_by_category (lint g))"
      using Cons.prems(2) by (auto simp: IncrementErrorCount_def count_key_def Let_def)
    with Cons.IH [of "write_error r g"] Cons.prems True show ?thesis
      by (simp add: E write_error_accepts count_of_bump sum_bump)
  next
    case False
    then have E: "Error r g = g" using Cons.prems by (simp add: Error_eq)
    from False have "filter (\<lambda>r. accepts g r \<and> count_key (counting (lint g)) (r_category r) = c) (r # rs)
        = filter (\<lambda>r. accepts g r \<and> count_key (counting (lint g)) (r_category r) = c) rs" by simp
    with Cons.IH [OF Cons.prems] False show ?thesis by (simp add: E)
  qed
qed simp

lemma emit_Error_no_counts:
  "\<lbrakk>filters_ok g; counting (lint g) \<notin> {''toplevel'', ''detailed''}\<rbrakk> \<Longrightarrow>
   errors_by_category (lint (emit Error rs g)) = errors_by_category (lint g)"
proof (induction rs arbitrary: g)
  case (Cons r rs)
  have "errors_by_category (lint (write_error r g)) = errors_by_category (lint g)"
    using Cons.prems by (simp add: IncrementErrorCount_def Let_def)
  with Cons show ?case by (simp add: Error_eq)
qed simp

text \<open>C5: After the error statistics are reset, whatever reports the checks make, the
  total is the number of reports that \<open>_ShouldPrintError\<close> accepts, in every counting style.  With
  \<open>--counting=toplevel\<close> or \<open>detailed\<close> the counts per category add up to the total, and each count is the
  number of accepted reports of its key (the category, or its part before the slash with
  \<open>toplevel\<close>); with the default style there are no counts per category.\<close>

theorem error_counts_agree:
  assumes ok: "filters_ok g"
  shows "let s = lint (emit Error rs (g\<lparr>lint := ResetErrorCounts (lint g)\<rparr>)) in
     error_count s = int (length (filter (accepts g) rs)) \<and>
     (if counting (lint g) \<in> {''toplevel'', ''detailed''}
      then sum_list (map snd (errors_by_category s)) = error_count s \<and>
        (\<forall>c. count_of (errors_by_category s) c =
           int (length (filter (\<lambda>r. accepts g r \<and> count_key (counting (lint g)) (r_category r) = c) rs)))
      else errors_by_category s = [])"
proof -
  let ?g = "g\<lparr>lint := ResetErrorCounts (lint g)\<rparr>"
  have ok': "filters_ok ?g" using ok by (simp add: filters_ok_def Filters_def ResetErrorCounts_def)
  have acc: "accepts ?g = accepts g"
    by (simp add: accepts_def ShouldPrintError_def IsErrorSuppressedByNolint_def Filters_def
      ResetErrorCounts_def fun_eq_iff)
  have total: "error_count (lint (emit Error rs ?g)) = int (length (filter (accepts g) rs))"
    using printer.emit_tally [OF ok', of rs] acc by (simp add: ResetErrorCounts_def)
  show ?thesis
  proof (cases "counting (lint g) \<in> {''toplevel'', ''detailed''}")
    case True
    then have "counting (lint ?g) \<in> {''toplevel'', ''detailed''}" by (simp add: ResetErrorCounts_def)
    from emit_Error_counts [OF ok' this, of rs] total acc True show ?thesis
      by (simp add: ResetErrorCounts_def count_of_def)
  next
    case False
    then have "counting (lint ?g) \<notin> {''toplevel'', ''detailed''}" by (simp add: ResetErrorCounts_def)
    from emit_Error_no_counts [OF ok' this, of rs] total False show ?thesis
      by (simp add: ResetErrorCounts_def Let_def)
  qed
qed

definition sample_reports :: "report list" where
  "sample_reports = [mk_report ''a.h'' 1 ''build/include'' 4 ''m'',
     mk_report ''a.h'' 2 ''build/include_alpha'' 4 ''m'', mk_report ''a.h'' 3 ''runtime/int'' 4 ''m'']"

lemma error_counts_agree_witness:
  "error_count (lint (emit Error sample_reports (init_globals\<lparr>lint := ResetErrorCounts (lint init_globals)\<rparr>))) = 2 \<and>
   (let g = init_globals\<lparr>lint := SetCountingStyle ''toplevel'' init_cpplint_state\<rparr> in
    count_of (errors_by_category (lint (emit Error sample_reports (g\<lparr>lint := ResetErrorCounts (lint g)\<rparr>)))) ''build'' = 1)"
proof -
  let ?g = "init_globals\<lparr>lint := SetCountingStyle ''toplevel'' init_cpplint_state\<rparr>"
  have ok: "filters_ok ?g" "filters_ok init_globals" by code_simp+
  have style: "counting (lint ?g) \<in> {''toplevel'', ''detailed''}" by code_simp
  have n: "length (filter (accepts init_globals) sample_reports) = 2"
    "length (filter (\<lambda>r. accepts ?g r \<and> count_key (counting (lint ?g)) (r_category r) = ''build'') sample_reports) = 1"
    by code_simp+
  show ?thesis
    using error_counts_agree [OF ok(1), of sample_reports] error_counts_agree [OF ok(2), of sample_reports] n style
    by (simp add: Let_def)
qed

text \<open>C18: Once a \<open>--filter\<close> flag has been accepted, \<open>_ShouldPrintError\<close> never runs into its
  assertion, and it accepts a report exactly when no suppression covers it, its confidence
  reaches the verbosity level, and the last filter (of the default ones followed by those
  of the flag) whose text is a prefix of the category, if there is one, is a \<open>+\<close> filter.  \<open>Error\<close> does
  nothing with any other report; an accepted one it counts, and either writes its text in the output
  format to the end of \<open>stderr\<close> or, with JUnit, records it.\<close>

theorem printed_iff_last_filter:
  assumes "SetFilters_g flag g = Inr g'"
  shows "let printed = (\<not> IsErrorSuppressedByNolint g (r_category r) (r_linenum r) \<and>
           verbose_level (lint g) \<le> r_confidence r \<and>
           (case find (\<lambda>f. startswith (r_category r) (tl f)) (rev (default_filters @ clean_filters flag)) of
              None \<Rightarrow> True | Some f \<Rightarrow> startswith f ''+'')) in
     ShouldPrintError g' (r_category r) (r_confidence r) (r_linenum r) = Inr printed \<and>
     (if \<not> printed then Error r g' = g'
      else error_count (lint (Error r g')) = error_count (lint g') + 1 \<and>
        (if output_format (lint g) = ''junit''
         then err (Error r g') = err g' \<and> junit_failures (lint (Error r g')) = junit_failures (lint g') @ [r]
         else err (Error r g') = err g' @ [report_text (output_format (lint g)) r] \<and>
           junit_failures (lint (Error r g')) = junit_failures (lint g')))"
proof -
  have filt: "Filters g' = default_filters @ clean_filters flag" and ok: "filters_ok g'"
    and same: "IsErrorSuppressedByNolint g' = IsErrorSuppressedByNolint g"
      "verbose_level (lint g') = verbose_level (lint g)" "output_format (lint g') = output_format (lint g)"
    using assms
    by (auto simp: SetFilters_g_def lift_state_def SetFilters_def AddFilters_def Let_def Filters_def
      filters_ok_def find_None_iff list_all_iff IsErrorSuppressedByNolint_def fun_eq_iff
      split: option.splits)
  have "(case find P (rev fs) of None \<Rightarrow> False | Some f \<Rightarrow> startswith f ''-'') =
        (\<not> (case find P (rev fs) of None \<Rightarrow> True | Some f \<Rightarrow> startswith f ''+''))"
    if "list_all filter_ok fs" for P and fs :: "string list"
  proof (cases "find P (rev fs)")
    case (Some f)
    then have "filter_ok f" using that by (auto simp: find_Some_iff list_all_iff) (metis nth_mem set_rev length_rev)
    then show ?thesis using Some by (cases rule: filter_ok_cases) simp_all
  qed simp
  from this [of "default_filters @ clean_filters flag" "\<lambda>f. startswith (r_category r) (tl f)"] ok filt same
  have "ShouldPrintError g' (r_category r) (r_confidence r) (r_linenum r) =
      Inr (\<not> IsErrorSuppressedByNolint g (r_category r) (r_linenum r) \<and> verbose_level (lint g) \<le> r_confidence r \<and>
        (case find (\<lambda>f. startswith (r_category r) (tl f)) (rev (default_filters @ clean_filters flag)) of
           None \<Rightarrow> True | Some f \<Rightarrow> startswith f ''+''))"
    by (simp add: ShouldPrintError_eq [OF ok] filtered_out_def last_match_def filters_ok_def)
  then show ?thesis
    using write_error_junit [of g' r] write_error_junit_err [of g' r] write_error_text [of g' r] same(3)
    by (simp add: Let_def Error_eq [OF ok] accepts_def)
qed

lemma printed_iff_last_filter_witness:
  "\<exists>g'. SetFilters_g ''-whitespace,+whitespace/braces'' init_globals = Inr g' \<and>
     err (Error (mk_report ''a.h'' 3 ''whitespace/braces'' 5 ''m'') g') =
       err g' @ [''a.h:3:  m  [whitespace/braces] [5]'' @ [CHR 0x0A]] \<and>
     Error (mk_report ''a.h'' 3 ''whitespace/tab'' 5 ''m'') g' = g'"
proof -
  let ?f = "''-whitespace,+whitespace/braces''"
  let ?g = "init_globals\<lparr>lint := init_cpplint_state\<lparr>filters :=
     default_filters @ [''-whitespace'', ''+whitespace/braces'']\<rparr>\<rparr>"
  have set: "SetFilters_g ?f init_globals = Inr ?g"
    by (simp add: SetFilters_g_def lift_state_def SetFilters_def AddFilters_def clean_filters_def
      strip_def lstrip_def rstrip_def is_space_def filter_ok_def default_filters_def init_globals_def)
  have cf: "clean_filters ?f = [''-whitespace'', ''+whitespace/braces'']" by code_simp
  let ?r = "mk_report ''a.h'' 3 ''whitespace/braces'' 5 ''m''"
  let ?r' = "mk_report ''a.h'' 3 ''whitespace/tab'' 5 ''m''"
  have t: "report_text (output_format (lint init_globals)) ?r = ''a.h:3:  m  [whitespace/braces] [5]'' @ [CHR 0x0A]"
    "output_format (lint init_globals) \<noteq> ''junit''" by code_simp+
  note p = printed_iff_last_filter [OF set, unfolded cf]
  have "err (Error ?r ?g) = err ?g @ [''a.h:3:  m  [whitespace/braces] [5]'' @ [CHR 0x0A]]"
    using p [of ?r] t by (simp add: IsErrorSuppressedByNolint_def mk_report_def default_filters_def Let_def
        init_globals_def init_cpplint_state_def)
  moreover have "Error ?r' ?g = ?g"
    using p [of ?r'] by (simp add: IsErrorSuppressedByNolint_def mk_report_def default_filters_def Let_def)
  ultimately show ?thesis using set by blast
qed

section \<open>NOLINT comments\<close>

lemma error_categories_shape:
  "\<forall>c \<in> set error_categories. c \<noteq> [] \<and> c \<noteq> ''*'' \<and> CHR '')'' \<notin> set c"
  by code_simp

lemma nolint_search:
  assumes pre: "CHR ''N'' \<notin> set pre" "pre = [] \<or> \<not> is_word (last pre)"
    and cat: "cat \<noteq> []" "CHR '')'' \<notin> set cat"
  shows "\<exists>m. Search nolint_re (pre @ ''NOLINT('' @ cat @ '')'' @ post) = Some m \<and>
    group m 1 = None \<and> group m 2 = Some (CHR ''('' # cat @ '')'')"
proof -
  define s where "s = pre @ ''NOLINT('' @ cat @ '')'' @ post"
  define k where "k = length pre"
  have len: "length s = k + length cat + 8 + length post" by (simp add: s_def k_def)
  have nth: "s ! (k + 0) = CHR ''N''" "s ! (k + 5) = CHR ''T''" "s ! (k + 6) = CHR ''(''"
    "s ! (k + 7) = hd cat"
    using cat by (simp_all add: s_def k_def nth_append hd_conv_nth)
  have d: "drop k s = ''NOLINT('' @ cat @ '')'' @ post" "drop (k + 6) s = ''('' @ cat @ '')'' @ post"
    by (simp_all add: s_def k_def)
  have close: "s ! (k + 7 + length cat) = CHR '')''"
    by (simp add: s_def k_def nth_append)
  have none: "match_at nolint_re s j = None" if "j < k" for j
  proof -
    have "drop j s = drop j pre @ ''NOLINT('' @ cat @ '')'' @ post"
      using that by (simp add: s_def k_def)
    moreover have "pre ! j \<in> set pre" using that by (simp add: k_def)
    then have "hd (drop j pre) \<noteq> CHR ''N''" "drop j pre \<noteq> []"
      using that pre(1) by (auto simp: k_def hd_drop_conv_nth simp del: nth_mem)
    ultimately have "\<not> startswith (drop j s) ''NOLINT''"
      by (cases "drop j pre") auto
    then show ?thesis
      by (auto simp: match_at_None nolint_re_def rm_Seqs_Cons rm_Lit)
  qed
  have b1: "at_boundary s k"
  proof -
    have "is_word (CHR ''N'')" by (simp add: is_word_def is_upper_ascii_def)
    moreover have "pre \<noteq> [] \<Longrightarrow> s ! (k - 1) = last pre"
      by (simp add: s_def k_def nth_append last_conv_nth)
    ultimately show ?thesis
      using pre(2) len nth(1) by (auto simp: at_boundary_def word_at_def k_def)
  qed
  have b2: "at_boundary s (k + 6)"
  proof -
    have "is_word (CHR ''T'')" "\<not> is_word (CHR ''('')"
      by (simp_all add: is_word_def is_upper_ascii_def is_lower_ascii_def is_digit_def)
    moreover have "k + 6 - 1 = k + 5" by simp
    ultimately show ?thesis using len nth(2,3)
      by (simp only: at_boundary_def word_at_def) simp
  qed
  have run: "run_end (\<lambda>x. x \<noteq> CHR '')'') s (Suc (k + 7)) = k + 7 + length cat"
  proof -
    obtain c0 cs where c: "cat = c0 # cs" using cat(1) by (cases cat) auto
    then have "list_all (\<lambda>x. x \<noteq> CHR '')'') cs" using cat(2) by (auto simp: list_all_iff)
    from run_end_append [OF this, of "'')'' @ post" "pre @ ''NOLINT('' @ [c0]"]
    show ?thesis by (simp add: s_def k_def c eval_nat_numeral)
  qed
  have cls: "NoneOf '')'' = Cls (\<lambda>x. x \<noteq> CHR '')'')" by (simp add: NoneOf_def)
  have body: "rm (Seqs [Ch CHR ''('', Plus (NoneOf '')''), Ch CHR '')'']) s (k + 6, []) =
      [(k + 8 + length cat, [])]"
  proof -
    let ?p = "\<lambda>x. x \<noteq> CHR '')''"
    have "rm (Seqs [Ch CHR ''('', Plus (Cls ?p), Ch CHR '')'']) s (k + 6, []) =
        rm (Seqs [Plus (Cls ?p), Ch CHR '')'']) s (k + 7, [])"
      using len nth(3) by (subst rm_Seqs_Cons) (simp add: Ch_def add.commute [of k] del: Seqs.simps)
    also have "\<dots> = rm (Seqs [Ch CHR '')'']) s (run_end ?p s (Suc (k + 7)), [])"
      using len nth(4) hd_in_set [OF cat(1)] cat(2) run_end_in [of "Suc (k + 7)" _ ?p s]
      by (subst rm_Seqs_plus_cls) (auto simp: Ch_def)
    also have "\<dots> = rm (Seqs [Ch CHR '')'']) s (k + 7 + length cat, [])" by (simp only: run)
    also have "\<dots> = [(k + 8 + length cat, [])]" using len close by (simp add: Ch_def)
    finally show ?thesis by (simp only: cls)
  qed
  let ?g2 = "Grp 2 (Seqs [Ch CHR ''('', Plus (NoneOf '')''), Ch CHR '')''])"
  have lit: "rm (Lit ''NOLINT'') s (k, []) = [(k + 6, [])]"
    unfolding rm_Lit d by simp
  have wb: "rm Wb s (k, []) = [(k, [])]" "rm Wb s (k + 6, []) = [(k + 6, [])]"
    using b1 b2 by simp_all
  have next_none: "rm (Opt (Grp 1 (Lit ''NEXTLINE''))) s (k + 6, []) = [(k + 6, [])]"
    by (simp add: rm_Opt rm_Lit d)
  have "rm nolint_re s (k, []) = rm (Seqs [Opt ?g2]) s (k + 6, [])"
    unfolding nolint_re_def rm_Seqs_step [OF wb(1)] rm_Seqs_step [OF lit]
      rm_Seqs_step [OF next_none] rm_Seqs_step [OF wb(2)] by (rule refl)
  then have "rm nolint_re s (k, []) =
      [(k + 8 + length cat, [(2, k + 6, k + 8 + length cat)]), (k + 6, [])]"
    by (simp add: rm_Opt body)
  then obtain m where m: "match_at nolint_re s k = Some m" "m_caps m = [(2, k + 6, k + 8 + length cat)]"
    "m_string m = s"
    by (auto simp: match_at_def split: list.splits)
  have "Search nolint_re s = Some m"
    by (rule Search_first [OF none _ m(1)]) (simp_all add: len)
  moreover have "group m 1 = None" using m(2) by (simp add: group_def)
  moreover have "group m 2 = Some (CHR ''('' # cat @ '')'')"
    using m(2,3) by (simp add: group_def slice_def d)
  ultimately show ?thesis by (auto simp: s_def)
qed

text \<open>C32: A comment \<open>NOLINT(category)\<close> with a known category, that has no letter \<open>N\<close> before it on its
  line (so that it is the first such comment) and follows no word character,
  suppresses exactly that category on exactly that line: every other suppression is as it
  was before the line was parsed.\<close>

theorem nolint_category_suppresses:
  assumes "CHR ''N'' \<notin> set pre" and "pre = [] \<or> \<not> is_word (last pre)"
    and "cat \<in> set error_categories"
  shows "IsErrorSuppressedByNolint
      (ParseNolintSuppressions h f (pre @ ''NOLINT('' @ cat @ '')'' @ post) l g) c l' \<longleftrightarrow>
    IsErrorSuppressedByNolint g c l' \<or> (c = cat \<and> l' = l)"
proof -
  have shape: "cat \<noteq> []" "cat \<noteq> ''*''" "CHR '')'' \<notin> set cat"
    using assms(3) error_categories_shape by auto
  obtain m where m: "Search nolint_re (pre @ ''NOLINT('' @ cat @ '')'' @ post) = Some m"
    "group m 1 = None" "group m 2 = Some (CHR ''('' # cat @ '')'')"
    using nolint_search [OF assms(1,2) shape(1,3)] by blast
  have "ParseNolintSuppressions h f (pre @ ''NOLINT('' @ cat @ '')'' @ post) l g
      = add_suppression (Some cat) l g"
    using assms(3) shape(1,2) m
    by (auto simp: ParseNolintSuppressions_def grp_def endswith_iff append_eq_Cons_conv
       butlast_append Cons_eq_append_conv)
  then show ?thesis
    by (auto simp: IsErrorSuppressedByNolint_def add_suppression_def)
qed

theorem nolint_category_suppresses_witness:
  "IsErrorSuppressedByNolint
      (ParseNolintSuppressions Error ''a.h'' ''int x; // NOLINT(runtime/int)'' 7 init_globals)
      ''runtime/int'' 7"
  using nolint_category_suppresses [of "''int x; // ''" "''runtime/int''" Error "''a.h''" "[]" 7
    init_globals "''runtime/int''" 7]
  by (simp add: is_word_def is_digit_def is_upper_ascii_def is_lower_ascii_def error_categories_def)

section \<open>JUnit reports\<close>

lemma file_order_spec:
  "distinct seen \<Longrightarrow> distinct (file_order fs seen) \<and>
     set (file_order fs seen) = set seen \<union> r_filename ` set fs"
  by (induction fs seen rule: file_order.induct) auto

lemma emit_Error_junit_errors:
  "filters_ok g \<Longrightarrow> output_format (lint g) = ''junit'' \<Longrightarrow>
   junit_errors (lint (emit Error rs g)) = junit_errors (lint g)"
proof (induction rs arbitrary: g)
  case (Cons r rs)
  have "junit_errors (lint (write_error r g)) = junit_errors (lint g)"
    using Cons.prems by (simp add: write_error_def Let_def AddJUnitFailure_def)
  with Cons show ?case by (simp add: Error_eq)
qed simp

text \<open>The failures of a file, and the test case that has to tell of them.\<close>

definition failures_of :: "report list \<Rightarrow> string \<Rightarrow> report list" where
  "failures_of acc f = filter (\<lambda>r. r_filename r = f) acc"

definition told_failure :: "report \<Rightarrow> string" where
  "told_failure r = line_str (r_linenum r) @ '': '' @ r_message r @ '' ['' @ r_category r @ ''] ['' @
     int_str (r_confidence r) @ '']''"

lemma count_failures_of: "count_list (failures_of acc f) r = (if r_filename r = f then count_list acc r else 0)"
  by (induction acc) (auto simp: failures_of_def)

lemma failures_of_once:
  assumes "distinct files" and "r_filename ` set acc \<subseteq> set files"
  shows "count_list (concat (map (failures_of acc) files)) r = count_list acc r"
proof -
  have "count_list (concat (map (failures_of acc) files)) r =
      (if r_filename r \<in> set files then count_list acc r else 0)"
    using assms(1) by (induction files) (auto simp: count_failures_of)
  with assms(2) show ?thesis by (auto simp: count_list_0_iff)
qed

text \<open>C30: With \<open>--output=junit\<close>, the test suite built after any sequence of reports states the
  number of accepted reports as its failures, and has one test case per file with an
  accepted report.  The case of a file has one failure, whose text joins by newlines one piece for each accepted report
  of that file and of no other, in their order, with line, message, category and confidence; over all cases each
  accepted report is told as often as it was made.  With no accepted report there is one case, \<open>passed\<close>.\<close>

theorem junit_suite_reports_all:
  assumes "filters_ok g" and "output_format (lint g) = ''junit''"
    and "junit_failures (lint g) = []" and "junit_errors (lint g) = []"
  shows "let acc = filter (accepts g) rs; suite = junit_testsuite (lint (emit Error rs g)) in
     map_of (attrib suite) ''failures'' = Some (nat_str (length acc)) \<and>
     (if acc = [] then children suite = [Elem ''testcase'' [(''name'', ''passed'')] None []]
      else \<exists>files. distinct files \<and> set files = r_filename ` set acc \<and>
        children suite = map (\<lambda>f. Elem ''testcase'' [(''name'', f)] None
          [Elem ''failure'' [] (Some (str_join [CHR 0x0A] (map told_failure (failures_of acc f)))) []]) files \<and>
        (\<forall>r. count_list (concat (map (failures_of acc) files)) r = count_list acc r))"
proof -
  let ?acc = "filter (accepts g) rs"
  have f: "junit_failures (lint (emit Error rs g)) = ?acc"
    using junit.emit_log [of g rs] assms by simp
  have e: "junit_errors (lint (emit Error rs g)) = []"
    using emit_Error_junit_errors [of g rs] assms by simp
  have files: "distinct (file_order ?acc [])" "set (file_order ?acc []) = r_filename ` set ?acc"
    using file_order_spec [of "[]" ?acc] by simp_all
  have t: "failure_text = told_failure" by (simp add: fun_eq_iff failure_text_def told_failure_def)
  have "failure_case ?acc = (\<lambda>f. Elem ''testcase'' [(''name'', f)] None
      [Elem ''failure'' [] (Some (str_join [CHR 0x0A] (map told_failure (failures_of ?acc f)))) []])"
    unfolding t [symmetric] by (simp add: fun_eq_iff failure_case_def failures_of_def)
  with f e files failures_of_once [OF files(1)] show ?thesis
    by (cases "?acc = []") (auto simp: junit_testsuite_def Let_def intro!: exI [of _ "file_order ?acc []"])
qed

lemma junit_suite_reports_all_witness:
  "let g = init_globals\<lparr>lint := SetOutputFormat ''junit'' init_cpplint_state\<rparr>
   in map_of (attrib (junit_testsuite (lint (emit Error sample_reports g)))) ''failures'' =
     Some ''2''"
proof -
  let ?g = "init_globals\<lparr>lint := SetOutputFormat ''junit'' init_cpplint_state\<rparr>"
  have pre: "filters_ok ?g" "output_format (lint ?g) = ''junit''" "junit_failures (lint ?g) = []"
    "junit_errors (lint ?g) = []"
    by code_simp+
  have two: "length (filter (accepts ?g) sample_reports) = 2" "nat_str 2 = ''2''" by code_simp+
  show ?thesis
    using junit_suite_reports_all [OF pre, of sample_reports] two by (simp add: Let_def)
qed

end
