(* ===== verification/Cleanse.thy ===== *)
theory Cleanse
  imports LintState
begin

text \<open>
  How \<open>build_support/cpplint.py\<close> cleans the lines before it checks them: multi-line comments
  (\<open>RemoveMultiLineComments\<close>), C++11 raw strings (\<open>CleanseRawStrings\<close>), comments on a line
  (\<open>CleanseComments\<close>), strings and character literals (\<open>CleansedLines._CollapseStrings\<close>),
  and the class \<open>CleansedLines\<close> that keeps the four versions of the lines.
\<close>

abbreviation dq :: char where "dq \<equiv> CHR 0x22"
abbreviation sq :: char where "sq \<equiv> CHR 0x27"
abbreviation bs :: char where "bs \<equiv> CHR 0x5C"

section \<open>Patterns\<close>

definition is_hex :: "char \<Rightarrow> bool" where
  "is_hex c \<longleftrightarrow> is_digit c \<or> c \<in> set ''abcdefABCDEF''"

text \<open>\<open>\\([abfnrtv?"\\\']|\d+|x[0-9a-fA-F]+)\<close>\<close>

definition cleanse_line_escapes_re :: re where
  "cleanse_line_escapes_re = Seq (Ch bs) (Grp 1 (Alts
     [OneOf (''abfnrtv?'' @ [dq, bs, sq]), Plus Digit, Seq (Ch CHR ''x'') (Plus (Cls is_hex))]))"

text \<open>\<open>/\*(?:[^*]|\*(?!/))*\*/\<close>\<close>

definition c_comment_re :: re where
  "c_comment_re = Seqs [Lit ''/*'', Star (Alt (NoneOf ''*'') (Seq (Ch CHR ''*'') (NLook (Ch CHR ''/'')))),
     Lit ''*/'']"

text \<open>\<open>(\s*C\s*$|C\s+|\s+C(?=\W)|C)\<close> for the pattern \<open>C\<close> of a comment.\<close>

definition cleanse_line_c_comments_re :: re where
  "cleanse_line_c_comments_re = Grp 1 (Alts
     [Seqs [Star Space, c_comment_re, Star Space, Eol],
      Seq c_comment_re (Plus Space),
      Seqs [Plus Space, c_comment_re, Look NonWord],
      c_comment_re])"

text \<open>\<open>^(.*?)\b(?:R|u8R|uR|UR|LR)"([^\s\\()]*)\((.*)$\<close>\<close>

definition raw_string_re :: re where
  "raw_string_re = Seq (Seq Bol (Grp 1 (LStar Any)))
     (Seq (Seqs [Wb, Alts [Lit ''R'', Lit ''u8R'', Lit ''uR'', Lit ''UR'', Lit ''LR''], Ch dq,
             Grp 2 (Star (Cls (\<lambda>c. \<not> is_space c \<and> c \<notin> set [bs, CHR ''('', CHR '')'']))), Ch CHR ''('']) 
          (Seq (Grp 3 (Star Any)) Eol))"

text \<open>\<open>^([^\'"]|\'(\\.|[^\'])*\'|"(\\.|[^"])*")*//\<close>\<close>

definition in_line_comment_re :: re where
  "in_line_comment_re = Seqs [Bol, Star (Grp 1 (Alts
     [NoneOf [sq, dq],
      Seqs [Ch sq, Star (Grp 2 (Alt (Seq (Ch bs) Any) (NoneOf [sq]))), Ch sq],
      Seqs [Ch dq, Star (Grp 3 (Alt (Seq (Ch bs) Any) (NoneOf [dq]))), Ch dq]])),
     Lit ''//'']"

text \<open>\<open>^(\s*)\S\<close>\<close>

definition leading_space_re :: re where
  "leading_space_re = Seq Bol (Seq (Grp 1 (Star Space)) NonSpace)"

text \<open>\<open>^\s*#\s*include\s*([<"])([^>"]*)[>"].*$\<close>\<close>

definition include_re :: re where
  "include_re = Seqs [Bol, Star Space, Ch CHR ''#'', Star Space, Lit ''include'', Star Space,
     Grp 1 (OneOf [CHR ''<'', dq]), Grp 2 (Star (NoneOf [CHR ''>'', dq])), OneOf [CHR ''>'', dq],
     Star Any, Eol]"

text \<open>\<open>^([^\'"]*)([\'"])(.*)$\<close>\<close>

definition first_quote_re :: re where
  "first_quote_re = Seq (Seq Bol (Grp 1 (Star (NoneOf [sq, dq]))))
     (Seq (Grp 2 (OneOf [sq, dq])) (Seq (Grp 3 (Star Any)) Eol))"

text \<open>\<open>\b(?:0[bBxX]?|[1-9])[0-9a-fA-F]*$\<close>\<close>

definition number_head_re :: re where
  "number_head_re = Seqs [Wb,
     Alt (Seq (Ch CHR ''0'') (Opt (OneOf ''bBxX''))) (OneOf ''123456789''),
     Star (Cls is_hex), Eol]"

text \<open>\<open>^((?:\'?[0-9a-zA-Z_])*)(.*)$\<close>\<close>

definition digits_re :: re where
  "digits_re = Seq (Seq Bol (Grp 1 (Star (Seq (Opt (Ch sq))
     (Cls (\<lambda>c. is_digit c \<or> is_lower_ascii c \<or> is_upper_ascii c \<or> c = CHR ''_''))))))
     (Seq (Grp 2 (Star Any)) Eol)"

section \<open>Raw strings\<close>

definition IsCppString :: "string \<Rightarrow> bool" where
  "IsCppString line0 =
     (let line = str_replace line0 [bs, bs] ''XX'' in
      odd (int (str_count line [dq]) - int (str_count line [bs, dq]) -
           int (str_count line [sq, dq, sq])))"

lemma raw_string_groups:
  assumes "Match raw_string_re line = Some m"
  shows "length (grp m 1) + 3 + length (grp m 3) \<le> length line"
proof -
  let ?mid = "Seqs [Wb, Alts [Lit ''R'', Lit ''u8R'', Lit ''uR'', Lit ''UR'', Lit ''LR''], Ch dq,
    Grp 2 (Star (Cls (\<lambda>c. \<not> is_space c \<and> c \<notin> set [bs, CHR ''('', CHR '')'']))), Ch CHR ''('']"
  have "min_len ?mid = 3" "set (all_groups ?mid) = {2}"
    by (simp_all add: Seqs.simps Alts.simps Lit_def Ch_def)
  with grp_around [OF assms [unfolded raw_string_re_def], of 1 3] show ?thesis
    by (simp add: Any_def)
qed

text \<open>
  The loop that replaces the raw strings starting on a line: the line and the delimiter of a
  raw string that is still open at its end.
\<close>

function raw_starts :: "string \<Rightarrow> string \<times> string option" where
  "raw_starts line =
     (case Match raw_string_re line of
        None \<Rightarrow> (line, None)
      | Some matched \<Rightarrow>
          if matches in_line_comment_re (grp matched 1) then (line, None)
          else let delimiter = '')'' @ grp matched 2 @ [dq] in
            (case str_find (grp matched 3) delimiter of
               Some end \<Rightarrow>
                 raw_starts (grp matched 1 @ [dq, dq] @ drop (end + length delimiter) (grp matched 3))
             | None \<Rightarrow> (grp matched 1 @ [dq, dq], Some delimiter)))"
  by pat_completeness auto
termination
  by (relation "measure length") (auto dest!: raw_string_groups)

declare raw_starts.simps [simp del]

fun cleanse_raw :: "string option \<Rightarrow> string list \<Rightarrow> py_error + string list" where
  "cleanse_raw delimiter [] = Inr []"
| "cleanse_raw None (line # lines) =
     (case raw_starts line of (line', d) \<Rightarrow> map_sum id (\<lambda>ls. line' # ls) (cleanse_raw d lines))"
| "cleanse_raw (Some delimiter) (line # lines) =
     (case str_find line delimiter of
        None \<Rightarrow> map_sum id (\<lambda>ls. [dq, dq] # ls) (cleanse_raw (Some delimiter) lines)
      | Some end \<Rightarrow>
          (case Match leading_space_re line of
             None \<Rightarrow> Inl AttributeError
           | Some leading_space \<Rightarrow>
               (case raw_starts (grp leading_space 1 @ [dq, dq] @ drop (end + length delimiter) line) of
                  (line', d) \<Rightarrow> map_sum id (\<lambda>ls. line' # ls) (cleanse_raw d lines))))"

definition CleanseRawStrings :: "string list \<Rightarrow> py_error + string list" where
  "CleanseRawStrings raw_lines = cleanse_raw None raw_lines"

section \<open>Multi-line comments\<close>

definition opens_comment :: "string \<Rightarrow> bool" where
  "opens_comment line \<longleftrightarrow>
     startswith (strip line) ''/*'' \<and> str_find (drop 2 (strip line)) ''*/'' = None"

definition ends_comment :: "string \<Rightarrow> bool" where
  "ends_comment line \<longleftrightarrow> endswith (strip line) ''*/''"

function FindNextMultiLineCommentStart :: "string list \<Rightarrow> nat \<Rightarrow> nat" where
  "FindNextMultiLineCommentStart lines lineix =
     (if lineix < length lines
      then if opens_comment (lines ! lineix) then lineix
           else FindNextMultiLineCommentStart lines (lineix + 1)
      else length lines)"
  by pat_completeness auto
termination
  by (relation "measure (\<lambda>(lines, i). length lines - i)") auto

function FindNextMultiLineCommentEnd :: "string list \<Rightarrow> nat \<Rightarrow> nat" where
  "FindNextMultiLineCommentEnd lines lineix =
     (if lineix < length lines
      then if ends_comment (lines ! lineix) then lineix
           else FindNextMultiLineCommentEnd lines (lineix + 1)
      else length lines)"
  by pat_completeness auto
termination
  by (relation "measure (\<lambda>(lines, i). length lines - i)") auto

declare FindNextMultiLineCommentStart.simps [simp del] FindNextMultiLineCommentEnd.simps [simp del]

definition RemoveMultiLineCommentsFromRange :: "string list \<Rightarrow> nat \<Rightarrow> nat \<Rightarrow> string list" where
  "RemoveMultiLineCommentsFromRange lines begin end =
     fold (\<lambda>i ls. ls[i := ''/**/'']) [begin..<end] lines"

lemma comment_start_ge: "i \<le> length lines \<Longrightarrow> i \<le> FindNextMultiLineCommentStart lines i"
proof (induction lines i rule: FindNextMultiLineCommentStart.induct)
  case (1 lines i)
  then show ?case by (subst FindNextMultiLineCommentStart.simps) (auto dest: Suc_leD)
qed

lemma comment_end_ge: "i \<le> length lines \<Longrightarrow> i \<le> FindNextMultiLineCommentEnd lines i"
proof (induction lines i rule: FindNextMultiLineCommentEnd.induct)
  case (1 lines i)
  then show ?case by (subst FindNextMultiLineCommentEnd.simps) (auto dest: Suc_leD)
qed

lemma length_RemoveRange [simp]:
  "length (RemoveMultiLineCommentsFromRange lines b e) = length lines"
proof -
  have "length (fold (\<lambda>i ls. ls[i := x]) is ls) = length ls" for x and "is" and ls :: "string list"
    by (induction "is" arbitrary: ls) simp_all
  then show ?thesis by (simp add: RemoveMultiLineCommentsFromRange_def)
qed

function remove_comments_from :: "string \<Rightarrow> string list \<Rightarrow> nat \<Rightarrow> string list \<times> report list" where
  "remove_comments_from filename lines lineix =
     (if lineix < length lines
      then let lineix_begin = FindNextMultiLineCommentStart lines lineix in
        if lineix_begin \<ge> length lines then (lines, [])
        else let lineix_end = FindNextMultiLineCommentEnd lines lineix_begin in
          if lineix_end \<ge> length lines
          then (lines, [mk_report filename (int lineix_begin + 1) ''readability/multiline_comment'' 5
                  ''Could not find end of multi-line comment''])
          else remove_comments_from filename
                 (RemoveMultiLineCommentsFromRange lines lineix_begin (lineix_end + 1))
                 (lineix_end + 1)
      else (lines, []))"
  by pat_completeness auto
termination
proof (relation "measure (\<lambda>(f, lines, i). length lines - i)", goal_cases)
  case (2 filename lines lineix b e)
  have "lineix \<le> b" using 2 comment_start_ge [of lineix lines] by simp
  moreover have "b \<le> e" using 2 comment_end_ge [of b lines] by simp
  ultimately show ?case using 2 by auto
qed simp

declare remove_comments_from.simps [simp del]

definition RemoveMultiLineComments :: "string \<Rightarrow> string list \<Rightarrow> string list \<times> report list" where
  "RemoveMultiLineComments filename lines = remove_comments_from filename lines 0"

section \<open>Comments and strings on a line\<close>

definition CleanseComments :: "string \<Rightarrow> string" where
  "CleanseComments line =
     re_sub cleanse_line_c_comments_re []
       (case str_find line ''//'' of
          None \<Rightarrow> line
        | Some commentpos \<Rightarrow>
            if \<not> IsCppString (take commentpos line) then rstrip (take commentpos line) else line)"

lemma first_quote_groups:
  assumes "Match first_quote_re s = Some m"
  shows "length (grp m 1) + 1 + length (grp m 3) \<le> length s"
  using grp_around [OF assms [unfolded first_quote_re_def], of 1 3]
  by (simp add: OneOf_def NoneOf_def Any_def)

lemma number_head_ne: "found number_head_re s \<Longrightarrow> s \<noteq> []"
proof -
  have "Search number_head_re [] = None" by code_simp
  then show "found number_head_re s \<Longrightarrow> s \<noteq> []" by auto
qed

lemma digits_always:
  assumes "CHR 0x0A \<notin> set s"
  shows "matches digits_re s"
proof -
  let ?g = "Star (Seq (Opt (Ch sq)) (Cls (\<lambda>c. is_digit c \<or> is_lower_ascii c \<or> is_upper_ascii c \<or> c = CHR ''_'')))"
  have "(0, [(1, 0, 0)]) \<in> set (rm (Seq Bol (Grp 1 ?g)) s (0, []))"
    using rm_Star_skip [of "(0, [])"] by force
  then have "rm digits_re s (0, []) \<noteq> []"
    unfolding digits_re_def by (rule rm_Seq_ne) (use rm_rest [of 0 s 2] assms in simp)
  then show ?thesis by (simp add: Match_def match_at_None)
qed

text \<open>
  The loop of \<open>_CollapseStrings\<close>.  The pattern that reads a literal with digit separators
  matches every text without a newline (\<open>digits_always\<close>), and \<open>tail\<close> has none, so
  that the code's \<open>match_literal.group\<close> is always defined and the branch for no match is
  never taken.
\<close>

function collapse :: "string \<Rightarrow> string \<Rightarrow> string" where
  "collapse collapsed elided =
     (case Match first_quote_re elided of
        None \<Rightarrow> collapsed @ elided
      | Some match \<Rightarrow>
          let head = grp match 1; quote = grp match 2; tail = grp match 3 in
          if quote = [dq]
          then (case str_find tail [dq] of
                  Some second_quote \<Rightarrow>
                    collapse (collapsed @ head @ [dq, dq]) (drop (second_quote + 1) tail)
                | None \<Rightarrow> collapsed @ elided)
          else if found number_head_re head
          then (case Match digits_re (sq # tail) of
                  Some match_literal \<Rightarrow>
                    collapse (collapsed @ head @ str_replace (grp match_literal 1) [sq] [])
                      (grp match_literal 2)
                | None \<Rightarrow> collapsed @ elided)
          else (case str_find tail [sq] of
                  Some second_quote \<Rightarrow>
                    collapse (collapsed @ head @ [sq, sq]) (drop (second_quote + 1) tail)
                | None \<Rightarrow> collapsed @ elided))"
  by pat_completeness auto
termination
proof (relation "measure (\<lambda>(c, e). length e)", goal_cases)
  case (3 collapsed elided match head quote tail match_literal)
  have "length (grp match 1) + 1 + length (grp match 3) \<le> length elided"
    using 3 first_quote_groups by blast
  moreover have "grp match 1 \<noteq> []" using 3 number_head_ne by blast
  moreover have "length (grp match_literal 2) \<le> length (sq # tail)"
    using 3 grp_length by blast
  ultimately show ?case using 3 by (cases "grp match 1") auto
qed (auto dest!: first_quote_groups)

declare collapse.simps [simp del]

definition CollapseStrings :: "string \<Rightarrow> string" where
  "CollapseStrings elided =
     (if matches include_re elided then elided
      else collapse [] (re_sub cleanse_line_escapes_re [] elided))"

section \<open>\<open>CleansedLines\<close>\<close>

record cleansed_lines =
  elided :: "string list"
  cl_lines :: "string list"
  raw_lines :: "string list"
  num_lines :: nat
  lines_without_raw_strings :: "string list"

definition CleansedLines :: "string list \<Rightarrow> py_error + cleansed_lines" where
  "CleansedLines lines =
     map_sum id (\<lambda>ls.
       \<lparr>elided = map (\<lambda>l. CleanseComments (CollapseStrings l)) ls,
        cl_lines = map CleanseComments ls, raw_lines = lines, num_lines = length lines,
        lines_without_raw_strings = ls\<rparr>) (CleanseRawStrings lines)"

definition NumLines :: "cleansed_lines \<Rightarrow> nat" where
  "NumLines c = num_lines c"

section \<open>Helper facts on the collapse of strings\<close>

lemma first_quote_step:
  assumes "sq \<notin> set h" "dq \<notin> set h" "q = sq \<or> q = dq" "CHR 0x0A \<notin> set t"
  shows "Match first_quote_re (h @ q # t) = Some \<lparr>m_string = h @ q # t, m_start = 0,
    m_end = length (h @ q # t),
    m_caps = [(3, Suc (length h), length (h @ q # t)), (2, length h, Suc (length h)), (1, 0, length h)]\<rparr>"
proof -
  let ?s = "h @ q # t" and ?p = "\<lambda>c. c \<notin> set [sq, dq]"
  let ?r = "Seq (Grp 2 (OneOf [sq, dq])) (Seq (Grp 3 (Star Any)) Eol)"
  have e: "run_end ?p ?s 0 = length h"
    using run_end_append [of ?p h "q # t" "[]"] assms by (auto simp: list_all_iff)
  have fail: "rm ?r ?s (j, c) = []" if "j < length h" for j c
  proof -
    have "?s ! j \<in> set h" using that by (simp add: nth_append)
    then have "?s ! j \<noteq> sq" "?s ! j \<noteq> dq" using assms by metis+
    then have "rm (OneOf [sq, dq]) ?s (j, c) = []" by (simp add: OneOf_def)
    then show ?thesis by simp
  qed
  have ok: "rm ?r ?s (length h, c) = [(length ?s, (3, Suc (length h), length ?s) # (2, length h, Suc (length h)) # c)]" for c
  proof -
    have "rm (Grp 2 (OneOf [sq, dq])) ?s (length h, c) = [(Suc (length h), (2, length h, Suc (length h)) # c)]"
      using assms(3) by (auto simp: OneOf_def)
    then show ?thesis using rm_rest [of "Suc (length h)" ?s 3] assms(4)
      by (simp only: rm.simps(3) [of "Grp 2 (OneOf [sq, dq])"]) simp
  qed
  have "rm (Seq Bol (Grp 1 (Star (NoneOf [sq, dq])))) ?s (0, []) =
     map (\<lambda>j. (j, [(1, 0, j)])) (rev [0..<Suc (length h)])"
    unfolding NoneOf_def using rm_star_cls [of 0 ?s ?p "[]"] e by simp
  moreover have "concat (map (rm ?r ?s) (map (\<lambda>j. (j, [(1, 0, j)])) (rev [0..<length h]))) = []"
    using fail by (auto simp: concat_eq_Nil_conv simp del: rm.simps)
  ultimately have "rm first_quote_re ?s (0, []) = [(length ?s, [(3, Suc (length h), length ?s), (2, length h, Suc (length h)), (1, 0, length h)])]"
    unfolding first_quote_re_def rm.simps(3) [of "Seq Bol (Grp 1 (Star (NoneOf [sq, dq])))"]
    using ok by (simp del: rm.simps)
  then show ?thesis by (simp add: Match_def match_at_def)
qed

lemma collapse_string:
  assumes "sq \<notin> set h" "dq \<notin> set h" "dq \<notin> set b" "CHR 0x0A \<notin> set b" "CHR 0x0A \<notin> set t"
  shows "collapse c (h @ dq # b @ dq # t) = collapse (c @ h @ [dq, dq]) t"
proof -
  let ?s = "h @ dq # b @ dq # t"
  note m = first_quote_step [of h dq "b @ dq # t"]
  have f: "str_find (b @ dq # t) [dq] = Some (length b)" if "dq \<notin> set b" for b
    using that by (induction b) auto
  show ?thesis
    by (subst collapse.simps, subst m) (use assms f in \<open>auto simp: grp_def group_def slice_def\<close>)
qed

lemma collapse_plain:
  assumes "sq \<notin> set t" "dq \<notin> set t"
  shows "collapse c t = c @ t"
proof -
  have "Match first_quote_re t = None"
  proof -
    have "rm (OneOf [sq, dq]) t st = []" for st
      using assms by (auto simp: OneOf_def dest: nth_mem)
    then have "rm (Seq (Grp 2 (OneOf [sq, dq])) (Seq (Grp 3 (Star Any)) Eol)) t st = []" for st by simp
    then have "rm first_quote_re t (0, []) = []"
      unfolding first_quote_re_def rm.simps(3) [of "Seq Bol (Grp 1 (Star (NoneOf [sq, dq])))"] by simp
    then show ?thesis by (simp add: Match_def match_at_None)
  qed
  then show ?thesis by (subst collapse.simps) simp
qed

lemma escapes_absent:
  assumes "bs \<notin> set s"
  shows "re_sub cleanse_line_escapes_re rep s = s"
proof -
  have "rm (Ch bs) s (j, []) = []" for j
    using assms by (auto simp: Ch_def dest: nth_mem)
  then have "match_at cleanse_line_escapes_re s j = None" for j
    by (simp add: match_at_None cleanse_line_escapes_re_def)
  then show ?thesis by (simp add: re_sub_def re_sub_fn_def sub_from_absent)
qed


section \<open>The four versions have the same length\<close>

abbreviation "delimiter_ok d \<equiv> (\<forall>x. d = Some x \<longrightarrow> x \<noteq> [] \<and> \<not> is_space (hd x))"

lemma raw_starts_delimiter: "delimiter_ok (snd (raw_starts line))"
proof (induction line rule: raw_starts.induct)
  case (1 line)
  then show ?case
    by (subst raw_starts.simps) (auto simp: Let_def is_space_def split: option.split)
qed

lemma leading_space_found:
  assumes "i < length s" and "\<not> is_space (s ! i)"
  shows "matches leading_space_re s"
proof -
  let ?e = "run_end is_space s 0"
  have lt: "?e < length s"
  proof (rule ccontr)
    assume "\<not> ?e < length s"
    then have "i < ?e" using assms(1) by simp
    with run_end_in [of 0 i is_space s] assms(2) show False by simp
  qed
  have "(?e, [(1, 0, ?e)]) \<in> set (rm (Grp 1 (Star Space)) s (0, []))"
    using rm_star_cls [of 0 s is_space "[]"] by force
  then have "rm (Seq (Grp 1 (Star Space)) NonSpace) s (0, []) \<noteq> []"
    by (rule rm_Seq_ne) (use lt run_end_out [OF lt] in simp)
  then have "rm leading_space_re s (0, []) \<noteq> []" by (simp add: leading_space_re_def)
  then show ?thesis by (simp add: Match_def match_at_None)
qed

lemma delimiter_leading_space:
  assumes "str_find line d = Some e" "d \<noteq> []" "\<not> is_space (hd d)"
  shows "matches leading_space_re line"
proof (rule leading_space_found)
  from str_find_Some [OF assms(1)] assms(2) show "e < length line" by (cases d) auto
  with str_find_Some [OF assms(1)] assms(2,3) show "\<not> is_space (line ! e)"
    by (cases d) (auto simp: Cons_nth_drop_Suc [symmetric])
qed

lemma cleanse_raw_total:
  "delimiter_ok d \<Longrightarrow> \<exists>ls. cleanse_raw d lines = Inr ls \<and> length ls = length lines"
proof (induction d lines rule: cleanse_raw.induct)
  case (2 line lines)
  obtain l' d' where r: "raw_starts line = (l', d')" by fastforce
  with raw_starts_delimiter [of line] have "delimiter_ok d'" by simp
  with 2(1) [OF r [symmetric]] r show ?case by auto
next
  case (3 d line lines)
  show ?case
  proof (cases "str_find line d")
    case None
    with 3 show ?thesis by auto
  next
    case (Some e)
    with 3(3) delimiter_leading_space [OF Some] obtain m where m: "Match leading_space_re line = Some m"
      by auto
    obtain l' d' where r: "raw_starts (grp m 1 @ [dq, dq] @ drop (e + length d) line) = (l', d')"
      by fastforce
    with raw_starts_delimiter [of "grp m 1 @ [dq, dq] @ drop (e + length d) line"]
    have "delimiter_ok d'" by simp
    with 3(2) [OF Some m r [symmetric]] r Some m show ?thesis by auto
  qed
qed simp

text \<open>
  C25: \<open>CleansedLines\<close> is total: whatever the lines are, no \<open>AttributeError\<close> is raised (the
  \<open>leading_space.group\<close> of \<open>CleanseRawStrings\<close> is only reached on a line that has a
  non-space character), the raw lines are kept, and, as its doc string promises, all four
  lists have the length of the file.
\<close>

theorem cleansed_lines_same_length:
  "case CleansedLines lines of
     Inl _ \<Rightarrow> False
   | Inr c \<Rightarrow> raw_lines c = lines \<and> NumLines c = length lines \<and>
       length (elided c) = length lines \<and> length (cl_lines c) = length lines \<and>
       length (lines_without_raw_strings c) = length lines"
  using cleanse_raw_total [of None lines]
  by (auto simp: CleansedLines_def CleanseRawStrings_def NumLines_def)

section \<open>What the removal of multi-line comments does\<close>

lemma comment_start_spec:
  "i \<le> length lines \<Longrightarrow> FindNextMultiLineCommentStart lines i = b \<Longrightarrow>
   i \<le> b \<and> b \<le> length lines \<and> (\<forall>j. i \<le> j \<and> j < b \<longrightarrow> \<not> opens_comment (lines ! j)) \<and>
   (b < length lines \<longrightarrow> opens_comment (lines ! b))"
proof (induction lines i rule: FindNextMultiLineCommentStart.induct)
  case (1 lines i)
  show ?case
  proof (cases "i < length lines \<and> \<not> opens_comment (lines ! i)")
    case True
    then have "FindNextMultiLineCommentStart lines (i + 1) = b"
      using "1.prems" by (subst (asm) FindNextMultiLineCommentStart.simps) simp
    with 1(1) True show ?thesis by (metis Suc_eq_plus1 Suc_leD Suc_leI le_neq_implies_less)
  next
    case False
    then have "b = i" using "1.prems"(1) "1.prems"(2) [symmetric]
      by (auto simp: FindNextMultiLineCommentStart.simps [of lines i])
    then show ?thesis using False "1.prems"(1) by auto
  qed
qed

lemma comment_start_skip:
  assumes "\<forall>j < i. \<not> opens_comment (lines ! j)" and "i \<le> length lines"
  shows "FindNextMultiLineCommentStart lines 0 = FindNextMultiLineCommentStart lines i"
  using assms
proof (induction i)
  case (Suc i)
  then have "FindNextMultiLineCommentStart lines 0 = FindNextMultiLineCommentStart lines i" by simp
  also have "\<dots> = FindNextMultiLineCommentStart lines (Suc i)"
    using Suc.prems by (subst FindNextMultiLineCommentStart.simps) simp
  finally show ?case .
qed simp

lemma RemoveRange_nth:
  "j < length lines \<Longrightarrow>
   RemoveMultiLineCommentsFromRange lines b e ! j = (if b \<le> j \<and> j < e then ''/**/'' else lines ! j)"
proof -
  assume j: "j < length lines"
  have "fold (\<lambda>i ls. ls[i := x]) is ls ! j = (if j \<in> set is then x else ls ! j)"
    if "j < length ls" for x "is" and ls :: "string list"
    using that by (induction "is" arbitrary: ls) auto
  from this [OF j] show ?thesis by (simp add: RemoveMultiLineCommentsFromRange_def)
qed

lemma dummy_comment: "\<not> opens_comment ''/**/''"
  by code_simp

lemma remove_comments_spec:
  assumes "\<forall>j < i. \<not> opens_comment (lines ! j)" and "i \<le> length lines"
    and "remove_comments_from filename lines i = (res, reps)"
  shows "list_all2 (\<lambda>l l'. l' = l \<or> l' = ''/**/'') lines res \<and>
    (reps = [] \<longleftrightarrow> list_all (\<lambda>l. \<not> opens_comment l) res) \<and>
    remove_comments_from filename res 0 = (res, reps)"
  using assms
proof (induction filename lines i rule: remove_comments_from.induct)
  case (1 filename lines i)
  define b where "b = FindNextMultiLineCommentStart lines i"
  define e where "e = FindNextMultiLineCommentEnd lines b"
  note b = comment_start_spec [OF "1.prems"(2) b_def [symmetric]]
  have b0: "FindNextMultiLineCommentStart lines 0 = b"
    using comment_start_skip [OF "1.prems"(1,2)] by (simp add: b_def)
  have quiet: "\<not> opens_comment (lines ! j)" if "j < b" for j
    using that b "1.prems"(1) by (cases "j < i") auto
  note unf = remove_comments_from.simps [of filename lines]
  consider (none) "b = length lines" | (opened) "b < length lines" "length lines \<le> e"
    | (closed) "b < length lines" "e < length lines" using b by linarith
  then show ?case
  proof cases
    case none
    have "remove_comments_from filename lines 0 = (lines, [])" "remove_comments_from filename lines i = (lines, [])"
      using none b0 by (simp_all add: unf Let_def b_def [symmetric])
    with "1.prems"(3) none quiet show ?thesis by (auto simp: list_all_length list_all2_conv_all_nth)
  next
    case opened
    let ?r = "[mk_report filename (int b + 1) ''readability/multiline_comment'' 5
                  ''Could not find end of multi-line comment'']"
    have "i < length lines" "0 < length lines" using opened(1) b by auto
    then have "remove_comments_from filename lines 0 = (lines, ?r)"
      "remove_comments_from filename lines i = (lines, ?r)"
      using opened b0 by (simp_all add: unf Let_def b_def [symmetric] e_def [symmetric])
    with "1.prems"(3) opened b show ?thesis by (auto simp: list_all_length list_all2_conv_all_nth)
  next
    case closed
    let ?lines = "RemoveMultiLineCommentsFromRange lines b (e + 1)"
    have il: "i < length lines" using closed(1) b by auto
    have rec: "remove_comments_from filename ?lines (e + 1) = (res, reps)"
      using "1.prems"(3) closed il by (simp add: unf Let_def b_def [symmetric] e_def [symmetric])
    have be: "b \<le> e" using comment_end_ge [of b lines] closed by (simp add: e_def)
    have q': "\<forall>j < e + 1. \<not> opens_comment (?lines ! j)"
      using closed quiet by (auto simp: RemoveRange_nth dummy_comment)
    have IH: "list_all2 (\<lambda>l l'. l' = l \<or> l' = ''/**/'') ?lines res \<and>
      (reps = [] \<longleftrightarrow> list_all (\<lambda>l. \<not> opens_comment l) res) \<and>
      remove_comments_from filename res 0 = (res, reps)"
      using "1.IH" [OF il b_def _ _ _ q' _ rec] closed by (simp add: e_def)
    then have "list_all2 (\<lambda>l l'. l' = l \<or> l' = ''/**/'') lines res"
      by (auto simp: list_all2_conv_all_nth RemoveRange_nth split: if_splits)
    with IH show ?thesis by blast
  qed
qed



section \<open>What the collapse of strings does\<close>

text \<open>A line made of pieces of code, each followed by a string literal, and a last piece of code.\<close>

definition literal_line :: "(string \<times> string) list \<Rightarrow> string \<Rightarrow> string" where
  "literal_line segs rest = concat (map (\<lambda>(code, body). code @ dq # body @ [dq]) segs) @ rest"

lemma literal_line_simps:
  "literal_line [] rest = rest"
  "literal_line ((h, b) # segs) rest = h @ dq # b @ dq # literal_line segs rest"
  by (simp_all add: literal_line_def)

lemma collapse_literal_line:
  assumes "list_all (\<lambda>(code, body). sq \<notin> set code \<and> dq \<notin> set code \<and> dq \<notin> set body) segs"
    and "sq \<notin> set rest" "dq \<notin> set rest"
    and "CHR 0x0A \<notin> set (literal_line segs rest)"
  shows "collapse c (literal_line segs rest) =
    c @ literal_line (map (\<lambda>(code, body). (code, [])) segs) rest"
  using assms
proof (induction segs arbitrary: c)
  case Nil
  then show ?case by (simp add: literal_line_simps collapse_plain)
next
  case (Cons x segs)
  obtain h b where x: "x = (h, b)" by (cases x)
  show ?case
    unfolding x literal_line_simps
    by (subst collapse_string) (use Cons x in \<open>auto simp: literal_line_simps\<close>)
qed

text \<open>
  C26: on a line of code pieces and string literals, without backslashes, without single quotes and
  without double quotes outside the literals' own ends, and that is no \<open>#include\<close> line, \<open>CollapseStrings\<close> empties every literal and keeps the code around it: what is
  inside the literals, comment markers included, has no effect on the later checks.
\<close>

theorem string_literals_collapse:
  assumes "list_all (\<lambda>(code, body). sq \<notin> set code \<and> dq \<notin> set code \<and> dq \<notin> set body) segs"
    and "sq \<notin> set rest" "dq \<notin> set rest"
    and "CHR 0x0A \<notin> set (literal_line segs rest)" and "bs \<notin> set (literal_line segs rest)"
    and "\<not> matches include_re (literal_line segs rest)"
  shows "CollapseStrings (literal_line segs rest) =
    literal_line (map (\<lambda>(code, body). (code, [])) segs) rest"
  using assms collapse_literal_line [of segs rest "[]"]
  by (simp add: CollapseStrings_def escapes_absent)

lemma string_literals_collapse_witness:
  "CollapseStrings (literal_line [(''f('', ''// not a comment''), ('', '', ''/* nor this'')] '');'') =
     literal_line [(''f('', []), ('', '', [])] '');''"
proof -
  have "\<not> matches include_re (literal_line [(''f('', ''// not a comment''), ('', '', ''/* nor this'')] '');'')"
    by code_simp
  then show ?thesis
    using string_literals_collapse
      [of "[(''f('', ''// not a comment''), ('', '', ''/* nor this'')]" "'');''"]
    by (simp add: literal_line_simps)
qed

end
