(* ===== verification/Brackets.thy ===== *)
theory Brackets
  imports Cleanse
begin

text \<open>
  The search for the other end of a parenthesised expression in \<open>build_support/cpplint.py\<close>:
  \<open>FindEndOfExpressionInLine\<close>, \<open>CloseExpression\<close>, \<open>FindStartOfExpressionInLine\<close> and
  \<open>ReverseCloseExpression\<close>.  Python's stack (a list whose last element is the top) is a
  list whose head is the top; \<open>None\<close> as the second component of a result stays \<open>None\<close>.
\<close>

text \<open>\<open>\boperator\s*$\<close>, \<open><[<=]\<close>, \<open>\s>=\s\<close>\<close>

definition operator_re :: re where
  "operator_re = Seqs [Wb, Lit ''operator'', Star Space, Eol]"

definition shift_re :: re where
  "shift_re = Seqs [Ch CHR ''<'', OneOf ''<='']"

definition greater_eq_re :: re where
  "greater_eq_re = Seqs [Space, Lit ''>='', Space]"

definition is_open :: "char \<Rightarrow> bool" where
  "is_open c \<longleftrightarrow> c \<in> set ''([{''"

definition is_close :: "char \<Rightarrow> bool" where
  "is_close c \<longleftrightarrow> c \<in> set '')]}''"

definition bracket_pair :: "char \<Rightarrow> char \<Rightarrow> bool" where
  "bracket_pair l r \<longleftrightarrow>
     l = CHR ''('' \<and> r = CHR '')'' \<or> l = CHR ''['' \<and> r = CHR '']'' \<or> l = CHR ''{'' \<and> r = CHR ''}''"

type_synonym 's search = "int \<times> 's option"

section \<open>Forward\<close>

text \<open>
  One character of \<open>FindEndOfExpressionInLine\<close>: \<open>Inl\<close> a result to return, \<open>Inr\<close> the stack
  to go on with.
\<close>

definition end_step :: "string \<Rightarrow> nat \<Rightarrow> string \<Rightarrow> string search + string" where
  "end_step line i stack =
     (let char = line ! i in
      if is_open char then Inr (char # stack)
      else if char = CHR ''<'' then
        (if 0 < i \<and> line ! (i - 1) = CHR ''<'' then
           (if stack \<noteq> [] \<and> hd stack = CHR ''<'' then
              (if tl stack = [] then Inl (-1, None) else Inr (tl stack))
            else Inr stack)
         else if 0 < i \<and> found operator_re (take i line) then Inr stack
         else Inr (CHR ''<'' # stack))
      else if is_close char then
        (case dropWhile (\<lambda>c. c = CHR ''<'') stack of
           [] \<Rightarrow> Inl (-1, None)
         | t # stack' \<Rightarrow>
             if bracket_pair t char
             then (if stack' = [] then Inl (int (i + 1), None) else Inr stack')
             else Inl (-1, None))
      else if char = CHR ''>'' then
        (if 0 < i \<and> (line ! (i - 1) = CHR ''-'' \<or> found operator_re (take (i - 1) line)) then Inr stack
         else if stack \<noteq> [] \<and> hd stack = CHR ''<'' then
           (if tl stack = [] then Inl (int (i + 1), None) else Inr (tl stack))
         else Inr stack)
      else if char = CHR '';'' then
        (case dropWhile (\<lambda>c. c = CHR ''<'') stack of
           [] \<Rightarrow> Inl (-1, None)
         | stack' \<Rightarrow> Inr stack')
      else Inr stack)"

fun end_loop :: "string \<Rightarrow> nat list \<Rightarrow> string \<Rightarrow> string search" where
  "end_loop line [] stack = (-1, Some stack)"
| "end_loop line (i # is) stack =
     (case end_step line i stack of Inl r \<Rightarrow> r | Inr stack' \<Rightarrow> end_loop line is stack')"

definition FindEndOfExpressionInLine :: "string \<Rightarrow> nat \<Rightarrow> string \<Rightarrow> string search" where
  "FindEndOfExpressionInLine line startpos stack = end_loop line [startpos..<length line] stack"

text \<open>The lines after the first one, while the stack is neither \<open>None\<close> nor empty.\<close>

fun close_lines :: "nat \<Rightarrow> string list \<Rightarrow> nat \<Rightarrow> string \<Rightarrow> string option \<Rightarrow> string \<times> nat \<times> int" where
  "close_lines N [] linenum line stack = (line, N, -1)"
| "close_lines N (line' # ls) linenum line stack =
     (case stack of
        None \<Rightarrow> (line, N, -1)
      | Some [] \<Rightarrow> (line, N, -1)
      | Some st \<Rightarrow>
          (case FindEndOfExpressionInLine line' 0 st of (end_pos, stack') \<Rightarrow>
             if end_pos > -1 then (line', linenum + 1, end_pos)
             else close_lines N ls (linenum + 1) line' stack'))"

definition CloseExpression :: "cleansed_lines \<Rightarrow> nat \<Rightarrow> nat \<Rightarrow> py_error + string \<times> nat \<times> int" where
  "CloseExpression clean_lines linenum pos =
     (if linenum \<ge> length (elided clean_lines) \<or> pos \<ge> length (elided clean_lines ! linenum)
      then Inl IndexError
      else Inr (
        let line = elided clean_lines ! linenum in
        if line ! pos \<notin> set ''({[<'' \<or> matches shift_re (drop pos line)
        then (line, NumLines clean_lines, -1)
        else (case FindEndOfExpressionInLine line pos [] of (end_pos, stack) \<Rightarrow>
          if end_pos > -1 then (line, linenum, end_pos)
          else close_lines (NumLines clean_lines)
            (drop (linenum + 1) (take (NumLines clean_lines) (elided clean_lines)))
            linenum line stack)))"

section \<open>Backward\<close>

text \<open>
  The loop of \<open>FindStartOfExpressionInLine\<close>; its argument is \<open>i + 1\<close>, the number of
  characters still to look at.  A two-character operator is passed over by stepping twice.
\<close>

definition start_step :: "string \<Rightarrow> nat \<Rightarrow> string \<Rightarrow> string search + nat \<times> string" where
  "start_step line i stack =
     (let char = line ! i in
      if is_close char then Inr (i, char # stack)
      else if char = CHR ''>'' then
        (if 0 < i \<and> (line ! (i - 1) = CHR ''-'' \<or> matches greater_eq_re (drop (i - 1) line) \<or>
             found operator_re (take i line))
         then Inr (i - 1, stack)
         else Inr (i, CHR ''>'' # stack))
      else if char = CHR ''<'' then
        (if 0 < i \<and> line ! (i - 1) = CHR ''<'' then Inr (i - 1, stack)
         else if stack \<noteq> [] \<and> hd stack = CHR ''>'' then
           (if tl stack = [] then Inl (int i, None) else Inr (i, tl stack))
         else Inr (i, stack))
      else if is_open char then
        (case dropWhile (\<lambda>c. c = CHR ''>'') stack of
           [] \<Rightarrow> Inl (-1, None)
         | t # stack' \<Rightarrow>
             if bracket_pair char t
             then (if stack' = [] then Inl (int i, None) else Inr (i, stack'))
             else Inl (-1, None))
      else if char = CHR '';'' then
        (case dropWhile (\<lambda>c. c = CHR ''>'') stack of
           [] \<Rightarrow> Inl (-1, None)
         | stack' \<Rightarrow> Inr (i, stack'))
      else Inr (i, stack))"

lemma start_step_less: "start_step line i stack = Inr (n, stack') \<Longrightarrow> n \<le> i"
  by (auto simp: start_step_def Let_def split: if_splits list.splits)

function start_loop :: "string \<Rightarrow> nat \<Rightarrow> string \<Rightarrow> string search" where
  "start_loop line 0 stack = (-1, Some stack)"
| "start_loop line (Suc i) stack =
     (case start_step line i stack of
        Inl r \<Rightarrow> r
      | Inr (n, stack') \<Rightarrow> start_loop line n stack')"
  by pat_completeness auto
termination
  by (relation "measure (\<lambda>(line, n, stack). n)")
     (auto dest: start_step_less simp: less_Suc_eq_le)

definition FindStartOfExpressionInLine :: "string \<Rightarrow> int \<Rightarrow> string \<Rightarrow> string search" where
  "FindStartOfExpressionInLine line endpos stack = start_loop line (nat (endpos + 1)) stack"

fun open_lines :: "string list \<Rightarrow> nat \<Rightarrow> string \<Rightarrow> string option \<Rightarrow> string \<times> nat \<times> int" where
  "open_lines [] linenum line stack = (line, 0, -1)"
| "open_lines (line' # ls) linenum line stack =
     (case stack of
        None \<Rightarrow> (line, 0, -1)
      | Some [] \<Rightarrow> (line, 0, -1)
      | Some st \<Rightarrow>
          (case FindStartOfExpressionInLine line' (int (length line') - 1) st of (start_pos, stack') \<Rightarrow>
             if start_pos > -1 then (line', linenum - 1, start_pos)
             else open_lines ls (linenum - 1) line' stack'))"

definition ReverseCloseExpression :: "cleansed_lines \<Rightarrow> nat \<Rightarrow> nat \<Rightarrow> py_error + string \<times> nat \<times> int" where
  "ReverseCloseExpression clean_lines linenum pos =
     (if linenum \<ge> length (elided clean_lines) \<or> pos \<ge> length (elided clean_lines ! linenum)
      then Inl IndexError
      else Inr (
        let line = elided clean_lines ! linenum in
        if line ! pos \<notin> set '')}]>'' then (line, 0, -1)
        else (case FindStartOfExpressionInLine line (int pos) [] of (start_pos, stack) \<Rightarrow>
          if start_pos > -1 then (line, linenum, start_pos)
          else open_lines (rev (take linenum (elided clean_lines))) linenum line stack)))"

section \<open>The two searches stay in the text\<close>

lemma end_step_bounds:
  assumes "end_step line i stack = Inl (e, st)"
  shows "st = None \<and> (e = -1 \<or> e = int (i + 1))"
  using assms by (auto simp: end_step_def Let_def split: if_splits list.splits)

lemma end_loop_bounds:
  "end_loop line is stack = (e, st) \<Longrightarrow> e = -1 \<or> st = None \<and> (\<exists>i \<in> set is. e = int (i + 1))"
  by (induction "is" arbitrary: stack) (auto split: sum.splits dest: end_step_bounds)

lemma FindEnd_bounds:
  assumes "FindEndOfExpressionInLine line p stack = (e, st)"
  shows "e = -1 \<or> int p < e \<and> e \<le> int (length line)"
  using end_loop_bounds [OF assms [unfolded FindEndOfExpressionInLine_def]] by auto

lemma close_lines_bounds:
  "\<lbrakk>close_lines N ls k line stack = (l, n, p); p \<noteq> -1\<rbrakk> \<Longrightarrow>
   k < n \<and> n \<le> k + length ls \<and> l = ls ! (n - k - 1) \<and> 0 < p \<and> p \<le> int (length l)"
proof (induction ls arbitrary: k line stack)
  case (Cons line' ls)
  from Cons.prems obtain x st where st: "stack = Some (x # st)"
    by (auto split: option.splits list.splits)
  obtain e stack' where e: "FindEndOfExpressionInLine line' 0 (x # st) = (e, stack')" by fastforce
  show ?case
  proof (cases "e > -1")
    case True
    with Cons.prems st e FindEnd_bounds [OF e] show ?thesis by auto
  next
    case False
    with Cons.prems st e have "close_lines N ls (k + 1) line' stack' = (l, n, p)" by simp
    note IH = Cons.IH [OF this Cons.prems(2)]
    obtain m where "n = Suc (Suc k) + m" using IH le_Suc_ex [of "Suc (Suc k)" n] by auto
    with IH show ?thesis by auto
  qed
qed simp


section \<open>Balanced text\<close>

text \<open>
  Where the text has none of \<open><\<close>, \<open>>\<close> and \<open>;\<close>, whose meaning the searches have to guess,
  the specification is the usual one: text whose brackets are balanced.
\<close>

definition plain :: "char \<Rightarrow> bool" where
  "plain c \<longleftrightarrow> c \<notin> set ''<>;''"

inductive balanced :: "string \<Rightarrow> bool" where
  balanced_Nil: "balanced []"
| balanced_char: "\<lbrakk>\<not> is_open c; \<not> is_close c; balanced w\<rbrakk> \<Longrightarrow> balanced (c # w)"
| balanced_group: "\<lbrakk>bracket_pair l r; balanced u; balanced w\<rbrakk> \<Longrightarrow> balanced (l # u @ r # w)"

inductive bracketed :: "string \<Rightarrow> bool" where
  bracketedI: "\<lbrakk>bracket_pair l r; balanced w\<rbrakk> \<Longrightarrow> bracketed (l # w @ [r])"

text \<open>
  The searches as a machine that reads the text: how many characters were read when the
  expression closes, that it cannot close, or the stack left at the end.
\<close>

datatype scan = Closes nat | Mismatch | Pending string

fun shift :: "nat \<Rightarrow> scan \<Rightarrow> scan" where
  "shift k (Closes n) = Closes (k + n)"
| "shift k r = r"

fun read :: "string \<Rightarrow> string \<Rightarrow> scan" where
  "read [] st = Pending st"
| "read (c # cs) st =
     (if is_open c then shift 1 (read cs (c # st))
      else if is_close c then
        (case st of [] \<Rightarrow> Mismatch
         | l # st' \<Rightarrow> if bracket_pair l c then (if st' = [] then Closes 1 else shift 1 (read cs st')) else Mismatch)
      else shift 1 (read cs st))"

lemma shift_shift [simp]: "shift a (shift b r) = shift (a + b) r"
  by (cases r) auto

lemma shift_0 [simp]: "shift 0 r = r"
  by (cases r) auto

lemma read_append:
  "read (u @ v) st = (case read u st of Pending st' \<Rightarrow> shift (length u) (read v st') | r \<Rightarrow> r)"
  by (induction u st rule: read.induct) (auto split: scan.splits list.splits)

lemma brackets [simp]:
  "bracket_pair l r \<Longrightarrow> is_open l" "bracket_pair l r \<Longrightarrow> is_close r"
  "bracket_pair l r \<Longrightarrow> \<not> is_open r" "bracket_pair l r \<Longrightarrow> \<not> is_close l"
  by (auto simp: bracket_pair_def is_open_def is_close_def)

lemma open_not_close: "is_open c \<Longrightarrow> \<not> is_close c"
  by (auto simp: is_open_def is_close_def)

lemma read_balanced: "balanced w \<Longrightarrow> st \<noteq> [] \<Longrightarrow> read w st = Pending st"
  by (induction w arbitrary: st rule: balanced.induct) (auto simp: read_append)

lemma read_bracketed: "bracketed t \<Longrightarrow> read (t @ v) [] = Closes (length t)"
  by (induction t rule: bracketed.induct) (auto simp: read_append read_balanced)

lemma balanced_append: "balanced u \<Longrightarrow> balanced v \<Longrightarrow> balanced (u @ v)"
  by (induction u rule: balanced.induct) (auto intro: balanced.intros)

text \<open>What was read when a stack of open brackets is emptied.\<close>

fun closing :: "string \<Rightarrow> string \<Rightarrow> bool" where
  "closing t [] \<longleftrightarrow> t = []"
| "closing t (l # st) \<longleftrightarrow> (\<exists>w r u. t = w @ r # u \<and> balanced w \<and> bracket_pair l r \<and> closing u st)"

lemma closing_char:
  "\<lbrakk>\<not> is_open c; \<not> is_close c; closing t (l # st)\<rbrakk> \<Longrightarrow> closing (c # t) (l # st)"
  by auto (metis append_Cons balanced_char)

lemma closingI:
  "\<lbrakk>balanced w; bracket_pair l r; closing u st\<rbrakk> \<Longrightarrow> closing (w @ r # u) (l # st)"
  by auto

lemma closing_open:
  assumes "closing t (l # m # st)" shows "closing (l # t) (m # st)"
proof -
  from assms obtain w r u w' r' u' where t: "t = w @ r # w' @ r' # u'" "balanced w"
    "bracket_pair l r" "balanced w'" "bracket_pair m r'" "closing u' st" by auto
  have "l # t = (l # w @ r # w') @ r' # u'" by (simp add: t)
  moreover have "closing ((l # w @ r # w') @ r' # u') (m # st)"
    by (rule closingI) (use t in \<open>auto intro: balanced_group\<close>)
  ultimately show ?thesis by simp
qed

lemma read_closes:
  "read s st = Closes n \<Longrightarrow> st \<noteq> [] \<Longrightarrow> n \<le> length s \<and> closing (take n s) st"
proof (induction s st arbitrary: n rule: read.induct)
  case (2 c cs st)
  obtain l st' where st: "st = l # st'" using 2(5) by (cases st) auto
  consider (left) "is_open c" | (right) "is_close c" "\<not> is_open c" | (char) "\<not> is_open c" "\<not> is_close c"
    by blast
  then show ?case
  proof cases
    case left
    with 2(4) obtain n' where n: "read cs (c # st) = Closes n'" "n = Suc n'"
      by (cases "read cs (c # st)") auto
    from 2(1) [OF left n(1)] have "n' \<le> length cs" "closing (take n' cs) (c # st)" by auto
    with closing_open [of "take n' cs" c l st'] st n show ?thesis by simp
  next
    case right
    with 2(4) st have p: "bracket_pair l c" by (auto split: if_splits)
    show ?thesis
    proof (cases "st' = []")
      case True
      with 2(4) right st p have "n = 1" by simp
      moreover have "closing [c] [l]" using p by (auto intro: balanced_Nil)
      ultimately show ?thesis using True st by simp
    next
      case False
      with 2(4) right st p obtain n' where n: "read cs st' = Closes n'" "n = Suc n'"
        by (cases "read cs st'") auto
      from 2(2) [OF right(2,1) st p False n(1) False]
      have "n' \<le> length cs" "closing (take n' cs) st'" by auto
      moreover have "closing (c # take n' cs) (l # st')"
        using closingI [OF balanced_Nil p calculation(2)] by simp
      ultimately show ?thesis using n st by simp
    qed
  next
    case char
    with 2(4) obtain n' where n: "read cs st = Closes n'" "n = Suc n'"
      by (cases "read cs st") auto
    from 2(3) [OF char n(1) 2(5)] have "n' \<le> length cs" "closing (take n' cs) (l # st')"
      using st by auto
    with closing_char [OF char] st n show ?thesis by (metis length_Cons Suc_le_mono take_Suc_Cons)
  qed
qed simp

lemma read_closes_iff:
  assumes "is_open l"
  shows "read (l # s) [] = Closes n \<longleftrightarrow> n \<le> length (l # s) \<and> bracketed (take n (l # s))"
proof
  assume "read (l # s) [] = Closes n"
  with assms obtain n' where n: "read s [l] = Closes n'" "n = Suc n'"
    by (cases "read s [l]") auto
  with read_closes [OF n(1)] have "n' \<le> length s" "closing (take n' s) [l]" by auto
  then show "n \<le> length (l # s) \<and> bracketed (take n (l # s))"
    using n(2) by (auto intro: bracketedI)
next
  assume n: "n \<le> length (l # s) \<and> bracketed (take n (l # s))"
  from read_bracketed [of "take n (l # s)" "drop n (l # s)"] n
  show "read (l # s) [] = Closes n" by (simp only: append_take_drop_id length_take) simp
qed


section \<open>The searches read the text\<close>

fun of_scan :: "nat \<Rightarrow> scan \<Rightarrow> string search" where
  "of_scan i (Closes n) = (int (i + n), None)"
| "of_scan i Mismatch = (-1, None)"
| "of_scan i (Pending st) = (-1, Some st)"

lemma plainD: "plain c \<Longrightarrow> c \<noteq> CHR ''<'' \<and> c \<noteq> CHR ''>'' \<and> c \<noteq> CHR '';''"
  by (simp add: plain_def)

lemma plain_not [simp]: "\<not> plain CHR ''<''" "\<not> plain CHR ''>''" "\<not> plain CHR '';''"
  by (simp_all add: plain_def)

lemma plain_stack: "list_all plain st \<Longrightarrow> dropWhile (\<lambda>c. c = CHR ''<'') st = st"
    "list_all plain st \<Longrightarrow> dropWhile (\<lambda>c. c = CHR ''>'') st = st"
  by (cases st; auto simp: plain_def)+

lemma end_loop_read:
  assumes "i \<le> length line" and "list_all plain (drop i line)" and "list_all plain st"
  shows "end_loop line [i..<length line] st = of_scan i (read (drop i line) st)"
  using assms
proof (induction "length line - i" arbitrary: i st)
  case 0
  then show ?case by simp
next
  case (Suc k)
  then have i: "i < length line" by simp
  have d: "drop i line = line ! i # drop (Suc i) line" by (simp add: Cons_nth_drop_Suc i)
  have u: "[i..<length line] = i # [Suc i..<length line]" by (rule upt_conv_Cons [OF i])
  have p: "plain (line ! i)" "list_all plain (drop (Suc i) line)" using Suc.prems(2) d by auto
  have IH: "end_loop line [Suc i..<length line] st' = of_scan (Suc i) (read (drop (Suc i) line) st')"
    if "list_all plain st'" for st'
    by (rule Suc.hyps(1)) (use Suc.hyps(2) i p(2) that in auto)
  have sh: "of_scan i (shift 1 r) = of_scan (Suc i) r" for r by (cases r) auto
  show ?case
    using plainD [OF p(1)] p(1) Suc.prems(3)
    by (cases st) (auto simp: u d end_step_def Let_def IH sh [simplified] plain_stack)
qed

lemma find_end_balanced:
  assumes "p < length line" and "is_open (line ! p)" and "list_all plain (drop p line)"
  shows "FindEndOfExpressionInLine line p [] = (int e, None) \<longleftrightarrow>
    p < e \<and> e \<le> length line \<and> bracketed (slice line p e)"
proof -
  have d: "drop p line = line ! p # drop (Suc p) line" using assms(1) by (simp add: Cons_nth_drop_Suc)
  have "FindEndOfExpressionInLine line p [] = of_scan p (read (drop p line) [])"
    using end_loop_read [of p line "[]"] assms by (simp add: FindEndOfExpressionInLine_def)
  moreover have "of_scan p r = (int e, None) \<longleftrightarrow> (\<exists>n. r = Closes n \<and> e = p + n)" for r
    by (cases r) auto
  ultimately have "FindEndOfExpressionInLine line p [] = (int e, None) \<longleftrightarrow>
    (\<exists>n. n \<le> length (drop p line) \<and> bracketed (take n (drop p line)) \<and> e = p + n)"
    using read_closes_iff [OF assms(2), of "drop (Suc p) line"] by (simp add: d [symmetric])
  moreover have "\<not> bracketed []" by (auto elim: bracketed.cases)
  ultimately show ?thesis using assms(1)
    by (auto simp: slice_def intro: exI [of _ "e - p"] intro!: gr0I)
qed


section \<open>The backward search mirrors the forward one\<close>

definition flip :: "char \<Rightarrow> char" where
  "flip c =
     (if c = CHR ''('' then CHR '')'' else if c = CHR '')'' then CHR ''(''
      else if c = CHR ''['' then CHR '']'' else if c = CHR '']'' then CHR ''[''
      else if c = CHR ''{'' then CHR ''}'' else if c = CHR ''}'' then CHR ''{'' else c)"

lemma flip_flip [simp]: "flip (flip c) = c"
  by (simp add: flip_def)

lemma flip_brackets [simp]:
  "is_open (flip c) \<longleftrightarrow> is_close c" "is_close (flip c) \<longleftrightarrow> is_open c" "plain (flip c) \<longleftrightarrow> plain c"
  "bracket_pair (flip r) (flip l) \<longleftrightarrow> bracket_pair l r"
  by (auto simp: flip_def is_open_def is_close_def plain_def bracket_pair_def)

definition mirror :: "string \<Rightarrow> string" where
  "mirror t = map flip (rev t)"

lemma mirror_mirror [simp]: "mirror (mirror t) = t"
  by (simp add: mirror_def rev_map comp_def)

lemma mirror_append [simp]: "mirror (u @ v) = mirror v @ mirror u"
  by (simp add: mirror_def)

lemma length_mirror [simp]: "length (mirror t) = length t"
  by (simp add: mirror_def)

lemma mirror_Cons: "mirror (c # t) = mirror t @ [flip c]"
  by (simp add: mirror_def)

lemma balanced_mirror: "balanced t \<Longrightarrow> balanced (mirror t)"
proof (induction t rule: balanced.induct)
  case balanced_Nil
  show ?case by (simp add: mirror_def balanced.balanced_Nil)
next
  case (balanced_char c w)
  then have "balanced [flip c]" by (intro balanced.balanced_char balanced.balanced_Nil) auto
  with balanced_char show ?case by (simp add: mirror_Cons balanced_append)
next
  case (balanced_group l r u w)
  then have "balanced (flip r # mirror u @ flip l # [])"
    by (intro balanced.balanced_group balanced.balanced_Nil) auto
  with balanced_group have "balanced (mirror w @ flip r # mirror u @ [flip l])"
    by (simp add: balanced_append)
  then show ?case by (simp add: mirror_Cons)
qed

lemma bracketed_mirror_imp: "bracketed t \<Longrightarrow> bracketed (mirror t)"
proof (induction t rule: bracketed.induct)
  case (bracketedI l r w)
  then have "bracketed (flip r # mirror w @ [flip l])"
    by (intro bracketed.bracketedI balanced_mirror) auto
  then show ?case by (simp add: mirror_Cons) (simp add: mirror_def)
qed

lemma bracketed_mirror: "bracketed (mirror t) \<longleftrightarrow> bracketed t"
  using bracketed_mirror_imp [of t] bracketed_mirror_imp [of "mirror t"] by auto

fun of_scan_back :: "nat \<Rightarrow> scan \<Rightarrow> string search" where
  "of_scan_back n (Closes k) = (int n - int k, None)"
| "of_scan_back n Mismatch = (-1, None)"
| "of_scan_back n (Pending st) = (-1, Some (map flip st))"

lemma start_loop_read:
  assumes "n \<le> length line" and "list_all plain (take n line)" and "list_all plain st"
  shows "start_loop line n st = of_scan_back n (read (mirror (take n line)) (map flip st))"
  using assms
proof (induction n arbitrary: st)
  case 0
  then show ?case by (simp add: mirror_def comp_def)
next
  case (Suc i)
  then have i: "i < length line" by simp
  have t: "take (Suc i) line = take i line @ [line ! i]" by (rule take_Suc_conv_app_nth [OF i])
  then have m: "mirror (take (Suc i) line) = flip (line ! i) # mirror (take i line)"
    by (simp add: mirror_def)
  have p: "plain (line ! i)" "list_all plain (take i line)" using Suc.prems(2) t by auto
  have IH: "start_loop line i st' = of_scan_back i (read (mirror (take i line)) (map flip st'))"
    if "list_all plain st'" for st'
    by (rule Suc.IH) (use i p(2) that in auto)
  have sh: "of_scan_back (Suc i) (shift (Suc 0) r) = of_scan_back i r" for r by (cases r) auto
  show ?case
    using plainD [OF p(1)] p(1) Suc.prems(3) open_not_close [of "line ! i"]
    by (cases st) (auto simp: m start_step_def Let_def IH sh plain_stack)
qed

lemma find_start_balanced:
  assumes "e < length line" and "is_close (line ! e)" and "list_all plain (take (Suc e) line)"
  shows "FindStartOfExpressionInLine line (int e) [] = (int p, None) \<longleftrightarrow>
    p \<le> e \<and> bracketed (slice line p (Suc e))"
proof -
  let ?t = "take (Suc e) line"
  have m: "mirror ?t = flip (line ! e) # mirror (take e line)"
    using assms(1) by (simp add: take_Suc_conv_app_nth mirror_def)
  have "FindStartOfExpressionInLine line (int e) [] = of_scan_back (Suc e) (read (mirror ?t) [])"
    using start_loop_read [of "Suc e" line "[]"] assms
    by (simp add: FindStartOfExpressionInLine_def nat_add_distrib)
  moreover have "of_scan_back (Suc e) (read (mirror ?t) []) = (int p, None) \<longleftrightarrow>
     (\<exists>n. read (mirror ?t) [] = Closes n \<and> int (Suc e) - int n = int p)"
    by (cases "read (mirror ?t) []") auto
  moreover have "read (mirror ?t) [] = Closes n \<longleftrightarrow> n \<le> Suc e \<and> bracketed (drop (Suc e - n) ?t)" for n
  proof -
    have "read (mirror ?t) [] = Closes n \<longleftrightarrow> n \<le> length (mirror ?t) \<and> bracketed (take n (mirror ?t))"
      using read_closes_iff [of "flip (line ! e)" "mirror (take e line)" n] assms(2) m by simp
    moreover have "take n (mirror ?t) = mirror (drop (length ?t - n) ?t)"
      by (simp add: mirror_def take_map take_rev)
    ultimately show ?thesis using assms(1) by (simp add: bracketed_mirror min_absorb2 Suc_leI)
  qed
  moreover have "drop p ?t = slice line p (Suc e)" for p by (simp add: slice_def drop_take)
  moreover have "\<not> bracketed []" by (auto elim: bracketed.cases)
  ultimately have "FindStartOfExpressionInLine line (int e) [] = (int p, None) \<longleftrightarrow>
     (\<exists>n. (n \<le> Suc e \<and> bracketed (slice line (Suc e - n) (Suc e))) \<and> int (Suc e) - int n = int p)"
    by simp
  also have "\<dots> \<longleftrightarrow> p \<le> Suc e \<and> bracketed (slice line p (Suc e))"
  proof
    assume "\<exists>n. (n \<le> Suc e \<and> bracketed (slice line (Suc e - n) (Suc e))) \<and> int (Suc e) - int n = int p"
    then obtain n where n: "n \<le> Suc e" "bracketed (slice line (Suc e - n) (Suc e))" "int (Suc e) - int n = int p"
      by blast
    then have "p = Suc e - n" by linarith
    with n show "p \<le> Suc e \<and> bracketed (slice line p (Suc e))" by simp
  next
    assume "p \<le> Suc e \<and> bracketed (slice line p (Suc e))"
    then show "\<exists>n. (n \<le> Suc e \<and> bracketed (slice line (Suc e - n) (Suc e))) \<and> int (Suc e) - int n = int p"
      by (intro exI [of _ "Suc e - p"]) (auto simp: of_nat_diff)
  qed
  also have "\<dots> \<longleftrightarrow> p \<le> e \<and> bracketed (slice line p (Suc e))"
    using \<open>\<not> bracketed []\<close> by (auto simp: slice_def le_Suc_eq)
  finally show ?thesis .
qed

text \<open>
  C19: on a line without angle brackets and without semicolons the forward and the backward search are
  inverse: from the opening bracket at \<open>p\<close> \<open>FindEndOfExpressionInLine\<close> finds the end \<open>e\<close>
  exactly when from the closing bracket before \<open>e\<close> \<open>FindStartOfExpressionInLine\<close> finds \<open>p\<close>.
\<close>

theorem bracket_searches_inverse:
  assumes "list_all plain line" and "p < e" and "e \<le> length line"
    and "is_open (line ! p)" and "is_close (line ! (e - 1))"
  shows "FindEndOfExpressionInLine line p [] = (int e, None) \<longleftrightarrow>
    FindStartOfExpressionInLine line (int e - 1) [] = (int p, None)"
proof -
  have "list_all plain (drop p line)" "list_all plain (take (Suc (e - 1)) line)"
    using assms(1) by (auto simp: list_all_iff dest: in_set_dropD in_set_takeD)
  moreover have "int e - 1 = int (e - 1)" "Suc (e - 1) = e" using assms(2) by auto
  ultimately show ?thesis
    using find_end_balanced [of p line e] find_start_balanced [of "e - 1" line p] assms by auto
qed


section \<open>Expressions over several lines\<close>

definition text_between :: "string list \<Rightarrow> nat \<Rightarrow> nat \<Rightarrow> nat \<Rightarrow> nat \<Rightarrow> string" where
  "text_between ls n p n' p' =
     (if n' = n then slice (ls ! n) p p'
      else drop p (ls ! n) @ concat (take (n' - n - 1) (drop (n + 1) ls)) @ take p' (ls ! n'))"

lemma read_pos: "read s st = Closes n \<Longrightarrow> 0 < n"
  by (induction s st arbitrary: n rule: read.induct)
     (auto split: if_splits list.splits elim: shift.elims)

lemma read_take: "read s st = Closes n \<Longrightarrow> n \<le> length s \<and> read (take n s) st = Closes n"
proof (induction s st arbitrary: n rule: read.induct)
  case (2 c cs st)
  have *: "\<exists>n'. r = Closes n' \<and> n = Suc n'" if "shift (Suc 0) r = Closes n" for r
    using that by (cases r) auto
  show ?case using 2 by (auto split: if_splits list.splits dest!: *)
qed simp

lemma read_take_iff: "p \<le> length s \<Longrightarrow> read (take p s) st = Closes p \<longleftrightarrow> read s st = Closes p"
proof
  assume "p \<le> length s" "read (take p s) st = Closes p"
  then show "read s st = Closes p" using read_append [of "take p s" "drop p s" st] by simp
qed (simp add: read_take)

lemma read_pending: "read s st = Pending st' \<Longrightarrow> st \<noteq> [] \<Longrightarrow> st' \<noteq> []"
proof (induction s st rule: read.induct)
  case (2 c cs st)
  have *: "r = Pending st'" if "shift (Suc 0) r = Pending st'" for r
    using that by (cases r) auto
  show ?case using 2 by (auto split: if_splits list.splits dest!: *)
qed simp

lemma read_pending_plain:
  "read s st = Pending st' \<Longrightarrow> list_all plain s \<Longrightarrow> list_all plain st \<Longrightarrow> list_all plain st'"
proof (induction s st rule: read.induct)
  case (2 c cs st)
  have *: "r = Pending st'" if "shift (Suc 0) r = Pending st'" for r
    using that by (cases r) auto
  show ?case using 2 by (auto split: if_splits list.splits dest!: *)
qed simp

definition closes_at :: "string list \<Rightarrow> string \<Rightarrow> nat \<Rightarrow> nat \<Rightarrow> bool" where
  "closes_at ls st m p \<longleftrightarrow> m < length ls \<and> 0 < p \<and> p \<le> length (ls ! m) \<and>
     read (concat (take m ls) @ take p (ls ! m)) st = Closes (length (concat (take m ls)) + p)"

lemma closes_at_0: "closes_at (l # ls) st 0 p \<longleftrightarrow> read l st = Closes p"
  using read_pos [of l st p] read_take [of l st p] read_take_iff [of p l st]
  by (auto simp: closes_at_def)

lemma closes_at_Suc:
  "closes_at (l # ls) st (Suc m) p \<longleftrightarrow> (\<exists>st'. read l st = Pending st' \<and> closes_at ls st' m p)"
proof (cases "read l st")
  case (Closes n)
  then have "n \<le> length l" using read_take by blast
  with Closes show ?thesis by (auto simp: closes_at_def read_append)
next
  case (Pending st')
  have "shift (length l) r = Closes (length l + k) \<longleftrightarrow> r = Closes k" for r k by (cases r) auto
  with Pending show ?thesis by (auto simp: closes_at_def read_append [of l] add.assoc)
qed (auto simp: closes_at_def read_append)

lemma close_lines_read:
  assumes "list_all (list_all plain) ls" and "list_all plain st" and "st \<noteq> []"
  shows "close_lines N ls k line (Some st) = (l, n, int p) \<longleftrightarrow>
    (\<exists>m. n = k + 1 + m \<and> closes_at ls st m p \<and> l = ls ! m)"
  using assms
proof (induction ls arbitrary: k line st)
  case Nil
  then show ?case by (simp add: closes_at_def)
next
  case (Cons x ls)
  have F: "FindEndOfExpressionInLine x 0 st = of_scan 0 (read x st)"
    using end_loop_read [of 0 x st] Cons.prems by (simp add: FindEndOfExpressionInLine_def)
  obtain a st0 where st: "st = a # st0" using Cons.prems(3) by (cases st) auto
  have split: "(\<exists>m. P m) \<longleftrightarrow> P 0 \<or> (\<exists>m. P (Suc m))" for P :: "nat \<Rightarrow> bool"
    by (metis not0_implies_Suc)
  have S: "(\<exists>m. n = k + 1 + m \<and> closes_at (x # ls) st m p \<and> l = (x # ls) ! m) \<longleftrightarrow>
      n = k + 1 \<and> read x st = Closes p \<and> l = x \<or>
      (\<exists>st'. read x st = Pending st' \<and>
        (\<exists>m. n = k + 2 + m \<and> closes_at ls st' m p \<and> l = ls ! m))"
    by (subst split) (auto simp: closes_at_0 closes_at_Suc)
  show ?case
  proof (cases "read x st")
    case (Closes j)
    with F st show ?thesis unfolding S by auto
  next
    case Mismatch
    have "close_lines N ls (Suc k) x None = (x, N, -1)" by (cases ls) auto
    with Mismatch F st show ?thesis unfolding S by auto
  next
    case (Pending st')
    then have st': "list_all plain st'" "st' \<noteq> []"
      using read_pending read_pending_plain Cons.prems by auto
    have "close_lines N (x # ls) k line (Some st) = close_lines N ls (k + 1) x (Some st')"
      using Pending F st by simp
    then show ?thesis using Cons.IH [OF _ st'] Cons.prems(1) Pending unfolding S by simp
  qed
qed

lemma not_shift: "is_open (hd t) \<Longrightarrow> \<not> matches shift_re t"
  by (cases t) (auto simp: Match_def match_at_None shift_re_def re_simps Ch_def is_open_def)

lemma open_text_closes:
  assumes "u = x # v" and "is_open x"
  shows "bracketed u \<longleftrightarrow> read u [] = Closes (length u)"
  using read_closes_iff [OF assms(2), of v "length u"] assms(1) by simp

lemma CloseExpression_read:
  assumes "NumLines c = length (elided c)" and "linenum < length (elided c)"
    and "pos < length (elided c ! linenum)" and "is_open (elided c ! linenum ! pos)"
    and "list_all plain (drop pos (elided c ! linenum))"
  shows "CloseExpression c linenum pos = Inr (case of_scan pos (read (drop pos (elided c ! linenum)) []) of (e, st) \<Rightarrow>
      if e > -1 then (elided c ! linenum, linenum, e)
      else close_lines (NumLines c) (drop (linenum + 1) (elided c)) linenum (elided c ! linenum) st)"
proof -
  let ?line = "elided c ! linenum"
  have "FindEndOfExpressionInLine ?line pos [] = of_scan pos (read (drop pos ?line) [])"
    using end_loop_read [of pos ?line "[]"] assms(3,5) by (simp add: FindEndOfExpressionInLine_def)
  moreover have "?line ! pos \<in> set ''({[<''" "\<not> matches shift_re (drop pos ?line)"
    using assms(3,4) not_shift [of "drop pos ?line"] by (auto simp: is_open_def Cons_nth_drop_Suc [symmetric])
  moreover have all: "take (NumLines c) (elided c) = elided c" using assms(1) by simp
  ultimately show ?thesis using assms(2,3) unfolding CloseExpression_def Let_def all by simp
qed

text \<open>The bracket is closed on its own line, or on a later one.\<close>

lemma bracketed_on_line:
  assumes "pos < length line" and "is_open (line ! pos)" and "q \<le> length line"
  shows "bracketed (slice line pos q) \<longleftrightarrow> pos < q \<and> read (drop pos line) [] = Closes (q - pos)"
proof (cases "pos < q")
  case True
  have "slice line pos q = line ! pos # take (q - pos - 1) (drop (Suc pos) line)"
    using True assms(1) by (simp add: slice_def Cons_nth_drop_Suc [symmetric] take_Cons')
  from open_text_closes [OF this assms(2)] True assms(3) show ?thesis
    using read_take_iff [of "q - pos" "drop pos line" "[]"] by (simp add: slice_def)
next
  case False
  have "\<not> bracketed []" by (auto elim: bracketed.cases)
  with False show ?thesis by (simp add: slice_def)
qed

lemma bracketed_over_lines:
  fixes ls :: "string list" and linenum pos :: nat
  defines "rest \<equiv> drop (linenum + 1) ls"
  assumes "linenum < length ls" and "pos < length (ls ! linenum)" and "is_open (ls ! linenum ! pos)"
    and "k < length rest" and "0 < q" and "q \<le> length (ls ! (linenum + 1 + k))"
  shows "bracketed (text_between ls linenum pos (linenum + 1 + k) q) \<longleftrightarrow>
    (\<exists>st. read (drop pos (ls ! linenum)) [] = Pending st \<and> closes_at rest st k q)"
proof -
  let ?t = "drop pos (ls ! linenum)"
  let ?u = "?t @ concat (take k rest) @ take q (rest ! k)"
  have "closes_at (?t # rest) [] (Suc k) q \<longleftrightarrow> read ?u [] = Closes (length ?u)"
    using assms by (simp add: closes_at_def add.assoc del: read.simps)
  also have "\<dots> \<longleftrightarrow> bracketed ?u"
    by (rule open_text_closes [OF _ assms(4), symmetric])
      (simp only: Cons_nth_drop_Suc [OF assms(3), symmetric] append.simps)
  also have "?u = text_between ls linenum pos (linenum + 1 + k) q"
    using assms by (simp add: text_between_def)
  finally show ?thesis using closes_at_Suc by simp
qed

lemma pending_open:
  assumes "pos < length line" and "is_open (line ! pos)" and "read (drop pos line) [] = Pending st"
  shows "st \<noteq> []"
proof -
  have "read (drop (Suc pos) line) [line ! pos] = Pending st"
    using assms by (cases "read (drop (Suc pos) line) [line ! pos]") (auto simp: Cons_nth_drop_Suc [symmetric])
  from read_pending [OF this] show ?thesis by simp
qed

text \<open>
  C1: on such lines \<open>CloseExpression\<close> returns a position exactly when the text from the
  opening bracket to that position, over any number of lines, is a bracket, balanced text and
  the matching closing bracket: it finds the closing bracket when there is one, and nothing else.
\<close>

theorem close_expression_balanced:
  assumes "NumLines c = length (elided c)" and "linenum < length (elided c)"
    and "pos < length (elided c ! linenum)" and "is_open (elided c ! linenum ! pos)"
    and "list_all (list_all plain) (elided c)"
  shows "CloseExpression c linenum pos = Inr (l, n, int p) \<longleftrightarrow>
    linenum \<le> n \<and> n < length (elided c) \<and> l = elided c ! n \<and>
    0 < p \<and> p \<le> length l \<and> bracketed (text_between (elided c) linenum pos n p)"
proof -
  let ?ls = "elided c" and ?line = "elided c ! linenum"
  let ?rest = "drop (linenum + 1) ?ls" and ?t = "drop pos ?line"
  have pl: "list_all plain ?t" "list_all (list_all plain) ?rest"
    using assms(2,5) by (auto simp: list_all_iff dest: in_set_dropD) (meson in_set_dropD nth_mem)
  note C = CloseExpression_read [OF assms(1-4) pl(1)]
  note same = bracketed_on_line [OF assms(3,4)] and later = bracketed_over_lines [OF assms(2-4)]
  show ?thesis
  proof (cases "read ?t []")
    case (Closes j)
    then have "j \<le> length ?t" using read_take by blast
    then have j: "pos + j \<le> length ?line" using assms(3) by simp
    have "\<not> bracketed (text_between ?ls linenum pos n p)"
      if "linenum < n" "n < length ?ls" "0 < p" "p \<le> length (?ls ! n)"
      using later [of "n - linenum - 1" p] that Closes by simp
    with same [of p] Closes C j read_pos [OF Closes] assms(2) show ?thesis
      by (auto simp: text_between_def)
  next
    case Mismatch
    have "close_lines (NumLines c) ?rest linenum ?line None = (?line, NumLines c, -1)"
      by (cases ?rest) auto
    moreover have "\<not> bracketed (text_between ?ls linenum pos n p)"
      if "linenum \<le> n" "n < length ?ls" "0 < p" "p \<le> length (?ls ! n)"
      using later [of "n - linenum - 1" p] same [of p] that Mismatch
      by (cases "n = linenum") (auto simp: text_between_def)
    ultimately show ?thesis using C Mismatch by auto
  next
    case (Pending st)
    with pending_open [OF assms(3,4)] read_pending_plain pl(1) have st: "st \<noteq> []" "list_all plain st" by fastforce+
    have "CloseExpression c linenum pos = Inr (l, n, int p) \<longleftrightarrow>
        (\<exists>k. n = linenum + 1 + k \<and> closes_at ?rest st k p \<and> l = ?rest ! k)"
      using C Pending close_lines_read [OF pl(2) st(2,1)] by simp
    also have "\<dots> \<longleftrightarrow> (\<exists>k. n = linenum + 1 + k \<and> n < length ?ls \<and> l = ?ls ! n \<and> 0 < p \<and> p \<le> length l \<and>
        bracketed (text_between ?ls linenum pos n p))"
      using later [of _ p] Pending assms(2) by (auto simp: closes_at_def)
    also have "\<dots> \<longleftrightarrow> linenum \<le> n \<and> n < length ?ls \<and> l = ?ls ! n \<and> 0 < p \<and> p \<le> length l \<and>
        bracketed (text_between ?ls linenum pos n p)"
      using same [of p] Pending by (auto simp: text_between_def le_eq_less_or_eq less_iff_Suc_add)
    finally show ?thesis .
  qed
qed

lemma close_expression_balanced_witness:
  "CloseExpression \<lparr>elided = [''f(a,'', ''  b[0])''], cl_lines = [], raw_lines = [], num_lines = 2,
     lines_without_raw_strings = []\<rparr> 0 1 = Inr (''  b[0])'', 1, int 7)"
proof -
  let ?c = "\<lparr>elided = [''f(a,'', ''  b[0])''], cl_lines = [], raw_lines = [], num_lines = 2,
     lines_without_raw_strings = []\<rparr>"
  have "read ''(a,  b[0])'' [] = Closes 10" by code_simp
  then have "bracketed ''(a,  b[0])''"
    using read_closes_iff [of "CHR ''(''" "''a,  b[0])''" 10] by (simp add: is_open_def)
  then have "bracketed (text_between (elided ?c) 0 1 1 7)" by (simp add: text_between_def)
  then show ?thesis
    using close_expression_balanced [of ?c 0 1 "''  b[0])''" 1 7]
    by (simp add: NumLines_def is_open_def plain_def)
qed

lemma bracket_searches_inverse_witness:
  "FindEndOfExpressionInLine ''f({a}[b])'' 1 [] = (int 9, None) \<and>
   FindStartOfExpressionInLine ''f({a}[b])'' (int 9 - 1) [] = (int 1, None)"
proof
  show found: "FindEndOfExpressionInLine ''f({a}[b])'' 1 [] = (int 9, None)" by code_simp
  have "FindEndOfExpressionInLine ''f({a}[b])'' 1 [] = (int 9, None) \<longleftrightarrow>
      FindStartOfExpressionInLine ''f({a}[b])'' (int 9 - 1) [] = (int 1, None)"
    by (rule bracket_searches_inverse) (simp_all add: plain_def is_open_def is_close_def)
  with found show "FindStartOfExpressionInLine ''f({a}[b])'' (int 9 - 1) [] = (int 1, None)" by blast
qed

text \<open>On any text, a position that \<open>CloseExpression\<close> returns is past a character of a line
  of the file and after the position where the search started.\<close>

lemma close_expression_bounds:
  assumes "CloseExpression c linenum pos = Inr (l, n, p)" and "p \<noteq> -1"
  shows "linenum \<le> n \<and> n < length (elided c) \<and> l = elided c ! n \<and>
    0 < p \<and> p \<le> int (length l) \<and> (n = linenum \<longrightarrow> int pos < p)"
proof -
  let ?line = "elided c ! linenum" and ?rest = "drop (linenum + 1) (take (NumLines c) (elided c))"
  obtain e st where e: "FindEndOfExpressionInLine ?line pos [] = (e, st)" by fastforce
  from assms(1) have b: "linenum < length (elided c)"
    by (auto simp: CloseExpression_def split: if_splits)
  have r: "(if e > -1 then (?line, linenum, e) else close_lines (NumLines c) ?rest linenum ?line st) = (l, n, p)"
    using assms e by (auto simp: CloseExpression_def Let_def split: if_splits)
  show ?thesis
  proof (cases "e > -1")
    case True
    with r FindEnd_bounds [OF e] b show ?thesis by auto
  next
    case False
    with r have "close_lines (NumLines c) ?rest linenum ?line st = (l, n, p)" by simp
    from close_lines_bounds [OF this assms(2)] b show ?thesis by (auto simp: nth_drop)
  qed
qed

text \<open>
  The forward search looks for \<open>operator\<close> in \<open>line[0:i-1]\<close>, which cuts off its last letter when
  the operator is written without a space: \<open>operator>\<close> closes a pending \<open><\<close>, although the
  comment of the code says that operator functions are ignored, as the backward search does.
\<close>

lemma operator_greater_not_ignored:
  "FindEndOfExpressionInLine ''<&T::operator>, int>'' 0 [] = (14, None)"
  "FindEndOfExpressionInLine ''<&T::operator >, int>'' 0 [] = (21, None)"
  by code_simp+

end
