(* ===== verification/Includes.thy ===== *)
theory Includes
  imports LintState
begin

text \<open>
  The class \<open>_IncludeState\<close> of \<open>build_support/cpplint.py\<close>: the includes seen so far and
  the state machine that checks the order of the include sections.  The section constants
  are a datatype with the order of their numbers.
\<close>

section \<open>Sections and header types\<close>

datatype header_type = C_SYS_HEADER | CPP_SYS_HEADER | LIKELY_MY_HEADER | POSSIBLE_MY_HEADER
  | OTHER_HEADER

datatype include_section = INITIAL_SECTION | MY_H_SECTION | C_SECTION | CPP_SECTION
  | OTHER_H_SECTION

primrec section_number :: "include_section \<Rightarrow> nat" where
  "section_number INITIAL_SECTION = 0"
| "section_number MY_H_SECTION = 1"
| "section_number C_SECTION = 2"
| "section_number CPP_SECTION = 3"
| "section_number OTHER_H_SECTION = 4"

instantiation include_section :: linorder
begin

definition less_eq_include_section :: "include_section \<Rightarrow> include_section \<Rightarrow> bool" where
  "less_eq_include_section a b \<longleftrightarrow> section_number a \<le> section_number b"

definition less_include_section :: "include_section \<Rightarrow> include_section \<Rightarrow> bool" where
  "less_include_section a b \<longleftrightarrow> section_number a < section_number b"

instance
proof
  fix a b :: include_section
  show "a \<le> b \<Longrightarrow> b \<le> a \<Longrightarrow> a = b"
    by (cases a; cases b) (simp_all add: less_eq_include_section_def)
qed (auto simp: less_eq_include_section_def less_include_section_def)

end

lemmas section_order = less_eq_include_section_def less_include_section_def

primrec type_name :: "header_type \<Rightarrow> string" where
  "type_name C_SYS_HEADER = ''C system header''"
| "type_name CPP_SYS_HEADER = ''C++ system header''"
| "type_name LIKELY_MY_HEADER = ''header this file implements''"
| "type_name POSSIBLE_MY_HEADER = ''header this file may implement''"
| "type_name OTHER_HEADER = ''other header''"

primrec section_name :: "include_section \<Rightarrow> string" where
  "section_name INITIAL_SECTION = ''... nothing. (This can't be an error.)''"
| "section_name MY_H_SECTION = ''a header this file implements''"
| "section_name C_SECTION = ''C system header''"
| "section_name CPP_SECTION = ''C++ system header''"
| "section_name OTHER_H_SECTION = ''other header''"

section \<open>State and operations\<close>

record include_state =
  include_list :: "(string \<times> linenum) list list"
  inc_section :: include_section
  last_header :: string

definition ResetSection :: "string \<Rightarrow> include_state \<Rightarrow> include_state" where
  "ResetSection directive s =
     (let s1 = s\<lparr>inc_section := INITIAL_SECTION, last_header := []\<rparr> in
      if directive \<in> set [''if'', ''ifdef'', ''ifndef'']
      then s1\<lparr>include_list := include_list s1 @ [[]]\<rparr>
      else if directive \<in> set [''else'', ''elif'']
      then s1\<lparr>include_list := butlast (include_list s1) @ [[]]\<rparr>
      else s1)"

definition init_include_state :: include_state where
  "init_include_state = ResetSection []
     \<lparr>include_list = [[]], inc_section = INITIAL_SECTION, last_header = []\<rparr>"

definition FindHeader :: "include_state \<Rightarrow> string \<Rightarrow> linenum" where
  "FindHeader s header =
     (case find (\<lambda>f. fst f = header) (concat (include_list s)) of None \<Rightarrow> -1 | Some f \<Rightarrow> snd f)"

definition SetLastHeader :: "string \<Rightarrow> include_state \<Rightarrow> include_state" where
  "SetLastHeader header_path s = s\<lparr>last_header := header_path\<rparr>"

definition CanonicalizeAlphabeticalOrder :: "string \<Rightarrow> string" where
  "CanonicalizeAlphabeticalOrder header_path =
     str_lower (str_replace (str_replace header_path ''-inl.h'' ''.h'') ''-'' ''_'')"

text \<open>\<open>^\s*#\s*include\b\<close>\<close>

definition include_line_re :: re where
  "include_line_re = Seqs [Bol, Star Space, Ch CHR ''#'', Star Space, Lit ''include'', Wb]"

text \<open>Strings compare by code points; the index \<open>-1\<close> is the last element.\<close>

definition IsInAlphabeticalOrder :: "include_state \<Rightarrow> string list \<Rightarrow> nat \<Rightarrow> string \<Rightarrow> bool" where
  "IsInAlphabeticalOrder s elided linenum header_path =
     (\<not> (header_path < last_header s \<and>
         matches include_line_re
           (elided ! (if linenum = 0 then length elided - 1 else linenum - 1))))"

definition CheckNextIncludeOrder :: "header_type \<Rightarrow> include_state \<Rightarrow> string \<times> include_state" where
  "CheckNextIncludeOrder header_type s =
     (let error_message = ''Found '' @ type_name header_type @ '' after '' @ section_name (inc_section s);
          last_section = inc_section s;
          wrong = (error_message, s\<lparr>last_header := []\<rparr>);
          right = (\<lambda>sec. ([], if last_section \<noteq> sec
                               then s\<lparr>inc_section := sec, last_header := []\<rparr>
                               else s\<lparr>inc_section := sec\<rparr>))
      in case header_type of
        C_SYS_HEADER \<Rightarrow> if inc_section s \<le> C_SECTION then right C_SECTION else wrong
      | CPP_SYS_HEADER \<Rightarrow> if inc_section s \<le> CPP_SECTION then right CPP_SECTION else wrong
      | LIKELY_MY_HEADER \<Rightarrow>
          if inc_section s \<le> MY_H_SECTION then right MY_H_SECTION else right OTHER_H_SECTION
      | POSSIBLE_MY_HEADER \<Rightarrow>
          if inc_section s \<le> MY_H_SECTION then right MY_H_SECTION else right OTHER_H_SECTION
      | OTHER_HEADER \<Rightarrow> right OTHER_H_SECTION)"

text \<open>The messages for the headers of a block, in order, and the state after them.\<close>

fun check_block :: "header_type list \<Rightarrow> include_state \<Rightarrow> string list \<times> include_state" where
  "check_block [] s = ([], s)"
| "check_block (h # hs) s =
     (case CheckNextIncludeOrder h s of (m, s') \<Rightarrow>
        (case check_block hs s' of (ms, s'') \<Rightarrow> (m # ms, s'')))"

section \<open>The order the state machine enforces\<close>

definition sys_headers :: "header_type set" where
  "sys_headers = {C_SYS_HEADER, CPP_SYS_HEADER}"

definition my_headers :: "header_type set" where
  "my_headers = {LIKELY_MY_HEADER, POSSIBLE_MY_HEADER}"

text \<open>A header of the file's own that follows a system header counts as an other header.\<close>

fun my_after_sys :: "header_type list \<Rightarrow> bool" where
  "my_after_sys [] = False"
| "my_after_sys (h # hs) =
     (h \<in> sys_headers \<and> (\<exists>x \<in> set hs. x \<in> my_headers) \<or> my_after_sys hs)"

definition in_other_section :: "header_type list \<Rightarrow> bool" where
  "in_other_section hs \<longleftrightarrow> OTHER_HEADER \<in> set hs \<or> my_after_sys hs"

definition section_after :: "header_type list \<Rightarrow> include_section" where
  "section_after hs =
     (if in_other_section hs then OTHER_H_SECTION
      else if CPP_SYS_HEADER \<in> set hs then CPP_SECTION
      else if C_SYS_HEADER \<in> set hs then C_SECTION
      else if set hs \<inter> my_headers \<noteq> {} then MY_H_SECTION
      else INITIAL_SECTION)"

lemma my_after_sys_snoc:
  "my_after_sys (hs @ [h]) \<longleftrightarrow> my_after_sys hs \<or> (h \<in> my_headers \<and> (\<exists>x \<in> set hs. x \<in> sys_headers))"
  by (induction hs) auto

lemma check_block_append:
  "check_block (hs @ hs') s =
     (case check_block hs s of (ms, s') \<Rightarrow>
        (case check_block hs' s' of (ms', s'') \<Rightarrow> (ms @ ms', s'')))"
  by (induction hs arbitrary: s) (simp_all split: prod.splits)

lemma step_section_after:
  assumes "inc_section s = section_after hs"
  shows "inc_section (snd (CheckNextIncludeOrder h s)) = section_after (hs @ [h])"
  using assms
  by (cases h)
    (auto simp: CheckNextIncludeOrder_def section_after_def in_other_section_def my_after_sys_snoc
      my_headers_def sys_headers_def section_order Let_def split: if_splits)

lemma check_block_section:
  "inc_section s = INITIAL_SECTION \<Longrightarrow> inc_section (snd (check_block hs s)) = section_after hs"
proof (induction hs rule: rev_induct)
  case Nil
  then show ?case by (simp add: section_after_def in_other_section_def my_headers_def)
next
  case (snoc h hs)
  from step_section_after [OF snoc.IH [OF snoc.prems], of h] show ?case
    by (simp add: check_block_append case_prod_beta)
qed

lemma message_iff:
  "fst (CheckNextIncludeOrder h s) \<noteq> [] \<longleftrightarrow>
     (h = C_SYS_HEADER \<and> C_SECTION < inc_section s) \<or>
     (h = CPP_SYS_HEADER \<and> CPP_SECTION < inc_section s)"
  by (cases h) (auto simp: CheckNextIncludeOrder_def Let_def)

text \<open>C31: In a block of includes that starts at a section reset, a header is reported as out of
  order exactly when it is a C system header that follows a C++ system header, an other
  header, or a header of the file's own that itself follows a system header, or a C++
  system header that follows one of the last two.  Own and other headers are never
  reported, although the comment in \<open>CheckIncludeLine\<close> says that an include of a lower type than
  one before it is complained about.\<close>

theorem include_order_reports:
  "fst (check_block (hs @ [h]) (ResetSection d s)) ! length hs \<noteq> [] \<longleftrightarrow>
     (h = C_SYS_HEADER \<and> (CPP_SYS_HEADER \<in> set hs \<or> OTHER_HEADER \<in> set hs \<or> my_after_sys hs)) \<or>
     (h = CPP_SYS_HEADER \<and> (OTHER_HEADER \<in> set hs \<or> my_after_sys hs))"
proof -
  let ?s = "ResetSection d s"
  have init: "inc_section ?s = INITIAL_SECTION" by (simp add: ResetSection_def Let_def)
  have len: "length (fst (check_block hs s)) = length hs" for s
    by (induction hs arbitrary: s) (simp_all add: case_prod_beta)
  have "fst (check_block (hs @ [h]) ?s) ! length hs =
      fst (CheckNextIncludeOrder h (snd (check_block hs ?s)))"
    using len [of ?s] by (simp add: check_block_append nth_append case_prod_beta)
  then show ?thesis
    by (auto simp: message_iff check_block_section [OF init] section_after_def in_other_section_def
      section_order)
qed

section \<open>Canonical header paths\<close>

text \<open>Characters that the alphabetical comparison does not tell apart.\<close>

definition same_letter :: "char \<Rightarrow> char \<Rightarrow> bool" where
  "same_letter a b \<longleftrightarrow> lower_char a = lower_char b \<or> a \<in> set ''-_'' \<and> b \<in> set ''-_''"

lemma canonical_inl:
  "\<not> endswith stem ''-inl'' \<Longrightarrow>
   CanonicalizeAlphabeticalOrder (stem @ ''-inl.h'') = CanonicalizeAlphabeticalOrder (stem @ ''.h'')"
proof -
  assume stem: "\<not> endswith stem ''-inl''"
  have "startswith v ''-inl.h''" if "stem = u @ v" "v \<noteq> []" "startswith (v @ ''-inl.h'') ''-inl.h''" for u v
    using that(2,3) by (auto simp: startswith_def take_Cons' Cons_eq_append_conv append_eq_Cons_conv split: if_splits)
  then have "str_replace (stem @ ''-inl.h'') ''-inl.h'' ''.h'' = str_replace stem ''-inl.h'' ''.h'' @ ''.h''"
    by (subst str_replace_append) auto
  moreover have "startswith v ''-inl.h''" if "stem = u @ v" "v \<noteq> []" "startswith (v @ ''.h'') ''-inl.h''" for u v
  proof -
    from that(3) obtain w where "v @ ''.h'' = ''-inl.h'' @ w" unfolding startswith_iff by blast
    then consider us where "v = ''-inl.h'' @ us" | us where "''-inl.h'' = v @ us" "us @ w = ''.h''"
      unfolding append_eq_append_conv2 by metis
    then show ?thesis
    proof cases
      case (2 us)
      then have "us = [] \<or> us = ''.'' \<or> us = ''.h''" by (auto simp: append_eq_Cons_conv)
      moreover have "rev ''-inl.h'' = rev us @ rev v" using 2(1) by simp
      ultimately have "v = ''-inl.h'' \<or> v = ''-inl''" by (elim disjE) (auto simp: rev_swap dest: sym [of _ "rev v"])
      then show ?thesis using stem that(1) by (auto simp: endswith_iff)
    qed (simp add: startswith_iff)
  qed
  then have "str_replace (stem @ ''.h'') ''-inl.h'' ''.h'' = str_replace stem ''-inl.h'' ''.h'' @ ''.h''"
    by (subst str_replace_append) auto
  ultimately show ?thesis by (simp add: CanonicalizeAlphabeticalOrder_def)
qed

lemma same_letter_iff:
  "lower_char (if a = CHR ''-'' then CHR ''_'' else a) = lower_char (if b = CHR ''-'' then CHR ''_'' else b) \<longleftrightarrow>
   same_letter a b"
proof -
  have "lower_char CHR ''_'' = CHR ''_''" "lower_char CHR ''-'' = CHR ''-''"
    by (simp_all add: lower_char_underscore lower_char_dash)
  then show ?thesis
    using lower_char_underscore [of a] lower_char_underscore [of b] lower_char_dash [of a] lower_char_dash [of b]
    by (auto simp: same_letter_def)
qed

text \<open>C36: For the alphabetical order an include of \<open>x-inl.h\<close> counts as \<open>x.h\<close>, and two headers
  that do not contain \<open>-inl.h\<close> count as the same exactly if they differ at most in the case of
  letters and in dashes against underscores.\<close>

theorem canonical_headers:
  assumes "\<not> endswith stem ''-inl''" and "str_find p ''-inl.h'' = None" and "str_find q ''-inl.h'' = None"
  shows "CanonicalizeAlphabeticalOrder (stem @ ''-inl.h'') = CanonicalizeAlphabeticalOrder (stem @ ''.h'') \<and>
    (CanonicalizeAlphabeticalOrder p = CanonicalizeAlphabeticalOrder q \<longleftrightarrow> list_all2 same_letter p q)"
proof -
  have canon: "CanonicalizeAlphabeticalOrder x = map (\<lambda>c. lower_char (if c = CHR ''-'' then CHR ''_'' else c)) x"
    if "str_find x ''-inl.h'' = None" for x
    using that by (simp add: CanonicalizeAlphabeticalOrder_def str_lower_def str_find_None str_replace_absent str_replace_char)
  have "map f p = map f q \<longleftrightarrow> list_all2 (\<lambda>a b. f a = f b) p q" for f :: "char \<Rightarrow> char"
    by (simp only: list_all2_eq list_all2_map1 list_all2_map2)
  then have "CanonicalizeAlphabeticalOrder p = CanonicalizeAlphabeticalOrder q \<longleftrightarrow> list_all2 same_letter p q"
    unfolding canon [OF assms(2)] canon [OF assms(3)] by (simp only: same_letter_iff)
  with canonical_inl [OF assms(1)] show ?thesis by simp
qed

lemma canonical_headers_witness:
  "CanonicalizeAlphabeticalOrder ''a/b-inl.h'' = CanonicalizeAlphabeticalOrder ''a/b.h'' \<and>
   CanonicalizeAlphabeticalOrder ''My-Map.h'' = CanonicalizeAlphabeticalOrder ''my_map.h''"
proof -
  have "\<not> endswith ''a/b'' ''-inl''" "str_find ''My-Map.h'' ''-inl.h'' = None" "str_find ''my_map.h'' ''-inl.h'' = None"
    by code_simp+
  moreover have "list_all2 same_letter ''My-Map.h'' ''my_map.h''" by code_simp
  ultimately show ?thesis using canonical_headers [of "''a/b''" "''My-Map.h''" "''my_map.h''"] by simp
qed

end
