(* ===== verification/Paths.thy ===== *)
theory Paths
  imports LintState
begin

text \<open>
  File names: the functions of \<open>os.path\<close> (POSIX) that \<open>build_support/cpplint.py\<close> uses, the
  class \<open>FileInfo\<close>, \<open>PathSplitToList\<close> and \<open>GetHeaderGuardCPPVariable\<close>.  The current
  directory and the existence of paths are fields of an environment.  The walk up a
  Subversion checkout need not end, so what depends on it is an option: \<open>None\<close> means that
  the call does not return.
\<close>

section \<open>\<open>os.path\<close>\<close>

record os_env =
  cwd :: string
  path_exists :: "string \<Rightarrow> bool"

abbreviation slash :: char where "slash \<equiv> CHR 0x2F"

definition os_split :: "string \<Rightarrow> string \<times> string" where
  "os_split p =
     (let head = rev (dropWhile (\<lambda>c. c \<noteq> slash) (rev p));
          tail = rev (takeWhile (\<lambda>c. c \<noteq> slash) (rev p))
      in (if head \<noteq> [] \<and> list_ex (\<lambda>c. c \<noteq> slash) head
          then rev (dropWhile (\<lambda>c. c = slash) (rev head)) else head, tail))"

definition os_dirname :: "string \<Rightarrow> string" where
  "os_dirname p = fst (os_split p)"

definition os_splitext :: "string \<Rightarrow> string \<times> string" where
  "os_splitext p =
     (let base = snd (os_split p);
          ext = rev (takeWhile (\<lambda>c. c \<noteq> CHR ''.'') (rev base));
          root = take (length base - Suc (length ext)) base
      in if CHR ''.'' \<in> set base \<and> list_ex (\<lambda>c. c \<noteq> CHR ''.'') root
         then (take (length p - Suc (length ext)) p, CHR ''.'' # ext) else (p, []))"

definition join2 :: "string \<Rightarrow> string \<Rightarrow> string" where
  "join2 path b =
     (if startswith b [slash] then b
      else if path = [] \<or> endswith path [slash] then path @ b
      else path @ slash # b)"

definition os_join :: "string list \<Rightarrow> string" where
  "os_join ps = (case ps of [] \<Rightarrow> [] | a # rest \<Rightarrow> foldl join2 a rest)"

fun norm_comps :: "bool \<Rightarrow> string list \<Rightarrow> string list \<Rightarrow> string list" where
  "norm_comps absolute [] new_comps = new_comps"
| "norm_comps absolute (c # comps) new_comps =
     (if c = [] \<or> c = ''.'' then norm_comps absolute comps new_comps
      else if c \<noteq> ''..'' \<or> (\<not> absolute \<and> new_comps = []) \<or>
              (new_comps \<noteq> [] \<and> last new_comps = ''..'')
      then norm_comps absolute comps (new_comps @ [c])
      else norm_comps absolute comps (butlast new_comps))"

definition os_normpath :: "string \<Rightarrow> string" where
  "os_normpath path =
     (if path = [] then ''.''
      else let slashes = (if \<not> startswith path [slash] then []
                 else if startswith path [slash, slash] \<and> \<not> startswith path [slash, slash, slash]
                 then [slash, slash] else [slash]);
               result = slashes @ str_join [slash]
                 (norm_comps (slashes \<noteq> []) (str_split slash path) [])
           in if result = [] then ''.'' else result)"

definition os_abspath :: "os_env \<Rightarrow> string \<Rightarrow> string" where
  "os_abspath env path =
     os_normpath (if startswith path [slash] then path else join2 (cwd env) path)"

fun common_prefix :: "'a list \<Rightarrow> 'a list \<Rightarrow> 'a list" where
  "common_prefix (x # xs) (y # ys) = (if x = y then x # common_prefix xs ys else [])"
| "common_prefix _ _ = []"

definition os_relpath :: "os_env \<Rightarrow> string \<Rightarrow> string \<Rightarrow> string" where
  "os_relpath env path start =
     (let comps = (\<lambda>p. filter (\<lambda>x. x \<noteq> []) (str_split slash (os_abspath env p)));
          start_list = comps start;
          path_list = comps path;
          i = length (common_prefix start_list path_list);
          rel_list = replicate (length start_list - i) ''..'' @ drop i path_list
      in if rel_list = [] then ''.'' else os_join rel_list)"

section \<open>Facts on \<open>os.path.split\<close>\<close>

lemma os_dirname_prefix: "\<exists>t. p = os_dirname p @ t"
proof -
  have rev_drop: "\<exists>t. xs = rev (dropWhile P (rev xs)) @ t" for P and xs :: string
  proof
    have "rev xs = takeWhile P (rev xs) @ dropWhile P (rev xs)" by simp
    then show "xs = rev (dropWhile P (rev xs)) @ rev (takeWhile P (rev xs))"
      by (metis rev_append rev_rev_ident)
  qed
  obtain t u where t: "p = rev (dropWhile (\<lambda>c. c \<noteq> slash) (rev p)) @ t"
    and u: "rev (dropWhile (\<lambda>c. c \<noteq> slash) (rev p)) =
      rev (dropWhile (\<lambda>c. c = slash) (rev (rev (dropWhile (\<lambda>c. c \<noteq> slash) (rev p))))) @ u"
    using rev_drop by blast
  show ?thesis
  proof (cases "fst (os_split p) = rev (dropWhile (\<lambda>c. c \<noteq> slash) (rev p))")
    case True
    with t show ?thesis by (metis os_dirname_def)
  next
    case False
    then have "os_dirname p =
        rev (dropWhile (\<lambda>c. c = slash) (rev (rev (dropWhile (\<lambda>c. c \<noteq> slash) (rev p)))))"
      by (auto simp: os_dirname_def os_split_def Let_def split: if_splits)
    with t u show ?thesis by (metis append_assoc)
  qed
qed

lemma os_dirname_shorter: "os_dirname p \<noteq> p \<Longrightarrow> length (os_dirname p) < length p"
  using os_dirname_prefix [of p] by (metis append_Nil2 length_append length_greater_0_conv
    less_add_same_cancel1)

lemma os_split_join:
  assumes "slash \<notin> set w" and "h \<noteq> []" and "last h \<noteq> slash"
  shows "os_split (h @ slash # w) = (h, w)"
proof -
  have tw: "takeWhile (\<lambda>c. c \<noteq> slash) (rev w @ slash # rev h) = rev w"
    "dropWhile (\<lambda>c. c \<noteq> slash) (rev w @ slash # rev h) = slash # rev h"
    using span_stop [of "rev w" "\<lambda>c. c \<noteq> slash" slash "rev h"] assms(1) by auto
  have "dropWhile (\<lambda>c. c = slash) (rev h) = rev h"
    using assms(2,3) by (cases h rule: rev_cases) auto
  moreover have "list_ex (\<lambda>c. c \<noteq> slash) h"
    using assms(2,3) by (auto simp: list_ex_iff intro!: bexI [of _ "last h"])
  ultimately show ?thesis by (simp add: os_split_def tw)
qed

lemma os_split_no_slash:
  assumes "slash \<notin> set w"
  shows "os_split w = ([], w)"
proof -
  have "takeWhile (\<lambda>c. c \<noteq> slash) (rev w) = rev w" and "dropWhile (\<lambda>c. c \<noteq> slash) (rev w) = []"
    using span_all [of "rev w" "\<lambda>c. c \<noteq> slash"] assms by auto
  then show ?thesis by (simp only: os_split_def Let_def rev_rev_ident) simp
qed

section \<open>\<open>PathSplitToList\<close>\<close>

function split_loop :: "string \<Rightarrow> string list" where
  "split_loop path =
     (let (head, tail) = os_split path in
      if head = path then [head]
      else if tail = path then [tail]
      else tail # split_loop head)"
  by pat_completeness auto
termination
  by (relation "measure length") (use os_dirname_shorter in \<open>auto simp: os_dirname_def split_beta prod_eq_iff\<close>)

declare split_loop.simps [simp del]

definition PathSplitToList :: "string \<Rightarrow> string list" where
  "PathSplitToList path = rev (split_loop path)"

lemma join_last_component:
  assumes "ws \<noteq> []" and "\<forall>w \<in> set ws. w \<noteq> [] \<and> slash \<notin> set w"
  shows "str_join [slash] ws \<noteq> [] \<and> last (str_join [slash] ws) \<noteq> slash"
  using assms
proof (induction "[slash]" ws rule: str_join.induct)
  case (2 w)
  then show ?case by (metis last_in_set list.set_intros(1) str_join.simps(2))
qed auto

lemma split_loop_join:
  assumes "ws \<noteq> []" and "\<forall>w \<in> set ws. w \<noteq> [] \<and> slash \<notin> set w"
  shows "split_loop (str_join [slash] ws) = rev ws \<and>
    split_loop (slash # str_join [slash] ws) = rev ws @ [[slash]]"
  using assms
proof (induction ws rule: rev_induct)
  case (snoc w ws)
  have w: "w \<noteq> []" "slash \<notin> set w" using snoc.prems by auto
  show ?case
  proof (cases "ws = []")
    case True
    have root: "os_split [slash] = ([slash], [])" by (simp add: os_split_def)
    have "takeWhile (\<lambda>c. c \<noteq> slash) (rev w @ [slash]) = rev w"
      "dropWhile (\<lambda>c. c \<noteq> slash) (rev w @ [slash]) = [slash]"
      using span_stop [of "rev w" "\<lambda>c. c \<noteq> slash" slash "[]"] w(2) by auto
    then have "os_split (slash # w) = ([slash], w)" by (simp add: os_split_def)
    moreover have "[slash] \<noteq> slash # w" "w \<noteq> slash # w" using w by auto
    ultimately show ?thesis
      using w os_split_no_slash [OF w(2)] root True
      by (simp add: split_loop.simps [of w] split_loop.simps [of "slash # w"]
          split_loop.simps [of "[slash]"])
  next
    case False
    have h: "str_join [slash] ws \<noteq> []" "last (str_join [slash] ws) \<noteq> slash"
      using join_last_component [OF False] snoc.prems by auto
    let ?j = "str_join [slash] ws"
    have "os_split (?j @ slash # w) = (?j, w)" "os_split ((slash # ?j) @ slash # w) = (slash # ?j, w)"
      using os_split_join [OF w(2), of ?j] os_split_join [OF w(2), of "slash # ?j"] h by auto
    moreover have "split_loop ?j = rev ws \<and> split_loop (slash # ?j) = rev ws @ [[slash]]"
      using snoc False by auto
    moreover have "w \<noteq> ?j @ slash # w" "w \<noteq> slash # ?j @ slash # w"
      using w(2) by (auto dest: arg_cong [where f = set])
    ultimately show ?thesis
      by (simp add: str_join_snoc [OF False] split_loop.simps [of "?j @ slash # w"]
          split_loop.simps [of "slash # ?j @ slash # w"])
  qed
qed simp

text \<open>C28: \<open>PathSplitToList\<close> inverts joining: for non-empty components without a slash, the
  relative path that joins them is split back into them, and the absolute path into the
  root followed by them: unlike the list without a root that the comment of the function shows
  for an absolute path.\<close>

theorem path_split_roundtrip:
  assumes "ws \<noteq> []" and "\<forall>w \<in> set ws. w \<noteq> [] \<and> slash \<notin> set w"
  shows "PathSplitToList (str_join [slash] ws) = ws \<and>
    PathSplitToList (slash # str_join [slash] ws) = [slash] # ws"
  using split_loop_join [OF assms] by (simp add: PathSplitToList_def)

lemma path_split_roundtrip_witness:
  "PathSplitToList ''src/parse/lexer.h'' = [''src'', ''parse'', ''lexer.h'']"
  using path_split_roundtrip [of "[''src'', ''parse'', ''lexer.h'']"] by simp

section \<open>File extensions\<close>

text \<open>A Python set of extensions is a list; only membership is used, but for the order in which
  \<open>CheckHeaderFileIncluded\<close> tries the header extensions.\<close>

definition ProcessHppHeadersOption :: "string \<Rightarrow> lint_globals \<Rightarrow> lint_globals" where
  "ProcessHppHeadersOption val g = g\<lparr>hpp_headers := remdups (map strip (str_split CHR '','' val))\<rparr>"

definition GetHeaderExtensions :: "lint_globals \<Rightarrow> string list" where
  "GetHeaderExtensions g =
     (if hpp_headers g \<noteq> [] then hpp_headers g
      else if valid_extensions g \<noteq> [] then filter (\<lambda>h. CHR ''h'' \<in> set h) (valid_extensions g)
      else [''h'', ''hh'', ''hpp'', ''hxx'', ''h++'', ''cuh''])"

definition IsHeaderExtension :: "lint_globals \<Rightarrow> string \<Rightarrow> bool" where
  "IsHeaderExtension g file_extension \<longleftrightarrow> file_extension \<in> set (GetHeaderExtensions g)"

definition GetAllExtensions :: "lint_globals \<Rightarrow> string list" where
  "GetAllExtensions g = remdups (GetHeaderExtensions g @
     (if valid_extensions g \<noteq> [] then valid_extensions g
      else [''c'', ''cc'', ''cpp'', ''cxx'', ''c++'', ''cu'']))"

definition ProcessExtensionsOption :: "string \<Rightarrow> lint_globals \<Rightarrow> lint_globals" where
  "ProcessExtensionsOption val g =
     g\<lparr>valid_extensions := remdups (map strip (str_split CHR '','' val))\<rparr>"

definition GetNonHeaderExtensions :: "lint_globals \<Rightarrow> string list" where
  "GetNonHeaderExtensions g =
     filter (\<lambda>e. e \<notin> set (GetHeaderExtensions g)) (GetAllExtensions g)"

definition IsSourceExtension :: "lint_globals \<Rightarrow> string \<Rightarrow> bool" where
  "IsSourceExtension g s \<longleftrightarrow> s \<in> set (GetNonHeaderExtensions g)"

section \<open>\<open>FileInfo\<close>\<close>

definition FullName :: "os_env \<Rightarrow> string \<Rightarrow> string" where
  "FullName env filename = str_replace (os_abspath env filename) [CHR 0x5C] [slash]"

definition exists_in :: "os_env \<Rightarrow> string \<Rightarrow> string \<Rightarrow> bool" where
  "exists_in env d f = path_exists env (os_join [d, f])"

text \<open>The walk up to the directory given by \<open>--repository\<close>.\<close>

function repository_up :: "os_env \<Rightarrow> string \<Rightarrow> string \<Rightarrow> string option" where
  "repository_up env repo root_dir =
     (if \<not> path_exists env root_dir then None
      else if root_dir = repo then Some root_dir
      else if os_dirname root_dir = root_dir then None
      else repository_up env repo (os_dirname root_dir))"
  by pat_completeness auto
termination
  by (relation "measure (\<lambda>(env, repo, d). length d)") (auto simp: os_dirname_shorter)

declare repository_up.simps [simp del]

text \<open>The walk up a Subversion checkout.\<close>

partial_function (option) svn_up :: "os_env \<Rightarrow> string \<Rightarrow> string \<Rightarrow> string option" where
  "svn_up env root_dir one_up_dir =
     (if exists_in env one_up_dir ''.svn''
      then svn_up env (os_dirname root_dir) (os_dirname one_up_dir)
      else Some root_dir)"

declare svn_up.simps [code]

definition has_vcs :: "os_env \<Rightarrow> string \<Rightarrow> bool" where
  "has_vcs env d \<longleftrightarrow> exists_in env d ''.git'' \<or> exists_in env d ''.hg'' \<or> exists_in env d ''.svn''"

text \<open>The search for the topmost directory with a \<open>.git\<close>, \<open>.hg\<close> or \<open>.svn\<close>.\<close>

function vcs_up :: "os_env \<Rightarrow> string \<Rightarrow> string \<Rightarrow> string" where
  "vcs_up env current_dir root_dir =
     (if current_dir = os_dirname current_dir then root_dir
      else vcs_up env (os_dirname current_dir)
             (if has_vcs env current_dir then current_dir else root_dir))"
  by pat_completeness auto
termination
  by (relation "measure (\<lambda>(env, d, r). length d)") (auto simp: os_dirname_shorter)

declare vcs_up.simps [simp del]

definition RepositoryName :: "os_env \<Rightarrow> string option \<Rightarrow> string \<Rightarrow> string option" where
  "RepositoryName env repository filename =
     (let fullname = FullName env filename in
      if \<not> path_exists env fullname then Some fullname
      else let project_dir = os_dirname fullname;
               in_repo = (case repository of
                   None \<Rightarrow> None
                 | Some r \<Rightarrow> if r = [] then None
                     else repository_up env (FullName env r) project_dir)
        in case in_repo of
             Some root_dir \<Rightarrow>
               Some (str_replace (os_relpath env fullname root_dir) [CHR 0x5C] [slash])
           | None \<Rightarrow>
               if exists_in env project_dir ''.svn''
               then Option.bind (svn_up env project_dir (os_dirname project_dir))
                 (\<lambda>root_dir. Some (drop (length (common_prefix root_dir project_dir) + 1) fullname))
               else let root_dir = vcs_up env project_dir project_dir in
                 if has_vcs env root_dir
                 then Some (drop (length (common_prefix root_dir project_dir) + 1) fullname)
                 else Some fullname)"

definition FileInfo_Split :: "os_env \<Rightarrow> string option \<Rightarrow> string \<Rightarrow> (string \<times> string \<times> string) option" where
  "FileInfo_Split env repository filename =
     map_option (\<lambda>googlename. case os_split googlename of (project, rest) \<Rightarrow> (project, os_splitext rest))
       (RepositoryName env repository filename)"

definition BaseName :: "os_env \<Rightarrow> string option \<Rightarrow> string \<Rightarrow> string option" where
  "BaseName env repository filename =
     map_option (\<lambda>(d, b, e). b) (FileInfo_Split env repository filename)"

definition Extension :: "os_env \<Rightarrow> string option \<Rightarrow> string \<Rightarrow> string option" where
  "Extension env repository filename =
     map_option (\<lambda>(d, b, e). e) (FileInfo_Split env repository filename)"

definition NoExtension :: "os_env \<Rightarrow> string option \<Rightarrow> string \<Rightarrow> string option" where
  "NoExtension env repository filename =
     map_option (\<lambda>(d, b, e). str_join [slash] [d, b]) (FileInfo_Split env repository filename)"

definition IsSource :: "lint_globals \<Rightarrow> os_env \<Rightarrow> string \<Rightarrow> bool option" where
  "IsSource g env filename =
     map_option (\<lambda>e. IsSourceExtension g (tl e)) (Extension env (repository_flag g) filename)"

section \<open>\<open>GetHeaderGuardCPPVariable\<close>\<close>

text \<open>\<open>_flymake\.h$\<close> and \<open>/\.flymake/([^/]*)$\<close>\<close>

definition flymake_suffix_re :: re where
  "flymake_suffix_re = Seq (Lit ''_flymake.h'') Eol"

definition flymake_dir_re :: re where
  "flymake_dir_re = Seqs [Lit ''/.flymake/'', Grp 1 (Star (NoneOf ''/'')), Eol]"

definition StripListPrefix :: "string list \<Rightarrow> string list \<Rightarrow> string list option" where
  "StripListPrefix lst pre =
     (if take (length pre) lst \<noteq> pre then None else Some (drop (length pre) lst))"

text \<open>The nested function, for the path from the repository root; the debug output of the
  disabled \<open>_root_debug\<close> is left out.  An empty list of components counts as no match.\<close>

definition FixupPathFromRoot :: "os_env \<Rightarrow> string option \<Rightarrow> string \<Rightarrow> string \<Rightarrow> string" where
  "FixupPathFromRoot env root filename file_path_from_root =
     (case root of None \<Rightarrow> file_path_from_root
      | Some r \<Rightarrow>
          if r = [] then file_path_from_root
          else case StripListPrefix (PathSplitToList file_path_from_root) (PathSplitToList r) of
            Some (c # cs) \<Rightarrow> os_join (c # cs)
          | _ \<Rightarrow> (case StripListPrefix (PathSplitToList (FullName env filename))
                        (PathSplitToList (os_abspath env r)) of
              Some (c # cs) \<Rightarrow> os_join (c # cs)
            | _ \<Rightarrow> file_path_from_root))"

definition guard_chars :: "string \<Rightarrow> string" where
  "guard_chars path = str_upper (re_sub
     (Cls (\<lambda>c. \<not> (is_lower_ascii c \<or> is_upper_ascii c \<or> is_digit c))) ''_'' path) @ ''_''"

definition GetHeaderGuardCPPVariable ::
  "os_env \<Rightarrow> string option \<Rightarrow> string option \<Rightarrow> string \<Rightarrow> string option" where
  "GetHeaderGuardCPPVariable env root repository filename0 =
     (let filename1 = re_sub flymake_suffix_re ''.h'' filename0;
          filename2 = re_sub_fn flymake_dir_re (\<lambda>m. ''/'' @ grp m 1) filename1;
          filename = str_replace (str_replace filename2 ''C++'' ''cpp'') ''c++'' ''cpp''
      in map_option (\<lambda>p. guard_chars (FixupPathFromRoot env root filename p))
           (RepositoryName env repository filename))"

section \<open>Walking up the directories\<close>

function ancestors :: "string \<Rightarrow> string list" where
  "ancestors d = d # (if os_dirname d = d then [] else ancestors (os_dirname d))"
  by pat_completeness auto
termination
  by (relation "measure length") (auto simp: os_dirname_shorter)

declare ancestors.simps [simp del]

lemma svn_up_returns:
  "\<exists>d \<in> set (ancestors one_up). \<not> exists_in env d ''.svn'' \<Longrightarrow> \<exists>r. svn_up env root one_up = Some r"
proof (induction one_up arbitrary: root rule: ancestors.induct)
  case (1 d)
  show ?case
  proof (cases "exists_in env d ''.svn''")
    case True
    with 1 obtain r where "svn_up env (os_dirname root) (os_dirname d) = Some r"
      by (subst (asm) (2) ancestors.simps) (auto split: if_splits)
    then show ?thesis by (subst svn_up.simps) (simp add: True)
  next
    case False
    then show ?thesis by (subst svn_up.simps) simp
  qed
qed

lemma svn_up_loops:
  assumes "svn_up env root one_up = Some r"
  shows "\<exists>d \<in> set (ancestors one_up). \<not> exists_in env d ''.svn''"
proof (rule svn_up.raw_induct
    [where P = "\<lambda>env root one_up r. \<exists>d \<in> set (ancestors one_up). \<not> exists_in env d ''.svn''", OF _ assms])
  fix f env root one_up r
  assume IH: "\<And>env root one_up r. f env root one_up = Some r \<Longrightarrow>
      \<exists>d \<in> set (ancestors one_up). \<not> exists_in env d ''.svn''"
    and eq: "(if exists_in env one_up ''.svn'' then f env (os_dirname root) (os_dirname one_up)
       else Some root) = Some r"
  show "\<exists>d \<in> set (ancestors one_up). \<not> exists_in env d ''.svn''"
  proof (cases "exists_in env one_up ''.svn''")
    case True
    with eq IH have "\<exists>d \<in> set (ancestors (os_dirname one_up)). \<not> exists_in env d ''.svn''" by auto
    then show ?thesis
      by (subst ancestors.simps) (auto simp: ancestors.simps [of one_up])
  next
    case False
    then show ?thesis by (subst ancestors.simps) simp
  qed
qed

text \<open>C33: The walk up a Subversion checkout returns exactly when some directory on the way up to
  the root of the file system, the root included, has no \<open>.svn\<close>; otherwise it never ends.\<close>

theorem svn_walk_returns_iff:
  "(\<exists>r. svn_up env root_dir one_up_dir = Some r) \<longleftrightarrow>
   (\<exists>d \<in> set (ancestors one_up_dir). \<not> exists_in env d ''.svn'')"
  using svn_up_returns svn_up_loops by blast

lemma vcs_up_topmost:
  "vcs_up env d root = last (root # filter (has_vcs env) (butlast (ancestors d)))"
proof (induction d arbitrary: root rule: ancestors.induct)
  case (1 d)
  show ?case
  proof (cases "os_dirname d = d")
    case True
    then show ?thesis by (simp add: vcs_up.simps ancestors.simps)
  next
    case False
    have ne: "ancestors (os_dirname d) \<noteq> []" by (simp add: ancestors.simps)
    have "ancestors d = d # ancestors (os_dirname d)" using False by (subst ancestors.simps) simp
    with False ne 1 show ?thesis by (subst vcs_up.simps) auto
  qed
qed

lemma ancestors_prefix: "a \<in> set (ancestors d) \<Longrightarrow> \<exists>t. d = a @ t"
proof (induction d rule: ancestors.induct)
  case (1 d)
  show ?case
  proof (cases "a = d")
    case False
    with "1.prems" have "os_dirname d \<noteq> d" "a \<in> set (ancestors (os_dirname d))"
      by (auto simp: ancestors.simps [of d] split: if_splits)
    with "1.IH" obtain t where "os_dirname d = a @ t" by auto
    with os_dirname_prefix [of d] show ?thesis by (metis append_assoc)
  qed simp
qed

lemma common_prefix_prefix [simp]: "common_prefix a (a @ t) = a"
  by (induction a) auto

text \<open>C29: For an existing file whose own directory has no \<open>.svn\<close> and is not the root of the file
  system, and without \<open>--repository\<close>, let \<open>tops\<close> be the
  directories above the file, below the root of the file system, that hold a \<open>.git\<close>,
  \<open>.hg\<close> or \<open>.svn\<close>.  The repository name is the full name without the topmost of them and
  one more character; with none of them it is the full name.\<close>

theorem repository_name_topmost_checkout:
  assumes "path_exists env (FullName env filename)"
    and "\<not> exists_in env (os_dirname (FullName env filename)) ''.svn''"
    and "os_dirname (os_dirname (FullName env filename)) \<noteq> os_dirname (FullName env filename)"
  shows "let full = FullName env filename;
             tops = filter (has_vcs env) (butlast (ancestors (os_dirname full)))
    in RepositoryName env None filename =
       Some (if tops = [] then full else drop (length (last tops) + 1) full)"
proof -
  let ?full = "FullName env filename"
  let ?dir = "os_dirname ?full"
  let ?tops = "filter (has_vcs env) (butlast (ancestors ?dir))"
  have anc: "ancestors ?dir = ?dir # ancestors (os_dirname ?dir)"
    using assms(3) by (subst ancestors.simps) simp
  have ne: "ancestors (os_dirname ?dir) \<noteq> []" by (simp add: ancestors.simps)
  show ?thesis
  proof (cases "?tops = []")
    case True
    then have "\<not> has_vcs env ?dir" using anc ne by (auto simp: filter_empty_conv)
    with True assms(1,2) show ?thesis
      by (simp add: RepositoryName_def Let_def vcs_up_topmost)
  next
    case False
    then have "last ?tops \<in> set ?tops" by (rule last_in_set)
    then have top: "has_vcs env (last ?tops)" "last ?tops \<in> set (ancestors ?dir)"
      by (auto dest: in_set_butlastD)
    from ancestors_prefix [OF top(2)] obtain t where t: "?dir = last ?tops @ t" by blast
    then have "common_prefix (last ?tops) ?dir = last ?tops"
      by (metis common_prefix_prefix)
    with False top(1) assms(1,2) show ?thesis
      by (simp add: RepositoryName_def Let_def vcs_up_topmost)
  qed
qed

definition sample_env :: os_env where
  "sample_env = \<lparr>cwd = ''/home/u/db'', path_exists =
     (\<lambda>p. p \<in> set [''/home/u/db/src/a.h'', ''/home/u/db/.git''])\<rparr>"

lemma repository_name_topmost_checkout_witness:
  "RepositoryName sample_env None ''src/a.h'' = Some ''src/a.h''"
proof -
  have full: "FullName sample_env ''src/a.h'' = ''/home/u/db/src/a.h''" by code_simp
  have dir: "os_dirname ''/home/u/db/src/a.h'' = ''/home/u/db/src''" by code_simp
  have tops: "filter (has_vcs sample_env) (butlast (ancestors ''/home/u/db/src'')) = [''/home/u/db'']"
    by code_simp
  have pre: "path_exists sample_env (FullName sample_env ''src/a.h'')"
    "\<not> exists_in sample_env (os_dirname (FullName sample_env ''src/a.h'')) ''.svn''"
    "os_dirname (os_dirname (FullName sample_env ''src/a.h'')) \<noteq> os_dirname (FullName sample_env ''src/a.h'')"
    unfolding full dir by code_simp+
  show ?thesis
    using repository_name_topmost_checkout [OF pre] by (simp add: full dir tops Let_def)
qed

text \<open>A file directly below the root of the file system loses its first character when the
  root directory is itself a checkout.\<close>

lemma repository_name_below_root:
  "RepositoryName \<lparr>cwd = ''/'', path_exists = (\<lambda>p. p \<in> set [''/a.h'', ''/.git''])\<rparr> None ''/a.h''
   = Some ''.h''"
  by code_simp

section \<open>The header guard is a macro name\<close>

definition macro_char :: "char \<Rightarrow> bool" where
  "macro_char c \<longleftrightarrow> is_upper_ascii c \<or> is_digit c \<or> c = CHR ''_''"

lemma macro_char_upper:
  "is_lower_ascii c \<or> is_upper_ascii c \<or> is_digit c \<or> c = CHR ''_'' \<Longrightarrow> macro_char (upper_char c)"
  by (auto simp: macro_char_def upper_char_def is_lower_ascii_def is_upper_ascii_def is_digit_def
    Let_def)

lemma guard_chars_macro: "list_all macro_char (guard_chars path)"
proof -
  have "macro_char (CHR ''_'')" by (simp add: macro_char_def)
  then show ?thesis
    by (auto simp: guard_chars_def re_sub_cls str_upper_def list_all_iff macro_char_upper)
qed

text \<open>C37: Whatever the file name, the file system and the flags, a header guard that is
  suggested consists of ASCII upper-case letters, digits and underscores only and ends in
  an underscore.\<close>

theorem header_guard_is_macro_name:
  assumes "GetHeaderGuardCPPVariable env root repository filename = Some v"
  shows "list_all macro_char v \<and> v \<noteq> [] \<and> last v = CHR ''_''"
  using assms guard_chars_macro by (auto simp: GetHeaderGuardCPPVariable_def Let_def guard_chars_def)

lemma header_guard_is_macro_name_witness:
  "\<exists>v. GetHeaderGuardCPPVariable sample_env None None ''src/a.h'' = Some v \<and> last v = CHR ''_''"
proof -
  have "GetHeaderGuardCPPVariable sample_env None None ''src/a.h'' = Some ''SRC_A_H_''" by code_simp
  from this header_guard_is_macro_name [OF this] show ?thesis by blast
qed

end
