(* ===== verification/FileChecks.thy ===== *)
theory FileChecks
  imports Includes Paths Cleanse
begin

text \<open>
  The checks of \<open>build_support/cpplint.py\<close> on a file as a whole: the copyright line, the
  header guard, the own header of a source file, bad characters and the newline at the end,
  and \<open>GetIndentLevel\<close>.
\<close>

section \<open>\<open>CheckForCopyright\<close>, \<open>GetIndentLevel\<close>\<close>

text \<open>\<open>Copyright\<close> with \<open>re.I\<close>\<close>

definition copyright_re :: re where
  "copyright_re = LitI ''Copyright''"

definition CheckForCopyright :: "string \<Rightarrow> string list \<Rightarrow> report list" where
  "CheckForCopyright filename lines =
     (if \<exists>line \<in> set (drop 1 (take (min (length lines) 11) lines)). found copyright_re line then []
      else [mk_report filename 0 ''legal/copyright'' 5
             (''No copyright message found.  You should have a line: '' @ [dq] @
              ''Copyright [year] <Copyright Owner>'' @ [dq])])"

text \<open>\<open>^( *)\S\<close>\<close>

definition indent_re :: re where
  "indent_re = Seq Bol (Seq (Grp 1 (Star (Ch CHR '' ''))) NonSpace)"

definition GetIndentLevel :: "string \<Rightarrow> nat" where
  "GetIndentLevel line =
     (case Match indent_re line of Some indent \<Rightarrow> length (grp indent 1) | None \<Rightarrow> 0)"

section \<open>\<open>CheckForHeaderGuard\<close>\<close>

text \<open>\<open>//\s*NOLINT\(build/header_guard\)\<close>, \<open>^\s*#pragma\s+once\<close>\<close>

definition nolint_guard_re :: re where
  "nolint_guard_re = Seqs [Lit ''//'', Star Space, Lit ''NOLINT(build/header_guard)'']"

definition pragma_once_re :: re where
  "pragma_once_re = Seqs [Bol, Star Space, Lit ''#pragma'', Plus Space, Lit ''once'']"

text \<open>\<open>#endif\s*//\s*\<close>, the variable, \<open>(_)?\b\<close>, and the same with a C comment\<close>

definition endif_line_re :: "string \<Rightarrow> re" where
  "endif_line_re cppvar = Seqs [Lit ''#endif'', Star Space, Lit ''//'', Star Space, Lit cppvar,
     Opt (Grp 1 (Lit ''_'')), Wb]"

definition endif_c_re :: "string \<Rightarrow> re" where
  "endif_c_re cppvar = Seqs [Lit ''#endif'', Star Space, Lit ''/*'', Star Space, Lit cppvar,
     Opt (Grp 1 (Lit ''_'')), Star Space, Lit ''*/'']"

text \<open>\<open>^(?:(?:\'(?:\.|[^\'])*\')|(?:"(?:\.|[^"])*")|[^\'"])*//\<close>\<close>

definition line_comment_re :: re where
  "line_comment_re = Seqs [Bol, Star (Alts
     [Seqs [Ch sq, Star (Alt (Ch CHR ''.'') (NoneOf [sq])), Ch sq],
      Seqs [Ch dq, Star (Alt (Ch CHR ''.'') (NoneOf [dq])), Ch dq],
      NoneOf [sq, dq]]), Lit ''//'']"

text \<open>The variables of the loop that looks for the guard.\<close>

record guard_scan =
  gs_ifndef :: string
  gs_ifndef_linenum :: nat
  gs_define :: string
  gs_endif :: string
  gs_endif_linenum :: nat

definition guard_step :: "nat \<Rightarrow> string \<Rightarrow> guard_scan \<Rightarrow> guard_scan" where
  "guard_step linenum line s =
     (let linesplit = str_words line;
          s1 = (if length linesplit \<ge> 2 \<and> gs_ifndef s = [] \<and> linesplit ! 0 = ''#ifndef''
                then s\<lparr>gs_ifndef := linesplit ! 1, gs_ifndef_linenum := linenum\<rparr> else s);
          s2 = (if length linesplit \<ge> 2 \<and> gs_define s1 = [] \<and> linesplit ! 0 = ''#define''
                then s1\<lparr>gs_define := linesplit ! 1\<rparr> else s1)
      in if startswith line ''#endif'' then s2\<lparr>gs_endif := line, gs_endif_linenum := linenum\<rparr> else s2)"

fun guard_scan_lines :: "nat \<Rightarrow> string list \<Rightarrow> guard_scan \<Rightarrow> guard_scan" where
  "guard_scan_lines linenum [] s = s"
| "guard_scan_lines linenum (line # lines) s =
     guard_scan_lines (linenum + 1) lines (guard_step linenum line s)"

definition init_guard_scan :: guard_scan where
  "init_guard_scan = \<lparr>gs_ifndef = [], gs_ifndef_linenum = 0, gs_define = [], gs_endif = [],
     gs_endif_linenum = 0\<rparr>"

definition endif_text :: "string \<Rightarrow> string \<Rightarrow> string \<Rightarrow> string" where
  "endif_text l cppvar r = ''#endif line should be '' @ [dq] @ ''#endif  '' @ l @ cppvar @ r @ [dq]"

text \<open>The end of the function: the comment on the line of the last \<open>#endif\<close>.\<close>

definition check_endif :: "string \<Rightarrow> string list \<Rightarrow> string \<Rightarrow> guard_scan \<Rightarrow> report list" where
  "check_endif filename rls cppvar s =
     (let at = int (gs_endif_linenum s);
          wrong = mk_report filename at ''build/header_guard'' 5 (endif_text ''// '' cppvar [])
      in case Match (endif_line_re cppvar) (gs_endif s) of
           Some m \<Rightarrow> if group m 1 = Some ''_''
             then [mk_report filename at ''build/header_guard'' 0 (endif_text ''// '' cppvar [])] else []
         | None \<Rightarrow>
             let no_single_line_comments =
               (\<forall>line \<in> set (drop 1 (butlast rls)). \<not> matches line_comment_re line)
             in if no_single_line_comments
                then (case Match (endif_c_re cppvar) (gs_endif s) of
                    Some m \<Rightarrow> if group m 1 = Some ''_''
                      then [mk_report filename at ''build/header_guard'' 0 (endif_text ''/* '' cppvar '' */'')]
                      else []
                  | None \<Rightarrow> [wrong])
                else [wrong])"

text \<open>\<open>None\<close>: the suggested variable is not found because the walk up the directories of
  \<open>RepositoryName\<close> does not end.\<close>

definition CheckForHeaderGuard ::
  "lint_globals handler \<Rightarrow> os_env \<Rightarrow> string \<Rightarrow> cleansed_lines \<Rightarrow> lint_globals \<Rightarrow> lint_globals option" where
  "CheckForHeaderGuard error env filename clean_lines g =
     (let raw = lines_without_raw_strings clean_lines in
      if \<exists>i \<in> set raw. found nolint_guard_re i then Some g
      else if \<exists>i \<in> set raw. found pragma_once_re i then Some g
      else map_option (\<lambda>cppvar.
        let s = guard_scan_lines 0 raw init_guard_scan in
        if gs_ifndef s = [] \<or> gs_define s = [] \<or> gs_ifndef s \<noteq> gs_define s
        then error (mk_report filename 0 ''build/header_guard'' 5
          (''No #ifndef header guard found, suggested CPP variable is: '' @ cppvar)) g
        else
          let g1 = (if gs_ifndef s \<noteq> cppvar
                then error (mk_report filename (int (gs_ifndef_linenum s)) ''build/header_guard''
                       (if gs_ifndef s \<noteq> cppvar @ ''_'' then 5 else 0)
                       (''#ifndef header guard has wrong style, please use: '' @ cppvar))
                     (ParseNolintSuppressions error filename (raw ! gs_ifndef_linenum s)
                        (int (gs_ifndef_linenum s)) g)
                else g);
              g2 = ParseNolintSuppressions error filename (raw ! gs_endif_linenum s)
                     (int (gs_endif_linenum s)) g1
          in emit error (check_endif filename raw cppvar s) g2)
        (GetHeaderGuardCPPVariable env (root_flag g) (repository_flag g) filename))"

section \<open>\<open>CheckHeaderFileIncluded\<close>\<close>

text \<open>The search through the include list: \<open>None\<close> when the header is included, otherwise
  the line of the first include, Python's \<open>None\<close> when there is none.\<close>

fun first_include_of :: "string \<Rightarrow> (string \<times> linenum) list \<Rightarrow> linenum option \<Rightarrow> linenum option option" where
  "first_include_of headername [] first = Some first"
| "first_include_of headername ((name, l) # fs) first =
     (if str_find name headername \<noteq> None \<or> str_find headername name \<noteq> None then None
      else first_include_of headername fs
        (if first = None \<or> first = Some 0 then Some l else first))"

definition header_missing :: "string \<Rightarrow> string \<Rightarrow> string" where
  "header_missing source header = source @ '' should include its header file '' @ header"

text \<open>The reports, with the line number \<open>None\<close> where the code passes \<open>None\<close>; the outer
  \<open>None\<close> is a walk up the directories that does not end.\<close>

fun check_header_exts :: "os_env \<Rightarrow> string option \<Rightarrow> string \<Rightarrow> string \<Rightarrow> (string \<times> linenum) list \<Rightarrow>
    string list \<Rightarrow> (linenum option \<times> string) list option" where
  "check_header_exts env repository filename basefilename incs [] = Some []"
| "check_header_exts env repository filename basefilename incs (ext # exts) =
     (let headerfile = basefilename @ ''.'' @ ext in
      if \<not> path_exists env headerfile
      then check_header_exts env repository filename basefilename incs exts
      else case RepositoryName env repository headerfile of
          None \<Rightarrow> None
        | Some headername \<Rightarrow>
            (case first_include_of headername incs None of
               None \<Rightarrow> Some []
             | Some first_include \<Rightarrow>
                 (case RepositoryName env repository filename of
                    None \<Rightarrow> None
                  | Some name \<Rightarrow>
                      map_option (\<lambda>rs. (first_include, header_missing name headername) # rs)
                        (check_header_exts env repository filename basefilename incs exts))))"

definition CheckHeaderFileIncluded ::
  "lint_globals \<Rightarrow> os_env \<Rightarrow> string \<Rightarrow> include_state \<Rightarrow> (linenum option \<times> string) list option" where
  "CheckHeaderFileIncluded g env filename inc =
     (case FileInfo_Split env (repository_flag g) filename of
        None \<Rightarrow> None
      | Some (project, base, ext) \<Rightarrow>
          if found test_file_suffix_re base then Some []
          else check_header_exts env (repository_flag g) filename
                 (str_upto filename (int (length filename) - int (length ext)))
                 (concat (include_list inc)) (GetHeaderExtensions g))"

section \<open>Characters and the end of the file\<close>

text \<open>Lines as lists of code points, since the check looks for U+FFFD.\<close>

fun bad_characters_from :: "string \<Rightarrow> nat \<Rightarrow> nat list list \<Rightarrow> report list" where
  "bad_characters_from filename linenum [] = []"
| "bad_characters_from filename linenum (line # lines) =
     (if 0xFFFD \<in> set line
      then [mk_report filename (int linenum) ''readability/utf8'' 5
             ''Line contains invalid UTF-8 (or Unicode replacement character).''] else []) @
     (if 0 \<in> set line
      then [mk_report filename (int linenum) ''readability/nul'' 5 ''Line contains NUL byte.''] else []) @
     bad_characters_from filename (linenum + 1) lines"

definition CheckForBadCharacters :: "string \<Rightarrow> nat list list \<Rightarrow> report list" where
  "CheckForBadCharacters filename lines = bad_characters_from filename 0 lines"

definition CheckForNewlineAtEOF :: "string \<Rightarrow> string list \<Rightarrow> report list" where
  "CheckForNewlineAtEOF filename lines =
     (if length lines < 3 \<or> lines ! (length lines - 2) \<noteq> []
      then [mk_report filename (int (length lines) - 2) ''whitespace/ending_newline'' 5
             ''Could not find a newline character at the end of the file.'']
      else [])"


section \<open>The newline at the end\<close>

lemma last_str_split: "last (str_split c s) = [] \<longleftrightarrow> s = [] \<or> last s = c"
proof (induction s)
  case (Cons x s)
  obtain w ws where ws: "str_split c s = w # ws" by (meson neq_Nil_conv str_split_ne)
  show ?case
  proof (cases "s = []")
    case False
    have "ws \<noteq> []" if "w = []"
      using str_join_split [of c s] False ws that by (cases ws) auto
    with False Cons ws show ?thesis by auto
  qed simp
qed simp

text \<open>
  C38: on the lines that \<open>ProcessFileData\<close> makes of a text (its \<open>split\<close> at newlines between
  two marker lines) the check reports nothing exactly when the text is empty or ends in a
  newline.
\<close>

theorem newline_at_eof_iff:
  "CheckForNewlineAtEOF filename (marker # str_split CHR 0x0A content @ [marker']) = [] \<longleftrightarrow>
   content = [] \<or> last content = CHR 0x0A"
proof -
  let ?ls = "str_split CHR 0x0A content"
  obtain xs x where xs: "?ls = xs @ [x]" by (metis append_butlast_last_id str_split_ne)
  have "CheckForNewlineAtEOF filename (marker # ?ls @ [marker']) = [] \<longleftrightarrow> x = []"
    by (simp add: CheckForNewlineAtEOF_def xs nth_append nth_Cons')
  also have "\<dots> \<longleftrightarrow> content = [] \<or> last content = CHR 0x0A"
    using last_str_split [of "CHR 0x0A" content] unfolding xs by simp
  finally show ?thesis .
qed

section \<open>The canonical header guard\<close>

lemma str_words_run:
  assumes "w \<noteq> []" and "list_all (\<lambda>c. \<not> is_space c) w" and "rest = [] \<or> is_space (hd rest)"
  shows "str_words (w @ rest) = w # str_words rest"
proof -
  have l: "lstrip (w @ rest) = w @ rest" using assms by (cases w) (auto simp: lstrip_def)
  have t: "takeWhile (\<lambda>c. \<not> is_space c) (w @ rest) = w" "dropWhile (\<lambda>c. \<not> is_space c) (w @ rest) = rest"
    using assms(2,3) by (cases rest; auto simp: list_all_iff takeWhile_append2 dropWhile_append2)+
  show ?thesis using assms(1) by (subst str_words.simps) (simp add: l t Let_def)
qed

lemma str_words_space: "is_space c \<Longrightarrow> str_words (c # s) = str_words s"
  by (subst (1 2) str_words.simps) (simp add: lstrip_def)

lemma str_words_Nil: "str_words [] = []"
  by (subst str_words.simps) (simp add: lstrip_def)

lemma str_words_two:
  assumes "w \<noteq> []" "list_all (\<lambda>c. \<not> is_space c) w" "v \<noteq> []" "list_all (\<lambda>c. \<not> is_space c) v"
  shows "str_words (w @ CHR '' '' # v) = [w, v]"
proof -
  have sp: "is_space CHR '' ''" by code_simp
  have "str_words (w @ CHR '' '' # v) = w # str_words v"
    using str_words_run [OF assms(1,2), of "CHR '' '' # v"] sp by (simp add: str_words_space)
  with str_words_run [OF assms(3,4), of "[]"] show ?thesis by (simp add: str_words_Nil)
qed

lemma guard_scan_append:
  "guard_scan_lines k (xs @ ys) s = guard_scan_lines (k + length xs) ys (guard_scan_lines k xs s)"
  by (induction xs arbitrary: k s) auto

lemma guard_step_keeps:
  "gs_ifndef s \<noteq> [] \<Longrightarrow> gs_ifndef (guard_step k l s) = gs_ifndef s"
  "gs_define s \<noteq> [] \<Longrightarrow> gs_define (guard_step k l s) = gs_define s"
  by (simp_all add: guard_step_def Let_def)

lemma guard_scan_keeps:
  "gs_ifndef s \<noteq> [] \<Longrightarrow> gs_ifndef (guard_scan_lines k ls s) = gs_ifndef s"
  "gs_define s \<noteq> [] \<Longrightarrow> gs_define (guard_scan_lines k ls s) = gs_define s"
  by (induction ls arbitrary: k s) (simp_all add: guard_step_keeps)

definition not_guard_line :: "string \<Rightarrow> bool" where
  "not_guard_line l \<longleftrightarrow> (case str_words l of [] \<Rightarrow> True | w # _ \<Rightarrow> w \<noteq> ''#ifndef'' \<and> w \<noteq> ''#define'')"

lemma guard_scan_pre:
  "list_all not_guard_line ls \<Longrightarrow> gs_ifndef (guard_scan_lines k ls s) = gs_ifndef s \<and>
     gs_define (guard_scan_lines k ls s) = gs_define s"
proof (induction ls arbitrary: k s)
  case (Cons l ls)
  have "gs_ifndef (guard_step k l s) = gs_ifndef s" "gs_define (guard_step k l s) = gs_define s"
    using Cons.prems by (auto simp: guard_step_def Let_def not_guard_line_def split: list.splits)
  with Cons show ?case by simp
qed simp

lemma guard_scan_post:
  "list_all (\<lambda>l. \<not> startswith l ''#endif'') ls \<Longrightarrow>
     gs_endif (guard_scan_lines k ls s) = gs_endif s \<and>
     gs_endif_linenum (guard_scan_lines k ls s) = gs_endif_linenum s"
proof (induction ls arbitrary: k s)
  case (Cons l ls)
  have "gs_endif (guard_step k l s) = gs_endif s" "gs_endif_linenum (guard_step k l s) = gs_endif_linenum s"
    using Cons.prems by (auto simp: guard_step_def Let_def)
  with Cons show ?case by simp
qed simp

definition canonical_guard :: "string \<Rightarrow> string list \<Rightarrow> string list \<Rightarrow> string list \<Rightarrow> string list" where
  "canonical_guard v pre body post =
     pre @ [''#ifndef '' @ v, ''#define '' @ v] @ body @ [''#endif  // '' @ v] @ post"

lemma canonical_scan:
  assumes "v \<noteq> []" "list_all (\<lambda>c. \<not> is_space c) v"
    and "list_all not_guard_line pre" "list_all (\<lambda>l. \<not> startswith l ''#endif'') post"
  shows "let s = guard_scan_lines 0 (canonical_guard v pre body post) init_guard_scan in
    gs_ifndef s = v \<and> gs_define s = v \<and> gs_endif s = ''#endif  // '' @ v \<and>
    canonical_guard v pre body post ! gs_endif_linenum s = ''#endif  // '' @ v"
proof -
  let ?n = "length pre"
  define s0 where "s0 = guard_scan_lines 0 pre init_guard_scan"
  have s0: "gs_ifndef s0 = []" "gs_define s0 = []"
    using guard_scan_pre [OF assms(3), of 0 init_guard_scan] by (simp_all add: s0_def init_guard_scan_def)
  define s1 where "s1 = guard_step (?n + 1) (''#define '' @ v) (guard_step ?n (''#ifndef '' @ v) s0)"
  have w: "str_words (''#ifndef '' @ v) = [''#ifndef'', v]" "str_words (''#define '' @ v) = [''#define'', v]"
    using str_words_two [of "''#ifndef''" v] str_words_two [of "''#define''" v] assms(1,2)
    by (auto simp: list_all_iff is_space_def)
  have s1: "gs_ifndef s1 = v" "gs_define s1 = v"
    unfolding s1_def guard_step_def Let_def w using assms(1) s0 by simp_all
  define s2 where "s2 = guard_scan_lines (?n + 2) body s1"
  have s2: "gs_ifndef s2 = v" "gs_define s2 = v"
    using guard_scan_keeps [of s1] assms(1) s1 by (simp_all add: s2_def)
  define s3 where "s3 = guard_step (?n + 2 + length body) (''#endif  // '' @ v) s2"
  have s3: "gs_ifndef s3 = v" "gs_define s3 = v"
    using guard_step_keeps [of s2] assms(1) s2 by (simp_all add: s3_def)
  have s3': "gs_endif s3 = ''#endif  // '' @ v" "gs_endif_linenum s3 = ?n + 2 + length body"
    by (simp_all add: s3_def guard_step_def Let_def)
  have final: "guard_scan_lines 0 (canonical_guard v pre body post) init_guard_scan =
    guard_scan_lines (?n + 3 + length body) post s3"
    by (simp add: canonical_guard_def guard_scan_append s0_def [symmetric] s1_def [simplified, symmetric]
        s2_def [simplified, symmetric] s3_def [simplified, symmetric] eval_nat_numeral)
  have "canonical_guard v pre body post ! (?n + 2 + length body) = ''#endif  // '' @ v"
    by (simp add: canonical_guard_def nth_append)
  then show ?thesis unfolding final Let_def
    using guard_scan_keeps [of s3] guard_scan_post [OF assms(4), of _ s3] s3 s3' assms(1) by simp
qed


lemma macro_char_props:
  "macro_char c \<Longrightarrow> is_word c" "macro_char c \<Longrightarrow> \<not> is_space c"
  by (auto simp: macro_char_def is_word_def is_space_def is_upper_ascii_def is_digit_def Let_def)

lemma endif_matches:
  assumes v: "list_all macro_char v" "v \<noteq> []" "last v = CHR ''_''"
  shows "\<exists>m. Match (endif_line_re v) (''#endif  // '' @ v) = Some m \<and> group m 1 = None"
proof -
  let ?s = "''#endif  // '' @ v" and ?e = "11 + length v"
  let ?r5 = "[Lit v, Opt (Grp 1 (Lit ''_'')), Wb]"
  let ?r4 = "Star Space # ?r5"
  let ?r3 = "Lit ''//'' # ?r4"
  have hv: "\<not> is_space (hd v)" using v macro_char_props(2) by (cases v) auto
  have sp: "is_space CHR '' ''" "\<not> is_space CHR ''/''" by code_simp+
  have e1: "run_end is_space ?s 6 = 8"
    using run_end_append [of is_space "''  ''" "''// '' @ v" "''#endif''"] sp by (simp add: eval_nat_numeral)
  have e2: "run_end is_space ?s 10 = 11"
    using run_end_append [of is_space "'' ''" v "''#endif  //''"] sp hv v(2) by (simp add: eval_nat_numeral)
  have "rm (Seqs (Star Space # ?r3)) ?s (6, []) = rm (Seqs ?r3) ?s (8, [])"
  proof -
    have "rm (Seqs ?r3) ?s (j, []) = []" if "6 \<le> j" "j < 8" for j
    proof -
      have "j = 6 \<or> j = 7" using that by auto
      then show ?thesis by (auto simp: rm_Seqs_Cons [of "Lit ''//''"] rm_Lit)
    qed
    then show ?thesis using rm_Seqs_star_cls [of 6 ?s is_space ?r3 "[]"] e1 by simp
  qed
  moreover have "rm (Seqs (Lit ''#endif'' # Star Space # ?r3)) ?s (0, []) = rm (Seqs (Star Space # ?r3)) ?s (6, [])"
    by (rule rm_Seqs_step) (simp add: rm_Lit)
  moreover have "rm (Seqs ?r3) ?s (8, []) = rm (Seqs ?r4) ?s (10, [])"
    by (rule rm_Seqs_step) (simp add: rm_Lit)
  moreover have "rm (Seqs ?r4) ?s (10, []) = rm (Seqs ?r5) ?s (11, [])"
  proof -
    have "rm (Lit v) ?s (10, []) = []"
      using v(2) hv sp(1) by (cases v) (auto simp: rm_Lit)
    then have "rm (Seqs ?r5) ?s (10, []) = []" by (simp add: rm_Seqs_Cons [of "Lit v"])
    moreover have "j = 10" if "10 \<le> j" "j < 11" for j :: nat using that by simp
    ultimately show ?thesis using rm_Seqs_star_cls [of 10 ?s is_space ?r5 "[]"] e2 by fastforce
  qed
  moreover have "rm (Seqs ?r5) ?s (11, []) = rm (Seqs [Opt (Grp 1 (Lit ''_'')), Wb]) ?s (?e, [])"
    by (rule rm_Seqs_step) (simp add: rm_Lit startswith_def)
  moreover have "rm (Seqs [Opt (Grp 1 (Lit ''_'')), Wb]) ?s (?e, []) = rm (Seqs [Wb]) ?s (?e, [])"
    by (rule rm_Seqs_step) (simp add: rm_Opt rm_Lit)
  moreover have "rm (Seqs [Wb]) ?s (?e, []) = [(?e, [])]"
  proof -
    have "?s ! (?e - 1) = last v" using v(2) by (simp add: nth_append last_conv_nth)
    moreover have "is_word (CHR ''_'')" by code_simp
    ultimately show ?thesis using v(2,3) by (simp add: at_boundary_def word_at_def)
  qed
  ultimately have "rm (endif_line_re v) ?s (0, []) = [(?e, [])]" by (simp add: endif_line_re_def)
  then have "Match (endif_line_re v) ?s = Some \<lparr>m_string = ?s, m_start = 0, m_end = ?e, m_caps = []\<rparr>"
    by (simp add: Match_def match_at_def)
  then show ?thesis by (simp add: group_def)
qed

lemma upper_inside:
  assumes v: "list_all macro_char v" "v \<noteq> []" "last v = CHR ''_''"
    and p: "list_all (\<lambda>c. \<not> is_upper_ascii c) p"
    and w: "startswith (drop i (p @ v)) w" "w \<noteq> []" "list_all is_upper_ascii w"
  shows "\<not> at_boundary (p @ v) (i + length w)"
proof -
  let ?s = "p @ v"
  have at: "i + k < length ?s \<and> ?s ! (i + k) = w ! k" if "k < length w" for k
  proof -
    obtain t where t: "drop i ?s = w @ t" using w(1) by (auto simp: startswith_iff)
    then have le: "length w \<le> length ?s - i" by (metis length_append length_drop le_add1)
    then have "?s ! (i + k) = drop i ?s ! k" using that by (subst nth_drop) simp_all
    also have "\<dots> = w ! k" using t that by (simp add: nth_append del: drop_append)
    finally show ?thesis using that le by simp
  qed
  have up: "is_upper_ascii (w ! k)" if "k < length w" for k
    using w(3) that by (simp add: list_all_length)
  let ?l = "length w - 1"
  have l: "?l < length w" "i + ?l < length ?s" "?s ! (i + ?l) = w ! ?l" "is_upper_ascii (w ! ?l)"
    using at [of ?l] up [of ?l] w(2) by auto
  have hi: "length p \<le> i + ?l"
  proof (rule ccontr)
    assume "\<not> length p \<le> i + ?l"
    then have "?s ! (i + ?l) = p ! (i + ?l)" "i + ?l < length p" by (auto simp: nth_append)
    with p l(3,4) show False by (simp add: list_all_length)
  qed
  have "i + length w \<noteq> length ?s"
  proof
    assume eq: "i + length w = length ?s"
    then have "i + ?l = length ?s - 1" using l(1) by linarith
    then have "w ! ?l = last ?s" using l(3) v(2) by (metis append_is_Nil_conv last_conv_nth)
    then have "w ! ?l = last v" using v(2) by simp
    with l(4) v(3) show False by (simp add: is_upper_ascii_def)
  qed
  then have lt: "i + length w < length ?s" using l(2) by linarith
  have "?s ! (i + length w) \<in> set v"
    using lt hi l(1) by (auto simp: nth_append)
  then have "is_word (?s ! (i + length w))" using v(1) macro_char_props(1) by (auto simp: list_all_iff)
  moreover have "i + length w - 1 = i + ?l" using l(1) by linarith
  then have "is_word (?s ! (i + length w - 1))" using l(3,4) by (simp add: is_word_def)
  moreover have "i + length w - 1 < length ?s" "0 < i + length w" using lt w(2) by auto
  ultimately show ?thesis using lt by (simp only: at_boundary_def word_at_def) simp
qed

lemma no_nolint:
  assumes v: "list_all macro_char v" "v \<noteq> []" "last v = CHR ''_''"
    and p: "list_all (\<lambda>c. \<not> is_upper_ascii c) p"
  shows "Search nolint_re (p @ v) = None"
proof -
  define s where "s = p @ v"
  note inside = upper_inside [OF v p, folded s_def]
  have up: "list_all is_upper_ascii ''NOLINT''" "list_all is_upper_ascii ''NEXTLINE''" by code_simp+
  have "rm nolint_re s (i, []) = []" if "i \<le> length s" for i
  proof (cases "startswith (drop i s) ''NOLINT''")
    case True
    have b1: "\<not> at_boundary s (i + 6)" using inside [OF True _ up(1)] by (simp add: eval_nat_numeral)
    have b2: "\<not> at_boundary s (i + 14)" if "startswith (drop (i + 6) s) ''NEXTLINE''"
      using inside [OF that _ up(2)] by (simp add: eval_nat_numeral)
    let ?r = "[Wb, Opt (Grp 2 (Seqs [Ch CHR ''('', Plus (NoneOf '')''), Ch CHR '')'']))]"
    have "rm (Seqs ?r) s (i + 6, c) = []" for c
      using b1 by (simp add: rm_Seqs_Cons [of Wb])
    moreover have "rm (Seqs ?r) s (i + 14, c) = []" if "startswith (drop (i + 6) s) ''NEXTLINE''" for c
      using b2 [OF that] by (simp add: rm_Seqs_Cons [of Wb])
    moreover have "length ''NOLINT'' = 6" "i + 6 + length ''NEXTLINE'' = i + 14" by simp_all
    ultimately have "rm (Seqs (Opt (Grp 1 (Lit ''NEXTLINE'')) # ?r)) s (i + 6, []) = []"
      unfolding rm_Seqs_Cons [of "Opt (Grp 1 (Lit ''NEXTLINE''))"] rm_Opt rm.simps(7) rm_Lit
      by (simp add: add.commute [of 14])
    moreover have "rm (Lit ''NOLINT'') s (i, []) = [(i + 6, [])]" using True by (simp add: rm_Lit)
    ultimately show ?thesis
      by (simp add: nolint_re_def rm_Seqs_Cons [of Wb] rm_Seqs_Cons [of "Lit ''NOLINT''"])
  next
    case False
    then show ?thesis
      by (simp add: nolint_re_def rm_Seqs_Cons [of Wb] rm_Seqs_Cons [of "Lit ''NOLINT''"] rm_Lit)
  qed
  then have "\<not> found nolint_re s" unfolding found_iff by blast
  then show ?thesis by (simp add: s_def)
qed

text \<open>
  C13: \<open>CheckForHeaderGuard\<close> accepts the guard it suggests: in a file that, after lines without
  a guard directive, has \<open>#ifndef\<close> and \<open>#define\<close> of the suggested variable, then any body, and
  the commented \<open>#endif\<close> as its last one, it reports nothing and changes nothing, whatever the
  callback does.
\<close>

theorem canonical_guard_accepted:
  assumes "GetHeaderGuardCPPVariable env (root_flag g) (repository_flag g) filename = Some v"
    and "list_all not_guard_line pre" and "list_all (\<lambda>l. \<not> startswith l ''#endif'') post"
    and "lines_without_raw_strings c = canonical_guard v pre body post"
  shows "CheckForHeaderGuard error env filename c g = Some g"
proof -
  have v: "list_all macro_char v" "v \<noteq> []" "last v = CHR ''_''"
    using assms(1) guard_chars_macro
    by (auto simp: GetHeaderGuardCPPVariable_def Let_def guard_chars_def)
  then have sp: "list_all (\<lambda>c. \<not> is_space c) v"
    using macro_char_props(2) by (auto simp: list_all_iff)
  note scan = canonical_scan [OF v(2) sp assms(2,3), of body, unfolded Let_def]
  have quiet: "ParseNolintSuppressions error filename (''#endif  // '' @ v) l g = g" for l
  proof -
    have "list_all (\<lambda>c. \<not> is_upper_ascii c) ''#endif  // ''" by code_simp
    from no_nolint [OF v this] show ?thesis unfolding ParseNolintSuppressions_def by simp
  qed
  obtain m where m: "Match (endif_line_re v) (''#endif  // '' @ v) = Some m" "group m 1 = None"
    using endif_matches [OF v] by blast
  show ?thesis
    unfolding CheckForHeaderGuard_def Let_def assms(1,4) check_endif_def
    using scan v(2) quiet m by simp
qed


lemma canonical_guard_accepted_witness:
  "CheckForHeaderGuard Error sample_env ''src/a.h''
     \<lparr>elided = [], cl_lines = [], raw_lines = [], num_lines = 0, lines_without_raw_strings =
        canonical_guard ''SRC_A_H_'' [''// Copyright''] [''#include <map>'', ''#endif''] [[]]\<rparr> init_globals
   = Some init_globals"
proof (rule canonical_guard_accepted [where v = "''SRC_A_H_''" and pre = "[''// Copyright'']"
      and body = "[''#include <map>'', ''#endif'']" and post = "[[]]"])
  show "GetHeaderGuardCPPVariable sample_env (root_flag init_globals) (repository_flag init_globals)
      ''src/a.h'' = Some ''SRC_A_H_''" by code_simp
  show "list_all not_guard_line [''// Copyright'']"
    using str_words_two [of "''//''" "''Copyright''"]
    by (simp add: not_guard_line_def is_space_def)
qed simp_all

end
