(* ===== verification/Nesting.thy ===== *)
theory Nesting
  imports Brackets FileChecks
begin

text \<open>
  The class \<open>NestingState\<close> of \<open>build_support/cpplint.py\<close> and the blocks it stacks
  (\<open>_BlockInfo\<close>, \<open>_ExternCInfo\<close>, \<open>_ClassInfo\<close>, \<open>_NamespaceInfo\<close>): the stack of open
  blocks, updated line by line, with its copies at \<open>#if\<close> and \<open>#else\<close>.

  The head of a list is the top of the Python stack.  The code compares blocks by identity
  (\<open>previous_stack_top == stack[-2]\<close>), so that a block has an identifier, new when the block is
  created and when \<open>copy.deepcopy\<close> copies it.  Of \<open>previous_stack_top\<close>, an alias of a block
  that may change later, the code only reads the identity and the class, which do not change.
\<close>

section \<open>Blocks\<close>

record class_info =
  c_name :: string
  is_derived :: bool
  access :: string
  is_struct :: bool
  class_indent :: nat
  last_line :: nat

datatype block_kind = BlockInfo | ExternCInfo | ClassInfo class_info | NamespaceInfo string

record block =
  b_id :: nat
  b_kind :: block_kind
  starting_linenum :: nat
  seen_open_brace :: bool
  open_parentheses :: int
  inline_asm :: asm_state
  check_namespace_indentation :: bool

definition new_BlockInfo :: "nat \<Rightarrow> nat \<Rightarrow> bool \<Rightarrow> block" where
  "new_BlockInfo i linenum seen =
     \<lparr>b_id = i, b_kind = BlockInfo, starting_linenum = linenum, seen_open_brace = seen,
      open_parentheses = 0, inline_asm = NO_ASM, check_namespace_indentation = False\<rparr>"

definition new_ExternCInfo :: "nat \<Rightarrow> nat \<Rightarrow> block" where
  "new_ExternCInfo i linenum = (new_BlockInfo i linenum True)\<lparr>b_kind := ExternCInfo\<rparr>"

text \<open>The search for the line where the braces from the class on are balanced.\<close>

fun class_last_line :: "nat \<Rightarrow> int \<Rightarrow> string list \<Rightarrow> nat" where
  "class_last_line i depth [] = 0"
| "class_last_line i depth (line # lines) =
     (let depth' = depth + int (str_count line ''{'') - int (str_count line ''}'') in
      if depth' = 0 then i else class_last_line (i + 1) depth' lines)"

definition new_ClassInfo :: "nat \<Rightarrow> string \<Rightarrow> string \<Rightarrow> cleansed_lines \<Rightarrow> nat \<Rightarrow> block" where
  "new_ClassInfo i name class_or_struct clean_lines linenum =
     (new_BlockInfo i linenum False)\<lparr>check_namespace_indentation := True,
       b_kind := ClassInfo
         \<lparr>c_name = name, is_derived = False,
          access = (if class_or_struct = ''struct'' then ''public'' else ''private''),
          is_struct = (class_or_struct = ''struct''),
          class_indent = GetIndentLevel (raw_lines clean_lines ! linenum),
          last_line = class_last_line linenum 0
            (drop linenum (take (NumLines clean_lines) (elided clean_lines)))\<rparr>\<rparr>"

definition new_NamespaceInfo :: "nat \<Rightarrow> string option \<Rightarrow> nat \<Rightarrow> block" where
  "new_NamespaceInfo i name linenum =
     (new_BlockInfo i linenum False)\<lparr>check_namespace_indentation := True,
       b_kind := NamespaceInfo (case name of None \<Rightarrow> [] | Some n \<Rightarrow> n)\<rparr>"

definition IsBlockInfo :: "block \<Rightarrow> bool" where
  "IsBlockInfo b \<longleftrightarrow> b_kind b = BlockInfo"

text \<open>\<open>CheckBegin\<close>; only \<open>_ClassInfo\<close> overrides the one that does nothing.
  \<open>(^|[^:]):($|[^:])\<close>\<close>

definition derived_re :: re where
  "derived_re = Seqs [Grp 1 (Alt Bol (NoneOf '':'')), Ch CHR '':'', Grp 2 (Alt Eol (NoneOf '':''))]"

definition CheckBegin :: "cleansed_lines \<Rightarrow> nat \<Rightarrow> block \<Rightarrow> block" where
  "CheckBegin clean_lines linenum b =
     (case b_kind b of
        ClassInfo ci \<Rightarrow> if found derived_re (elided clean_lines ! linenum)
          then b\<lparr>b_kind := ClassInfo (ci\<lparr>is_derived := True\<rparr>)\<rparr> else b
      | _ \<Rightarrow> b)"

text \<open>\<open>\b(DISALLOW_COPY_AND_ASSIGN|DISALLOW_IMPLICIT_CONSTRUCTORS)\(\<close>, the name (word
  characters and colons only, so that it stands for itself in the pattern), \<open>\)\<close>;
  \<open>^\s*$\<close> is \<open>empty_conditional_body_re\<close>; \<open>^( *)\}\<close>\<close>

definition disallow_re :: "string \<Rightarrow> re" where
  "disallow_re name = Seqs [Wb, Grp 1 (Alt (Lit ''DISALLOW_COPY_AND_ASSIGN'')
     (Lit ''DISALLOW_IMPLICIT_CONSTRUCTORS'')), Ch CHR ''('', Lit name, Ch CHR '')'']"

definition closing_indent_re :: re where
  "closing_indent_re = Seqs [Bol, Grp 1 (Star (Ch CHR '' '')), Ch CHR ''}'']"

fun disallow_loop :: "string \<Rightarrow> string \<Rightarrow> string list \<Rightarrow> nat list \<Rightarrow> bool \<Rightarrow> report list" where
  "disallow_loop filename name els [] seen_last_thing_in_class = []"
| "disallow_loop filename name els (i # is) seen_last_thing_in_class =
     (case Search (disallow_re name) (els ! i) of
        Some m \<Rightarrow> if seen_last_thing_in_class
          then [mk_report filename (int i) ''readability/constructors'' 3
                 (grp m 1 @ '' should be the last thing in the class'')] else []
      | None \<Rightarrow> disallow_loop filename name els is
          (if matches empty_conditional_body_re (els ! i) then seen_last_thing_in_class else True))"

definition class_parent :: "class_info \<Rightarrow> string" where
  "class_parent ci = (if is_struct ci then ''struct '' else ''class '') @ c_name ci"

definition class_check_end :: "string \<Rightarrow> cleansed_lines \<Rightarrow> nat \<Rightarrow> nat \<Rightarrow> class_info \<Rightarrow> report list" where
  "class_check_end filename clean_lines linenum starting ci =
     disallow_loop filename (c_name ci) (elided clean_lines) (rev [starting + 1..<linenum]) False @
     (case Match closing_indent_re (elided clean_lines ! linenum) of
        Some indent \<Rightarrow> if length (grp indent 1) \<noteq> class_indent ci
          then [mk_report filename (int linenum) ''whitespace/indent'' 3
                 (''Closing brace should be aligned with beginning of '' @ class_parent ci)] else []
      | None \<Rightarrow> [])"

text \<open>The comments at the end of a namespace: \<open>^\s*};*\s*(//|/\*).*\bnamespace\b\<close>,
  the same followed by \<open>\s+\<close>, the name and \<open>[\*/\.\\\s]*$\<close>, or by the latter only;
  \<open>^\s*}.*\b(namespace anonymous|anonymous namespace)\b\<close>\<close>

definition end_comment :: "re list" where
  "end_comment = [Bol, Star Space, Ch CHR ''}'', Star (Ch CHR '';''), Star Space,
     Grp 1 (Alt (Lit ''//'') (Lit ''/*'')), Star Any, Wb, Lit ''namespace'']"

definition comment_tail :: "re list" where
  "comment_tail = [Star (Cls (\<lambda>c. c \<in> set (''*/.'' @ [bs]) \<or> is_space c)), Eol]"

definition any_namespace_end_re :: re where
  "any_namespace_end_re = Seqs (end_comment @ [Wb])"

definition named_end_re :: "string \<Rightarrow> re" where
  "named_end_re name = Seqs (end_comment @ [Plus Space, Lit name] @ comment_tail)"

definition anonymous_end_re :: re where
  "anonymous_end_re = Seqs (end_comment @ comment_tail)"

definition anonymous_hint_re :: re where
  "anonymous_hint_re = Seqs [Bol, Star Space, Ch CHR ''}'', Star Any, Wb,
     Grp 1 (Alt (Lit ''namespace anonymous'') (Lit ''anonymous namespace'')), Wb]"

definition namespace_check_end :: "string \<Rightarrow> cleansed_lines \<Rightarrow> nat \<Rightarrow> nat \<Rightarrow> string \<Rightarrow> report list" where
  "namespace_check_end filename clean_lines linenum starting name =
     (let line = raw_lines clean_lines ! linenum;
          rep = (\<lambda>m. [mk_report filename (int linenum) ''readability/namespace'' 5 m]);
          terminated = [dq] @ ''// namespace''
      in if int linenum - int starting < 10 \<and> \<not> matches any_namespace_end_re line then []
         else if name \<noteq> []
         then if \<not> matches (named_end_re name) line
           then rep (''Namespace should be terminated with '' @ terminated @ '' '' @ name @ [dq]) else []
         else if \<not> matches anonymous_end_re line
         then if matches anonymous_hint_re line
           then rep (''Anonymous namespace should be terminated with '' @ terminated @ [dq] @ '' or '' @
                     [dq] @ ''// anonymous namespace'' @ [dq])
           else rep (''Anonymous namespace should be terminated with '' @ terminated @ [dq])
         else [])"

definition CheckEnd :: "string \<Rightarrow> cleansed_lines \<Rightarrow> nat \<Rightarrow> block \<Rightarrow> report list" where
  "CheckEnd filename clean_lines linenum b =
     (case b_kind b of
        ClassInfo ci \<Rightarrow> class_check_end filename clean_lines linenum (starting_linenum b) ci
      | NamespaceInfo name \<Rightarrow> namespace_check_end filename clean_lines linenum (starting_linenum b) name
      | _ \<Rightarrow> [])"

section \<open>The state\<close>

record pp_info =
  stack_before_if :: "block list"
  stack_before_else :: "block list"
  seen_else :: bool

record nesting_state =
  stack :: "block list"
  previous_stack_top :: "block option"
  pp_stack :: "pp_info list"
  next_id :: nat

definition init_nesting_state :: nesting_state where
  "init_nesting_state = \<lparr>stack = [], previous_stack_top = None, pp_stack = [], next_id = 0\<rparr>"

definition SeenOpenBrace :: "nesting_state \<Rightarrow> bool" where
  "SeenOpenBrace s \<longleftrightarrow> stack s = [] \<or> seen_open_brace (hd (stack s))"

definition is_namespace :: "block \<Rightarrow> bool" where
  "is_namespace b \<longleftrightarrow> (case b_kind b of NamespaceInfo _ \<Rightarrow> True | _ \<Rightarrow> False)"

definition is_class :: "block \<Rightarrow> bool" where
  "is_class b \<longleftrightarrow> (case b_kind b of ClassInfo _ \<Rightarrow> True | _ \<Rightarrow> False)"

definition InNamespaceBody :: "nesting_state \<Rightarrow> bool" where
  "InNamespaceBody s \<longleftrightarrow> stack s \<noteq> [] \<and> is_namespace (hd (stack s))"

definition InExternC :: "nesting_state \<Rightarrow> bool" where
  "InExternC s \<longleftrightarrow> stack s \<noteq> [] \<and> b_kind (hd (stack s)) = ExternCInfo"

definition InClassDeclaration :: "nesting_state \<Rightarrow> bool" where
  "InClassDeclaration s \<longleftrightarrow> stack s \<noteq> [] \<and> is_class (hd (stack s))"

definition InAsmBlock :: "nesting_state \<Rightarrow> bool" where
  "InAsmBlock s \<longleftrightarrow> stack s \<noteq> [] \<and> inline_asm (hd (stack s)) \<noteq> NO_ASM"

definition InnermostClass :: "nesting_state \<Rightarrow> block option" where
  "InnermostClass s = find is_class (stack s)"

definition CheckCompletedBlocks :: "string \<Rightarrow> nesting_state \<Rightarrow> report list" where
  "CheckCompletedBlocks filename s =
     concat (map (\<lambda>b. case b_kind b of
         ClassInfo ci \<Rightarrow> [mk_report filename (int (starting_linenum b)) ''build/class'' 5
           (''Failed to find complete declaration of class '' @ c_name ci)]
       | NamespaceInfo name \<Rightarrow> [mk_report filename (int (starting_linenum b)) ''build/namespaces'' 5
           (''Failed to find complete declaration of namespace '' @ name)]
       | _ \<Rightarrow> []) (rev (stack s)))"

text \<open>\<open>copy.deepcopy\<close> of a stack, with new identifiers from \<open>i\<close> on.\<close>

fun deepcopy :: "nat \<Rightarrow> block list \<Rightarrow> block list" where
  "deepcopy i [] = []"
| "deepcopy i (b # rest) = b\<lparr>b_id := i\<rparr> # deepcopy (i + 1) rest"

section \<open>\<open>InTemplateArgumentList\<close>\<close>

text \<open>\<open>^[^{};=\[\]\.<>]*(.)\<close>\<close>

definition template_token_re :: re where
  "template_token_re = Seq (Seq Bol (Star (NoneOf ''{};=[].<>''))) (Grp 1 Any)"

lemma template_token_progress:
  assumes "Match template_token_re t = Some m"
  shows "0 < length (the (group m 0))" "length (the (group m 0)) \<le> length t"
proof -
  note D = MatchD [OF assms]
  have "min_len template_token_re = 1" by (simp add: template_token_re_def NoneOf_def Any_def)
  with D(1-4) show "0 < length (the (group m 0))" "length (the (group m 0)) \<le> length t"
    by (auto simp: group_def)
qed

function InTemplateArgumentList :: "cleansed_lines \<Rightarrow> nat \<Rightarrow> nat \<Rightarrow> py_error + bool" where
  "InTemplateArgumentList clean_lines linenum pos =
     (if \<not> linenum < NumLines clean_lines then Inr False
      else if \<not> linenum < length (elided clean_lines) then Inl IndexError
      else let line = elided clean_lines ! linenum in
        case Match template_token_re (drop pos line) of
          None \<Rightarrow> InTemplateArgumentList clean_lines (linenum + 1) 0
        | Some m \<Rightarrow>
            let token = grp m 1; pos1 = pos + length (the (group m 0)) in
            if token \<in> {''{'', ''}'', '';''} then Inr False
            else if token \<in> {''>'', ''='', ''['', '']'', ''.''} then Inr True
            else if token \<noteq> ''<''
            then (if pos1 + 1 \<ge> length line then InTemplateArgumentList clean_lines (linenum + 1) 0
                  else InTemplateArgumentList clean_lines linenum (pos1 + 1))
            else (case CloseExpression clean_lines linenum (pos1 - 1) of
                Inl e \<Rightarrow> Inl e
              | Inr (l, end_line, end_pos) \<Rightarrow>
                  if end_pos < 0 then Inr False
                  else InTemplateArgumentList clean_lines end_line (nat end_pos)))"
  by pat_completeness auto
termination
proof (relation "measures [\<lambda>(c, l, p). NumLines c - l, \<lambda>(c, l, p). length (elided c ! l) - p]",
    goal_cases)
  case 1
  show ?case by simp
next
  case (5 c linenum pos line m token pos1 t x y end_line end_pos)
  from 5 have C: "CloseExpression c linenum (pos1 - 1) = Inr (x, end_line, end_pos)" by simp
  have ge: "end_pos \<noteq> -1" using 5 by simp
  note B = close_expression_bounds [OF C ge]
  have "0 < length (the (group m 0))" using 5 template_token_progress(1) by blast
  moreover have "pos1 = pos + length (the (group m 0))" using 5 by simp
  ultimately have p: "pos \<le> pos1 - 1" by linarith
  show ?case
  proof (cases "end_line = linenum")
    case True
    then have "pos < nat end_pos" "nat end_pos \<le> length (elided c ! linenum)" using B p by auto
    with True show ?thesis by simp
  next
    case False
    with B 5 show ?thesis by auto
  qed
qed auto

declare InTemplateArgumentList.simps [simp del]


section \<open>\<open>UpdatePreprocessor\<close>\<close>

text \<open>\<open>^\s*#\s*(if|ifdef|ifndef)\b\<close>, \<open>^\s*#\s*(else|elif)\b\<close>, \<open>^\s*#\s*endif\b\<close>\<close>

definition pp_if_re :: re where
  "pp_if_re = Seqs [Bol, Star Space, Ch CHR ''#'', Star Space,
     Grp 1 (Alts [Lit ''if'', Lit ''ifdef'', Lit ''ifndef'']), Wb]"

definition pp_else_re :: re where
  "pp_else_re = Seqs [Bol, Star Space, Ch CHR ''#'', Star Space,
     Grp 1 (Alt (Lit ''else'') (Lit ''elif'')), Wb]"

definition pp_endif_re :: re where
  "pp_endif_re = Seqs [Bol, Star Space, Ch CHR ''#'', Star Space, Lit ''endif'', Wb]"

definition pp_begin :: "nesting_state \<Rightarrow> nesting_state" where
  "pp_begin s = s\<lparr>pp_stack := \<lparr>stack_before_if = deepcopy (next_id s) (stack s), stack_before_else = [],
       seen_else = False\<rparr> # pp_stack s, next_id := next_id s + length (stack s)\<rparr>"

definition pp_else :: "nesting_state \<Rightarrow> nesting_state" where
  "pp_else s =
     (case pp_stack s of
        [] \<Rightarrow> s
      | p # ps \<Rightarrow>
          let s1 = (if \<not> seen_else p
                then s\<lparr>pp_stack := p\<lparr>seen_else := True, stack_before_else := deepcopy (next_id s) (stack s)\<rparr> # ps,
                       next_id := next_id s + length (stack s)\<rparr>
                else s)
          in s1\<lparr>stack := deepcopy (next_id s1) (stack_before_if p),
                next_id := next_id s1 + length (stack_before_if p)\<rparr>)"

definition pp_end :: "nesting_state \<Rightarrow> nesting_state" where
  "pp_end s =
     (case pp_stack s of
        [] \<Rightarrow> s
      | p # ps \<Rightarrow> s\<lparr>stack := (if seen_else p then stack_before_else p else stack s), pp_stack := ps\<rparr>)"

definition UpdatePreprocessor :: "string \<Rightarrow> nesting_state \<Rightarrow> nesting_state" where
  "UpdatePreprocessor line s =
     (if matches pp_if_re line then pp_begin s
      else if matches pp_else_re line then pp_else s
      else if matches pp_endif_re line then pp_end s
      else s)"

section \<open>\<open>Update\<close>\<close>

definition set_top :: "(block \<Rightarrow> block) \<Rightarrow> nesting_state \<Rightarrow> nesting_state" where
  "set_top f s = (case stack s of [] \<Rightarrow> s | b # rest \<Rightarrow> s\<lparr>stack := f b # rest\<rparr>)"

definition push :: "(nat \<Rightarrow> block) \<Rightarrow> nesting_state \<Rightarrow> nesting_state" where
  "push mk s = s\<lparr>stack := mk (next_id s) # stack s, next_id := next_id s + 1\<rparr>"

definition pop :: "nesting_state \<Rightarrow> nesting_state" where
  "pop s = s\<lparr>stack := tl (stack s)\<rparr>"

text \<open>Counting the parentheses of a line, and the assembly state of the innermost block.\<close>

definition count_parentheses :: "string \<Rightarrow> block \<Rightarrow> block" where
  "count_parentheses line b =
     (let depth_change = int (str_count line ''('') - int (str_count line '')'');
          n = open_parentheses b + depth_change;
          asm = (if inline_asm b = NO_ASM \<or> inline_asm b = END_ASM
                 then if depth_change \<noteq> 0 \<and> n = 1 \<and> matches match_asm_re line then INSIDE_ASM else NO_ASM
                 else if inline_asm b = INSIDE_ASM \<and> n = 0 then END_ASM
                 else inline_asm b)
      in b\<lparr>open_parentheses := n, inline_asm := asm\<rparr>)"

text \<open>\<open>^\s*namespace\b\s*([:\w]+)?(.*)$\<close>\<close>

definition namespace_re :: re where
  "namespace_re = Seq
     (Seq (Seqs [Bol, Star Space, Lit ''namespace'', Wb, Star Space])
          (Opt (Grp 1 (Plus (Cls (\<lambda>c. c = CHR '':'' \<or> is_word c))))))
     (Seq (Grp 2 (Star Any)) Eol)"

lemma namespace_rest:
  assumes "Match namespace_re line = Some m" shows "length (grp m 2) < length line"
proof -
  let ?a = "Seq (Seqs [Bol, Star Space, Lit ''namespace'', Wb, Star Space])
          (Opt (Grp 1 (Plus (Cls (\<lambda>c. c = CHR '':'' \<or> is_word c)))))"
  have "0 < min_len ?a" "2 \<notin> set (all_groups ?a)"
    by (simp_all add: Seqs.simps Lit_def Ch_def Opt_def Plus_def)
  with grp_after_prefix [OF assms [unfolded namespace_re_def], of 2] show ?thesis by linarith
qed

text \<open>The loop that consumes the namespaces at the beginning of the line.\<close>

function namespace_loop :: "nat \<Rightarrow> string \<Rightarrow> nesting_state \<Rightarrow> string \<times> nesting_state" where
  "namespace_loop linenum line s =
     (case Match namespace_re line of
        None \<Rightarrow> (line, s)
      | Some m \<Rightarrow>
          let new_namespace = (\<lambda>i. new_NamespaceInfo i (group m 1) linenum); rest = grp m 2 in
          (case str_find rest ''{'' of
             None \<Rightarrow> namespace_loop linenum rest (push new_namespace s)
           | Some j \<Rightarrow> namespace_loop linenum (drop (j + 1) rest)
               (push (\<lambda>i. (new_namespace i)\<lparr>seen_open_brace := True\<rparr>) s)))"
  by pat_completeness auto
termination
  by (relation "measure (\<lambda>(n, line, s). length line)") (auto dest: namespace_rest)

declare namespace_loop.simps [simp del]

text \<open>\<open>^(\s*(?:template\s*<[\w\s<>,:=]*>\s*)?(class|struct)\s+(?:[A-Z_]+\s+)*(\w+(?:::\w+)*))(.*)$\<close>\<close>

definition class_decl_re :: re where
  "class_decl_re = Seqs [Bol, Grp 1 (Seqs
     [Star Space,
      Opt (Seqs [Lit ''template'', Star Space, Ch CHR ''<'',
        Star (Cls (\<lambda>c. is_word c \<or> is_space c \<or> c \<in> set ''<>,:='')), Ch CHR ''>'', Star Space]),
      Grp 2 (Alt (Lit ''class'') (Lit ''struct'')), Plus Space,
      Star (Seq (Plus (Cls (\<lambda>c. is_upper_ascii c \<or> c = CHR ''_''))) (Plus Space)),
      Grp 3 (Seq (Plus Word) (Star (Seq (Lit ''::'') (Plus Word))))]),
     Grp 4 (Star Any), Eol]"

definition class_step :: "cleansed_lines \<Rightarrow> nat \<Rightarrow> string \<Rightarrow> nesting_state \<Rightarrow>
    py_error + string \<times> nesting_state" where
  "class_step clean_lines linenum line s =
     (case Match class_decl_re line of
        None \<Rightarrow> Inr (line, s)
      | Some m \<Rightarrow>
          if stack s = [] \<or> open_parentheses (hd (stack s)) = 0
          then (case InTemplateArgumentList clean_lines linenum (length (grp m 1)) of
              Inl e \<Rightarrow> Inl e
            | Inr True \<Rightarrow> Inr (line, s)
            | Inr False \<Rightarrow> Inr (grp m 4,
                push (\<lambda>i. new_ClassInfo i (grp m 3) (grp m 2) clean_lines linenum) s))
          else Inr (line, s))"

text \<open>\<open>^(.*)\b(public|private|protected|signals)(\s+(?:slots\s*)?)?:(?:[^:]|$)\<close>\<close>

definition access_re :: re where
  "access_re = Seqs [Bol, Grp 1 (Star Any), Wb,
     Grp 2 (Alts [Lit ''public'', Lit ''private'', Lit ''protected'', Lit ''signals'']),
     Opt (Grp 3 (Seq (Plus Space) (Opt (Seq (Lit ''slots'') (Star Space))))),
     Ch CHR '':'', Alt (NoneOf '':'') Eol]"

definition access_step :: "string \<Rightarrow> nat \<Rightarrow> string \<Rightarrow> nesting_state \<Rightarrow> nesting_state \<times> report list" where
  "access_step filename linenum line s =
     (case stack s of
        [] \<Rightarrow> (s, [])
      | b # _ \<Rightarrow>
          (case b_kind b of
             ClassInfo ci \<Rightarrow>
               (case Match access_re line of
                  None \<Rightarrow> (s, [])
                | Some m \<Rightarrow>
                    (set_top (\<lambda>b. b\<lparr>b_kind := ClassInfo (ci\<lparr>access := grp m 2\<rparr>)\<rparr>) s,
                     if length (grp m 1) \<noteq> class_indent ci + 1 \<and> matches empty_conditional_body_re (grp m 1)
                     then [mk_report filename (int linenum) ''whitespace/indent'' 3
                            (grp m 2 @ grp m 3 @ '': should be indented +1 space inside '' @ class_parent ci)]
                     else []))
           | _ \<Rightarrow> (s, [])))"

text \<open>\<open>^[^{;)}]*([{;)}])(.*)$\<close>, \<open>^extern\s*"[^"]*"\s*\{\<close>\<close>

definition brace_re :: re where
  "brace_re = Seq (Seq Bol (Star (NoneOf ''{;)}'')))
     (Seq (Grp 1 (OneOf ''{;)}'')) (Seq (Grp 2 (Star Any)) Eol))"

definition extern_re :: re where
  "extern_re = Seqs [Bol, Lit ''extern'', Star Space, Ch dq, Star (NoneOf [dq]), Ch dq, Star Space,
     Ch CHR ''{'']"

definition brace_token :: "string \<Rightarrow> cleansed_lines \<Rightarrow> nat \<Rightarrow> string \<Rightarrow> string \<Rightarrow> nesting_state \<Rightarrow>
    nesting_state \<times> report list" where
  "brace_token filename clean_lines linenum token line s =
     (if token = ''{'' then
        (if \<not> SeenOpenBrace s then set_top (\<lambda>b. b\<lparr>seen_open_brace := True\<rparr>) s
         else if matches extern_re line then push (\<lambda>i. new_ExternCInfo i linenum) s
         else push (\<lambda>i. (new_BlockInfo i linenum True)\<lparr>inline_asm :=
                (if matches match_asm_re line then BLOCK_ASM else NO_ASM)\<rparr>) s, [])
      else if token = '';'' \<or> token = '')'' then
        (if \<not> SeenOpenBrace s then pop s else s, [])
      else if stack s \<noteq> []
      then (pop s, CheckEnd filename clean_lines linenum (hd (stack s)))
      else (s, []))"

lemma brace_rest:
  assumes "Match brace_re line = Some m" shows "length (grp m 2) < length line"
proof -
  let ?a = "Seq (Seq Bol (Star (NoneOf ''{;)}''))) (Grp 1 (OneOf ''{;)}''))"
  have m: "Match (Seq ?a (Seq (Grp 2 (Star Any)) Eol)) line = Some m"
    using assms unfolding brace_re_def Match_def match_at_def by (simp only: rm_Seq_assoc)
  have "0 < min_len ?a" "2 \<notin> set (all_groups ?a)" by (simp_all add: NoneOf_def OneOf_def)
  with grp_after_prefix [OF m, of 2] show ?thesis by linarith
qed

function brace_loop :: "string \<Rightarrow> cleansed_lines \<Rightarrow> nat \<Rightarrow> string \<Rightarrow> nesting_state \<Rightarrow>
    nesting_state \<times> report list" where
  "brace_loop filename clean_lines linenum line s =
     (case Match brace_re line of
        None \<Rightarrow> (s, [])
      | Some m \<Rightarrow>
          (case brace_token filename clean_lines linenum (grp m 1) line s of (s1, rs) \<Rightarrow>
            (case brace_loop filename clean_lines linenum (grp m 2) s1 of (s2, rs2) \<Rightarrow> (s2, rs @ rs2))))"
  by pat_completeness auto
termination
  by (relation "measure (\<lambda>(f, c, n, line, s). length line)") (auto dest: brace_rest)

declare brace_loop.simps [simp del]

text \<open>\<open>Update\<close>: its five parts in the order of the code.\<close>

definition Update :: "string \<Rightarrow> cleansed_lines \<Rightarrow> nat \<Rightarrow> nesting_state \<Rightarrow>
    py_error + nesting_state \<times> report list" where
  "Update filename clean_lines linenum s0 =
     (let line = elided clean_lines ! linenum;
          s1 = s0\<lparr>previous_stack_top := (if stack s0 = [] then None else Some (hd (stack s0)))\<rparr>;
          s2 = UpdatePreprocessor line s1;
          s3 = set_top (count_parentheses line) s2
      in case namespace_loop linenum line s3 of (line4, s4) \<Rightarrow>
        (case class_step clean_lines linenum line4 s4 of
           Inl e \<Rightarrow> Inl e
         | Inr (line5, s5) \<Rightarrow>
             let s6 = (if \<not> SeenOpenBrace s5 then set_top (CheckBegin clean_lines linenum) s5 else s5) in
             (case access_step filename linenum line5 s6 of (s7, rs7) \<Rightarrow>
               (case brace_loop filename clean_lines linenum line5 s7 of (s8, rs8) \<Rightarrow>
                 Inr (s8, rs7 @ rs8)))))"


section \<open>Preprocessor conditionals\<close>

definition is_if :: "string \<Rightarrow> bool" where
  "is_if l \<longleftrightarrow> matches pp_if_re l"

definition is_else :: "string \<Rightarrow> bool" where
  "is_else l \<longleftrightarrow> \<not> matches pp_if_re l \<and> matches pp_else_re l"

definition is_endif :: "string \<Rightarrow> bool" where
  "is_endif l \<longleftrightarrow> \<not> matches pp_if_re l \<and> \<not> matches pp_else_re l \<and> matches pp_endif_re l"

lemma UpdatePreprocessor_simps:
  "is_if l \<Longrightarrow> UpdatePreprocessor l s = pp_begin s"
  "is_else l \<Longrightarrow> UpdatePreprocessor l s = pp_else s"
  "is_endif l \<Longrightarrow> UpdatePreprocessor l s = pp_end s"
  by (simp_all add: UpdatePreprocessor_def is_if_def is_else_def is_endif_def)

text \<open>
  What a well-nested region of lines can do: code changes the stack in any way, and a
  conditional is an \<open>#if\<close>, a region, any number of \<open>#else\<close> or \<open>#elif\<close> with a region each, and
  an \<open>#endif\<close>.
\<close>

inductive region :: "nesting_state \<Rightarrow> nesting_state \<Rightarrow> bool"
  and branches :: "nesting_state \<Rightarrow> nesting_state \<Rightarrow> bool" where
  region_code: "region s (s\<lparr>stack := st, previous_stack_top := t, next_id := n\<rparr>)"
| region_seq: "\<lbrakk>region s t; region t u\<rbrakk> \<Longrightarrow> region s u"
| region_if: "\<lbrakk>is_if l; region (UpdatePreprocessor l s) t; branches t u; is_endif l'\<rbrakk>
    \<Longrightarrow> region s (UpdatePreprocessor l' u)"
| branches_none: "branches t t"
| branches_else: "\<lbrakk>is_else l; region (UpdatePreprocessor l t) u; branches u v\<rbrakk> \<Longrightarrow> branches t v"

lemma region_pp_stack:
  "region s t \<Longrightarrow> pp_stack t = pp_stack s"
  "branches t v \<Longrightarrow> pp_stack t = p # ps \<Longrightarrow>
     \<exists>p'. pp_stack v = p' # ps \<and> (seen_else p \<longrightarrow> p' = p)"
proof (induction s t and t v arbitrary: and p ps rule: region_branches.inducts)
  case (region_if l s t u l')
  then have "pp_stack t = pp_stack (pp_begin s)" by (simp add: UpdatePreprocessor_simps)
  then obtain p where "pp_stack t = p # pp_stack s" by (simp add: pp_begin_def)
  with region_if.IH(2) obtain p' where "pp_stack u = p' # pp_stack s" by blast
  with region_if.hyps show ?case by (simp add: UpdatePreprocessor_simps pp_end_def)
next
  case (branches_else l t u v)
  then have "pp_stack u = pp_stack (pp_else t)" by (simp add: UpdatePreprocessor_simps)
  with branches_else.prems obtain p1 where "pp_stack u = p1 # ps" "seen_else p1"
      "seen_else p \<longrightarrow> p1 = p"
    by (cases "seen_else p") (auto simp: pp_else_def Let_def)
  with branches_else.IH(2) show ?case by blast
qed simp_all

definition anonymous_blocks :: "block list \<Rightarrow> block list" where
  "anonymous_blocks = map (\<lambda>b. b\<lparr>b_id := 0\<rparr>)"

lemma anonymous_deepcopy [simp]: "anonymous_blocks (deepcopy i st) = anonymous_blocks st"
  by (induction i st rule: deepcopy.induct) (simp_all add: anonymous_blocks_def)

text \<open>
  C9: at a conditional, with any well-nested regions in its branches, the first \<open>#else\<close> puts
  the stack of blocks back to what it was before the \<open>#if\<close>, and after the \<open>#endif\<close> the stack is
  that at the end of the first branch, whatever the other branches did; the stack of saved
  stacks is the one before the \<open>#if\<close>.  (Stacks are compared up to the identity of the blocks.)
\<close>

theorem conditional_keeps_first_branch:
  assumes "is_if l1" "region (UpdatePreprocessor l1 s) t"
    and "is_else l2" "region (UpdatePreprocessor l2 t) u"
    and "branches u v" "is_endif l3"
  shows "anonymous_blocks (stack (UpdatePreprocessor l2 t)) = anonymous_blocks (stack s) \<and>
    anonymous_blocks (stack (UpdatePreprocessor l3 v)) = anonymous_blocks (stack t) \<and>
    pp_stack (UpdatePreprocessor l3 v) = pp_stack s"
proof -
  note U = UpdatePreprocessor_simps(1) [OF assms(1)] UpdatePreprocessor_simps(2) [OF assms(3)]
    UpdatePreprocessor_simps(3) [OF assms(6)]
  have t: "pp_stack t = \<lparr>stack_before_if = deepcopy (next_id s) (stack s), stack_before_else = [],
       seen_else = False\<rparr> # pp_stack s"
    using region_pp_stack(1) [OF assms(2)] by (simp add: U pp_begin_def)
  have "pp_stack u = pp_stack (pp_else t)"
    using region_pp_stack(1) [OF assms(4)] by (simp add: U)
  then obtain p where u: "pp_stack u = p # pp_stack s" "seen_else p"
      "stack_before_else p = deepcopy (next_id t) (stack t)"
    using t by (simp add: pp_else_def Let_def)
  from region_pp_stack(2) [OF assms(5) u(1)] u(2) have v: "pp_stack v = p # pp_stack s" by blast
  show ?thesis using t u v by (simp add: U pp_else_def pp_end_def Let_def)
qed

lemma conditional_keeps_first_branch_witness:
  "let s = init_nesting_state; b = new_BlockInfo 0 1 True;
       t = (UpdatePreprocessor ''#ifdef A'' s)\<lparr>stack := [b], previous_stack_top := None, next_id := 1\<rparr>
   in stack (UpdatePreprocessor ''#else'' t) = [] \<and>
      anonymous_blocks (stack (UpdatePreprocessor ''#endif'' (UpdatePreprocessor ''#else'' t))) = [b]"
proof -
  define s where "s = init_nesting_state"
  define b where "b = new_BlockInfo 0 1 True"
  define t where "t = (UpdatePreprocessor ''#ifdef A'' s)
    \<lparr>stack := [b], previous_stack_top := None, next_id := 1\<rparr>"
  have l: "is_if ''#ifdef A''" "is_else ''#else''" "is_endif ''#endif''" by code_simp+
  have "region (UpdatePreprocessor ''#ifdef A'' s) t" unfolding t_def by (rule region_code)
  moreover have "region (UpdatePreprocessor ''#else'' t) (UpdatePreprocessor ''#else'' t)"
    using region_code [where s = "UpdatePreprocessor ''#else'' t"
        and st = "stack (UpdatePreprocessor ''#else'' t)"
        and t = "previous_stack_top (UpdatePreprocessor ''#else'' t)"
        and n = "next_id (UpdatePreprocessor ''#else'' t)"]
    by simp
  ultimately have "anonymous_blocks (stack (UpdatePreprocessor ''#else'' t)) = anonymous_blocks (stack s) \<and>
    anonymous_blocks (stack (UpdatePreprocessor ''#endif'' (UpdatePreprocessor ''#else'' t))) =
      anonymous_blocks (stack t) \<and>
    pp_stack (UpdatePreprocessor ''#endif'' (UpdatePreprocessor ''#else'' t)) = pp_stack s"
    using conditional_keeps_first_branch [OF l(1) _ l(2) _ branches_none l(3)] by blast
  moreover have "stack s = []" "stack t = [b]" "b_id b = 0"
    by (simp_all add: s_def t_def b_def init_nesting_state_def new_BlockInfo_def)
  ultimately show ?thesis
    unfolding s_def [symmetric] b_def [symmetric] t_def [symmetric] Let_def
    by (simp add: anonymous_blocks_def)
qed


section \<open>Counting braces\<close>

text \<open>The first character of a set and the rest of the text.\<close>

lemma rm_Seq_Bol: "rm (Seq Bol r) s (0, c) = rm r s (0, c)"
  by simp

lemma Match_first_of:
  assumes "list_all (\<lambda>c. \<not> P c) h" and "P q" and "CHR 0x0A \<notin> set t"
  shows "Match (Seq (Seq Bol (Star (Cls (\<lambda>c. \<not> P c)))) (Seq (Grp 1 (Cls P)) (Seq (Grp 2 (Star Any)) Eol)))
      (h @ q # t) = Some \<lparr>m_string = h @ q # t, m_start = 0, m_end = length (h @ q # t),
    m_caps = [(2, Suc (length h), length (h @ q # t)), (1, length h, Suc (length h))]\<rparr>"
proof -
  let ?s = "h @ q # t"
  let ?r = "Seq (Grp 1 (Cls P)) (Seq (Grp 2 (Star Any)) Eol)"
  have e: "run_end (\<lambda>c. \<not> P c) ?s 0 = length h"
    using run_end_append [of "\<lambda>c. \<not> P c" h "q # t" "[]"] assms by auto
  have fail: "rm ?r ?s (j, []) = []" if "j < run_end (\<lambda>c. \<not> P c) ?s 0" for j
  proof -
    have "\<not> P (?s ! j)" using that assms(1) e by (simp add: nth_append list_all_length)
    then show ?thesis by simp
  qed
  have "rm (Seq (Star (Cls (\<lambda>c. \<not> P c))) ?r) ?s (0, []) = rm ?r ?s (run_end (\<lambda>c. \<not> P c) ?s 0, [])"
    by (rule rm_Seq_star_cls) (simp, rule fail)
  also have "\<dots> = rm ?r ?s (length h, [])" by (simp only: e)
  also have "\<dots> = [(length ?s, [(2, Suc (length h), length ?s), (1, length h, Suc (length h))])]"
    using rm_rest [of "Suc (length h)" ?s 2] assms(2,3)
    by (simp only: rm.simps(3) [of "Grp 1 (Cls P)"]) simp
  finally have "rm (Seq Bol (Seq (Star (Cls (\<lambda>c. \<not> P c))) ?r)) ?s (0, []) =
      [(length ?s, [(2, Suc (length h), length ?s), (1, length h, Suc (length h))])]"
    by (simp only: rm_Seq_Bol)
  then have "rm (Seq (Seq Bol (Star (Cls (\<lambda>c. \<not> P c)))) ?r) ?s (0, []) =
      [(length ?s, [(2, Suc (length h), length ?s), (1, length h, Suc (length h))])]"
    by (simp only: rm_Seq_assoc)
  then show ?thesis by (simp only: Match_def match_at_def list.case fst_conv snd_conv)
qed

lemma Match_first_of_None:
  assumes "list_all (\<lambda>c. \<not> P c) t"
  shows "Match (Seq (Seq Bol (Star (Cls (\<lambda>c. \<not> P c)))) (Seq (Grp 1 (Cls P)) r)) t = None"
proof -
  have "rm (Grp 1 (Cls P)) t st = []" for st using assms by (auto simp: list_all_length)
  then have "rm (Seq (Grp 1 (Cls P)) r) t st = []" for st by simp
  then show ?thesis
    unfolding Match_def match_at_None rm.simps(3) [of "Seq Bol (Star (Cls (\<lambda>c. \<not> P c)))"] by simp
qed

fun brace_depth :: "string \<Rightarrow> nat \<Rightarrow> nat" where
  "brace_depth [] d = d"
| "brace_depth (c # cs) d =
     brace_depth cs (if c = CHR ''{'' then d + 1 else if c = CHR ''}'' then d - 1 else d)"

definition brace_tok :: "char \<Rightarrow> bool" where
  "brace_tok c \<longleftrightarrow> c \<in> set ''{;)}''"

lemma brace_depth_skip:
  "list_all (\<lambda>c. \<not> brace_tok c) h \<Longrightarrow> brace_depth (h @ t) d = brace_depth t d"
  by (induction h arbitrary: d) (auto simp: brace_tok_def)

lemma brace_token_depth:
  assumes "list_all seen_open_brace (stack s)" and "brace_tok q"
    and "brace_token filename c linenum [q] line s = (s1, rs)"
  shows "list_all seen_open_brace (stack s1) \<and> length (stack s1) = brace_depth [q] (length (stack s))"
  using assms
  by (cases "stack s")
     (auto simp: brace_token_def brace_tok_def SeenOpenBrace_def push_def pop_def new_BlockInfo_def
       new_ExternCInfo_def split: if_splits)

lemma brace_loop_depth:
  "\<lbrakk>list_all seen_open_brace (stack s); CHR 0x0A \<notin> set line;
    brace_loop filename c linenum line s = (s', rs)\<rbrakk>
   \<Longrightarrow> list_all seen_open_brace (stack s') \<and> length (stack s') = brace_depth line (length (stack s))"
proof (induction "length line" arbitrary: line s s' rs rule: less_induct)
  case less
  have re: "brace_re = Seq (Seq Bol (Star (Cls (\<lambda>c. \<not> brace_tok c))))
      (Seq (Grp 1 (Cls brace_tok)) (Seq (Grp 2 (Star Any)) Eol))"
    by (simp add: brace_re_def NoneOf_def OneOf_def brace_tok_def [abs_def])
  show ?case
  proof (cases "list_all (\<lambda>c. \<not> brace_tok c) line")
    case True
    then have "Match brace_re line = None" unfolding re by (rule Match_first_of_None)
    then have "s' = s" using less.prems(3) by (subst (asm) brace_loop.simps) simp
    with less.prems(1) brace_depth_skip [OF True, of "[]"] show ?thesis by simp
  next
    case False
    then have "\<exists>c \<in> set line. brace_tok c" by (auto simp: list_all_iff)
    from split_list_first_prop [OF this] obtain h q t where line: "line = h @ q # t" "brace_tok q"
      "list_all (\<lambda>c. \<not> brace_tok c) h" by (auto simp: list_all_iff)
    with less.prems(2) have nl: "CHR 0x0A \<notin> set t" by auto
    obtain m where m: "Match brace_re line = Some m" "grp m 1 = [q]" "grp m 2 = t"
      using Match_first_of [OF line(3,2) nl] unfolding re [symmetric] line(1)
      by (auto simp: grp_def group_def slice_def)
    obtain s1 rs1 where s1: "brace_token filename c linenum [q] line s = (s1, rs1)" by fastforce
    obtain rs2 where s2: "brace_loop filename c linenum t s1 = (s', rs2)"
      using less.prems(3) m s1 by (subst (asm) brace_loop.simps) (auto split: prod.splits)
    note tok = brace_token_depth [OF less.prems(1) line(2) s1]
    have "list_all seen_open_brace (stack s') \<and> length (stack s') = brace_depth t (length (stack s1))"
      by (rule less.hyps [OF _ _ nl s2]) (use tok line in auto)
    with tok brace_depth_skip [OF line(3)] show ?thesis by (simp add: line(1))
  qed
qed

text \<open>
  C17: when all open blocks have seen their opening brace, a line that is no preprocessor conditional and
  starts no namespace and no class (and has no line end inside) changes the depth of the stack as its braces say, and leaves
  no block waiting for a brace.
\<close>

theorem update_counts_braces:
  assumes "list_all seen_open_brace (stack s)" and "CHR 0x0A \<notin> set (elided c ! linenum)"
    and "\<not> matches pp_if_re (elided c ! linenum)" and "\<not> matches pp_else_re (elided c ! linenum)"
    and "\<not> matches pp_endif_re (elided c ! linenum)"
    and "\<not> matches namespace_re (elided c ! linenum)" and "\<not> matches class_decl_re (elided c ! linenum)"
  shows "case Update filename c linenum s of
      Inl _ \<Rightarrow> False
    | Inr (s', _) \<Rightarrow> list_all seen_open_brace (stack s') \<and>
        length (stack s') = brace_depth (elided c ! linenum) (length (stack s))"
proof -
  let ?line = "elided c ! linenum"
  let ?s1 = "s\<lparr>previous_stack_top := (if stack s = [] then None else Some (hd (stack s)))\<rparr>"
  let ?s3 = "set_top (count_parentheses ?line) ?s1"
  have s3: "list_all seen_open_brace (stack ?s3)" "length (stack ?s3) = length (stack s)"
    using assms(1) by (auto simp: set_top_def count_parentheses_def Let_def split: list.splits)
  then have seen: "SeenOpenBrace ?s3" by (cases "stack ?s3") (auto simp: SeenOpenBrace_def)
  obtain s7 rs7 where s7: "access_step filename linenum ?line ?s3 = (s7, rs7)" by fastforce
  have "list_all seen_open_brace (stack s7) \<and> length (stack s7) = length (stack ?s3)"
    using s7 s3(1) by (auto simp: access_step_def set_top_def split: list.splits block_kind.splits option.splits)
  moreover obtain s8 rs8 where s8: "brace_loop filename c linenum ?line s7 = (s8, rs8)" by fastforce
  ultimately have "list_all seen_open_brace (stack s8) \<and> length (stack s8) = brace_depth ?line (length (stack s))"
    using brace_loop_depth [OF _ assms(2) s8] s3(2) by auto
  moreover have "UpdatePreprocessor ?line ?s1 = ?s1" using assms(3-5) by (simp add: UpdatePreprocessor_def)
  moreover have "namespace_loop linenum ?line ?s3 = (?line, ?s3)"
    using assms(6) by (subst namespace_loop.simps) simp
  moreover have "class_step c linenum ?line ?s3 = Inr (?line, ?s3)"
    using assms(7) by (simp add: class_step_def)
  ultimately show ?thesis using seen s7 s8 by (simp add: Update_def Let_def)
qed


lemma update_counts_braces_witness:
  "case Update ''a.cc'' \<lparr>elided = [''void f() { if (x) { g(); } else {''], cl_lines = [], raw_lines = [],
       num_lines = 1, lines_without_raw_strings = []\<rparr> 0 init_nesting_state of
     Inl _ \<Rightarrow> False
   | Inr (s', _) \<Rightarrow> list_all seen_open_brace (stack s') \<and> length (stack s') = 2"
proof -
  let ?c = "\<lparr>elided = [''void f() { if (x) { g(); } else {''], cl_lines = [], raw_lines = [],
       num_lines = 1, lines_without_raw_strings = []\<rparr>"
  have d: "brace_depth (elided ?c ! 0) (length (stack init_nesting_state)) = 2" by code_simp
  have m: "\<not> matches pp_if_re (elided ?c ! 0)" "\<not> matches pp_else_re (elided ?c ! 0)"
    "\<not> matches pp_endif_re (elided ?c ! 0)" "\<not> matches namespace_re (elided ?c ! 0)"
    "\<not> matches class_decl_re (elided ?c ! 0)"
    by code_simp+
  have i: "list_all seen_open_brace (stack init_nesting_state)" by (simp add: init_nesting_state_def)
  have nl: "CHR 0x0A \<notin> set (elided ?c ! 0)" by simp
  show ?thesis using update_counts_braces [OF i nl m, of "''a.cc''"] unfolding d .
qed

section \<open>The invariant of the state\<close>

definition stack_ok :: "nat \<Rightarrow> nat \<Rightarrow> block list \<Rightarrow> bool" where
  "stack_ok l n st \<longleftrightarrow> sorted_wrt (\<ge>) (map starting_linenum st) \<and>
     list_all (\<lambda>b. starting_linenum b \<le> l \<and> b_id b < n) st \<and> distinct (map b_id st)"

text \<open>
  The blocks of every stack, current or saved, start in the order they are stacked and not after
  the line being read, and differ in their identity.
\<close>

definition nesting_ok :: "nat \<Rightarrow> nesting_state \<Rightarrow> bool" where
  "nesting_ok l s \<longleftrightarrow> stack_ok l (next_id s) (stack s) \<and>
     list_all (\<lambda>p. stack_ok l (next_id s) (stack_before_if p) \<and>
       stack_ok l (next_id s) (stack_before_else p)) (pp_stack s)"

lemma stack_ok_mono: "stack_ok l n st \<Longrightarrow> l \<le> l' \<Longrightarrow> n \<le> n' \<Longrightarrow> stack_ok l' n' st"
  by (auto simp: stack_ok_def list_all_iff)

lemma nesting_ok_pp: "nesting_ok l s \<Longrightarrow> l \<le> l' \<Longrightarrow> next_id s \<le> n' \<Longrightarrow>
    list_all (\<lambda>p. stack_ok l' n' (stack_before_if p) \<and> stack_ok l' n' (stack_before_else p)) (pp_stack s)"
  by (auto simp: nesting_ok_def list_all_iff intro: stack_ok_mono)

lemma stack_ok_Nil [simp]: "stack_ok l n []"
  by (simp add: stack_ok_def)

lemma deepcopy_ok: "stack_ok l n st \<Longrightarrow> stack_ok l (k + length st) (deepcopy k st)"
proof -
  assume ok: "stack_ok l n st"
  have "map starting_linenum (deepcopy k st) = map starting_linenum st" for k
    by (induction k st rule: deepcopy.induct) auto
  moreover have "map b_id (deepcopy k st) = [k..<k + length st]" for k
  proof (induction k st rule: deepcopy.induct)
    case (2 i b rest)
    have "[i..<Suc (i + length rest)] = i # [Suc i..<Suc (i + length rest)]"
      by (rule upt_conv_Cons) simp
    with 2 show ?case by (simp del: upt_Suc)
  qed simp
  moreover have "list_all (\<lambda>x. x \<le> l) (map starting_linenum st)" "list_all (\<lambda>x. x < k + length st) [k..<k + length st]"
    using ok by (auto simp: stack_ok_def list_all_iff)
  ultimately have "list_all (\<lambda>x. x \<le> l) (map starting_linenum (deepcopy k st))"
      "list_all (\<lambda>x. x < k + length st) (map b_id (deepcopy k st))"
      "sorted_wrt (\<ge>) (map starting_linenum (deepcopy k st))" "distinct (map b_id (deepcopy k st))"
    using ok by (simp_all only: stack_ok_def distinct_upt)
  then show ?thesis by (auto simp: stack_ok_def list_all_iff)
qed

lemma push_ok:
  assumes "nesting_ok l s" "b_id (mk (next_id s)) = next_id s" "starting_linenum (mk (next_id s)) = l"
  shows "nesting_ok l (push mk s)"
  using assms nesting_ok_pp [OF assms(1), of l "next_id s + 1"]
  by (auto simp: nesting_ok_def push_def stack_ok_def list_all_iff)

lemma pop_ok: "nesting_ok l s \<Longrightarrow> nesting_ok l (pop s)"
  by (cases "stack s") (auto simp: nesting_ok_def pop_def stack_ok_def)

lemma set_top_ok:
  assumes "nesting_ok l s" "\<And>b. b_id (f b) = b_id b" "\<And>b. starting_linenum (f b) = starting_linenum b"
  shows "nesting_ok l (set_top f s)"
  using assms by (auto simp: nesting_ok_def set_top_def stack_ok_def split: list.splits)

lemma UpdatePreprocessor_ok: "nesting_ok l s \<Longrightarrow> nesting_ok l (UpdatePreprocessor line s)"
proof -
  assume ok: "nesting_ok l s"
  note pp = nesting_ok_pp [OF ok order_refl]
  have st: "stack_ok l (next_id s) (stack s)" using ok by (simp add: nesting_ok_def)
  have "nesting_ok l (pp_begin s)"
    using deepcopy_ok [OF st] stack_ok_mono [OF st order_refl] pp [of "next_id s + length (stack s)"]
    by (simp add: nesting_ok_def pp_begin_def)
  moreover have "nesting_ok l (pp_else s)"
  proof (cases "pp_stack s")
    case (Cons p ps)
    let ?n = "next_id s + (if seen_else p then 0 else length (stack s))"
    let ?m = "?n + length (stack_before_if p)"
    have "stack_ok l (next_id s) (stack_before_if p)" using ok Cons by (simp add: nesting_ok_def)
    then have "stack_ok l ?m (deepcopy ?n (stack_before_if p))" by (rule deepcopy_ok)
    moreover have "stack_ok l ?m (deepcopy (next_id s) (stack s))" if "\<not> seen_else p"
      using stack_ok_mono [OF deepcopy_ok [OF st] order_refl] that by simp
    ultimately show ?thesis using pp [of ?m] Cons
      by (auto simp: nesting_ok_def pp_else_def Let_def)
  qed (simp add: ok pp_else_def)
  moreover have "nesting_ok l (pp_end s)"
    using ok by (auto simp: nesting_ok_def pp_end_def split: list.splits)
  ultimately show ?thesis using ok by (simp add: UpdatePreprocessor_def)
qed

lemma namespace_loop_ok:
  "nesting_ok l s \<Longrightarrow> nesting_ok l (snd (namespace_loop l line s))"
proof (induction l line s rule: namespace_loop.induct)
  case (1 linenum line s)
  show ?case
  proof (cases "Match namespace_re line")
    case None
    then show ?thesis using "1.prems" by (subst namespace_loop.simps) simp
  next
    case (Some m)
    have p: "nesting_ok linenum (push (\<lambda>i. new_NamespaceInfo i x linenum) s)"
      "nesting_ok linenum (push (\<lambda>i. (new_NamespaceInfo i x linenum)\<lparr>seen_open_brace := True\<rparr>) s)" for x
      by (rule push_ok [OF "1.prems"]; simp add: new_NamespaceInfo_def new_BlockInfo_def)+
    show ?thesis
    proof (cases "str_find (grp m 2) ''{''")
      case None
      from "1.IH"(1) [OF Some refl refl None p(1)] show ?thesis
        using Some None by (subst namespace_loop.simps) simp
    next
      case (Some j)
      from "1.IH"(2) [OF \<open>Match namespace_re line = Some m\<close> refl refl Some p(2)] show ?thesis
        using Some \<open>Match namespace_re line = Some m\<close> by (subst namespace_loop.simps) simp
    qed
  qed
qed

lemma brace_loop_ok:
  "nesting_ok l s \<Longrightarrow> nesting_ok l (fst (brace_loop filename c l line s))"
proof (induction filename c l line s rule: brace_loop.induct)
  case (1 filename c linenum line s)
  show ?case
  proof (cases "Match brace_re line")
    case None
    then show ?thesis using "1.prems" by (subst brace_loop.simps) simp
  next
    case (Some m)
    obtain s1 rs where s1: "brace_token filename c linenum (grp m 1) line s = (s1, rs)" by fastforce
    have "nesting_ok linenum s1"
      using s1 "1.prems"
      by (auto simp: brace_token_def new_BlockInfo_def new_ExternCInfo_def
          intro!: push_ok pop_ok set_top_ok split: if_splits)
    from "1.IH" [OF Some s1 [symmetric] this] show ?thesis
      using Some s1 by (subst brace_loop.simps) (simp add: split_beta)
  qed
qed

lemma CloseExpression_total:
  "linenum < length (elided c) \<Longrightarrow> pos < length (elided c ! linenum) \<Longrightarrow>
   \<exists>t. CloseExpression c linenum pos = Inr t"
  unfolding CloseExpression_def by (subst if_not_P) (simp, rule exI, rule refl)

lemma InTemplateArgumentList_total:
  "NumLines c \<le> length (elided c) \<Longrightarrow> \<exists>b. InTemplateArgumentList c linenum pos = Inr b"
proof (induction c linenum pos rule: InTemplateArgumentList.induct)
  case (1 c linenum pos)
  let ?line = "elided c ! linenum"
  show ?case
  proof (cases "linenum < NumLines c")
    case False
    then show ?thesis by (subst InTemplateArgumentList.simps) auto
  next
    case True
    then have lt: "linenum < length (elided c)" using "1.prems" by simp
    note unf = InTemplateArgumentList.simps [of c linenum pos]
    have ok: "\<not> \<not> linenum < NumLines c" "\<not> \<not> linenum < length (elided c)" using True lt by simp_all
    show ?thesis
    proof (cases "Match template_token_re (drop pos ?line)")
      case None
      then show ?thesis using "1.IH"(1) [OF ok refl None "1.prems"] True lt unf by simp
    next
      case (Some m)
      let ?pos1 = "pos + length (the (group m 0))"
      note pr = template_token_progress [OF Some]
      have "length (the (group m 0)) \<le> length ?line - pos" using pr(2) by simp
      with pr(1) have "?pos1 - 1 < length ?line" by linarith
      from CloseExpression_total [OF lt this]
      have "\<exists>t. CloseExpression c linenum (?pos1 - 1) = Inr t" .
      then obtain l n p where C: "CloseExpression c linenum (?pos1 - 1) = Inr (l, n, p)"
        by (metis prod_cases3)
      have IH: "\<exists>b. InTemplateArgumentList c (linenum + 1) 0 = Inr b"
        if "grp m 1 \<notin> {''{'', ''}'', '';''}" "grp m 1 \<notin> {''>'', ''='', ''['', '']'', ''.''}"
          "grp m 1 \<noteq> ''<''" "?pos1 + 1 \<ge> length ?line"
        using "1.IH"(2) [OF ok refl Some refl refl that "1.prems"] .
      have IH': "\<exists>b. InTemplateArgumentList c linenum (?pos1 + 1) = Inr b"
        if "grp m 1 \<notin> {''{'', ''}'', '';''}" "grp m 1 \<notin> {''>'', ''='', ''['', '']'', ''.''}"
          "grp m 1 \<noteq> ''<''" "\<not> ?pos1 + 1 \<ge> length ?line"
        using "1.IH"(3) [OF ok refl Some refl refl that "1.prems"] .
      have IH'': "\<exists>b. InTemplateArgumentList c n (nat p) = Inr b"
        if "grp m 1 \<notin> {''{'', ''}'', '';''}" "grp m 1 \<notin> {''>'', ''='', ''['', '']'', ''.''}"
          "\<not> grp m 1 \<noteq> ''<''" "\<not> p < 0"
        using "1.IH"(4) [OF ok refl Some refl refl that(1-3) C refl refl that(4) "1.prems"] .
      show ?thesis
        unfolding unf using True lt Some C IH IH' IH'' by (simp add: Let_def ex_bool_eq split: if_split)
    qed
  qed
qed


lemma class_step_ok:
  assumes "nesting_ok linenum s" and "NumLines c \<le> length (elided c)"
  shows "\<exists>line' s'. class_step c linenum line s = Inr (line', s') \<and> nesting_ok linenum s'"
proof (cases "Match class_decl_re line")
  case None
  with assms(1) show ?thesis by (simp add: class_step_def)
next
  case (Some m)
  obtain b where b: "InTemplateArgumentList c linenum (length (grp m 1)) = Inr b"
    using InTemplateArgumentList_total [OF assms(2)] by blast
  have "nesting_ok linenum (push (\<lambda>i. new_ClassInfo i (grp m 3) (grp m 2) c linenum) s)"
    by (rule push_ok [OF assms(1)]) (simp_all add: new_ClassInfo_def new_BlockInfo_def)
  with Some b assms(1) show ?thesis by (cases b) (auto simp: class_step_def)
qed

lemma update_keeps_nesting:
  assumes "nesting_ok l s" and "l \<le> linenum" and "NumLines c \<le> length (elided c)"
  shows "case Update filename c linenum s of Inl _ \<Rightarrow> False | Inr (s', _) \<Rightarrow> nesting_ok linenum s'"
proof -
  let ?line = "elided c ! linenum"
  let ?s1 = "s\<lparr>previous_stack_top := (if stack s = [] then None else Some (hd (stack s)))\<rparr>"
  let ?s3 = "set_top (count_parentheses ?line) (UpdatePreprocessor ?line ?s1)"
  have "nesting_ok linenum s"
    using assms(1,2) nesting_ok_pp [OF assms(1,2) order_refl]
    by (auto simp: nesting_ok_def intro: stack_ok_mono)
  then have "nesting_ok linenum ?s1" by (simp add: nesting_ok_def)
  then have "nesting_ok linenum ?s3"
    by (intro set_top_ok UpdatePreprocessor_ok) (simp_all add: count_parentheses_def Let_def)
  then have n4: "nesting_ok linenum (snd (namespace_loop linenum ?line ?s3))" by (rule namespace_loop_ok)
  obtain line4 s4 where p4: "namespace_loop linenum ?line ?s3 = (line4, s4)" by (metis prod.exhaust)
  have s4: "namespace_loop linenum ?line ?s3 = (line4, s4)" "nesting_ok linenum s4"
    using n4 unfolding p4 by simp_all
  from class_step_ok [OF s4(2) assms(3)] obtain line5 s5 where
    s5: "class_step c linenum line4 s4 = Inr (line5, s5)" "nesting_ok linenum s5" by blast
  let ?s6 = "if \<not> SeenOpenBrace s5 then set_top (CheckBegin c linenum) s5 else s5"
  have s6: "nesting_ok linenum ?s6"
    using s5(2) by (auto intro!: set_top_ok simp: CheckBegin_def split: block_kind.split)
  obtain s7 rs7 where s7: "access_step filename linenum line5 ?s6 = (s7, rs7)" by fastforce
  have "nesting_ok linenum s7"
    using s7 s6 by (auto simp: access_step_def intro!: set_top_ok
        split: list.splits block_kind.splits option.splits)
  from brace_loop_ok [OF this] obtain s8 rs8 where
    s8: "brace_loop filename c linenum line5 s7 = (s8, rs8)" "nesting_ok linenum s8"
    by (metis prod.collapse)
  show ?thesis using s4(1) s5(1) s7 s8 by (simp add: Update_def Let_def)
qed

text \<open>
  C6: \<open>Update\<close> raises nothing on a line of the file and keeps the invariant of the state: in
  each stack, current or saved for a conditional, the blocks start in the order in which they
  are stacked and not after the current line, and have different identities (which is what makes
  the comparison of \<open>previous_stack_top\<close> with \<open>stack[-2]\<close> meaningful).
\<close>

theorem update_keeps_invariant:
  assumes "nesting_ok l s" and "l \<le> linenum" and "NumLines c \<le> length (elided c)"
  shows "case Update filename c linenum s of Inl _ \<Rightarrow> False | Inr (s', _) \<Rightarrow> nesting_ok linenum s'"
  by (rule update_keeps_nesting [OF assms])

lemma update_keeps_invariant_witness:
  "case Update ''a.cc'' \<lparr>elided = [''namespace a {'', ''class B {''], cl_lines = [], raw_lines = [[], []],
       num_lines = 2, lines_without_raw_strings = []\<rparr> 1
     \<lparr>stack = [new_NamespaceInfo 0 (Some ''a'') 0], previous_stack_top = None, pp_stack = [], next_id = 1\<rparr> of
   Inl _ \<Rightarrow> False | Inr (s', _) \<Rightarrow> nesting_ok 1 s'"
  by (rule update_keeps_invariant [where l = 0])
     (simp_all add: nesting_ok_def stack_ok_def new_NamespaceInfo_def new_BlockInfo_def NumLines_def)

end
