(* ===== verification/Reporting.thy ===== *)
theory Reporting
  imports Nesting FileChecks
begin

text \<open>
  What the checks of style and language share: checks that may end with an exception, the
  promise that every report of a check keeps, and the searches backwards over the lines.
\<close>

named_theorems outcome_intros \<open>rules that prove the promise of a check\<close>

section \<open>Checks that may raise\<close>

text \<open>The reports of a check, and the exception that ended it.\<close>

type_synonym outcome = "report list \<times> py_error option"

definition reporting :: "report list \<Rightarrow> outcome" where
  "reporting rs = (rs, None)"

definition attempt :: "py_error + 'a \<Rightarrow> ('a \<Rightarrow> outcome) \<Rightarrow> outcome" where
  "attempt r f = (case r of Inl e \<Rightarrow> ([], Some e) | Inr x \<Rightarrow> f x)"

definition followed_by :: "outcome \<Rightarrow> outcome \<Rightarrow> outcome" where
  "followed_by a b = (case snd a of None \<Rightarrow> (fst a @ fst b, snd b) | Some _ \<Rightarrow> a)"

definition in_order :: "outcome list \<Rightarrow> outcome" where
  "in_order outcomes = foldr followed_by outcomes (reporting [])"

text \<open>The value of a call that may raise, used by a call that may raise.\<close>

definition bind_result :: "py_error + 'a \<Rightarrow> ('a \<Rightarrow> py_error + 'b) \<Rightarrow> py_error + 'b" where
  "bind_result r f = (case r of Inl e \<Rightarrow> Inl e | Inr x \<Rightarrow> f x)"

text \<open>A call that may not return.\<close>

definition returned :: "'a option \<Rightarrow> py_error + 'a" where
  "returned x = (case x of None \<Rightarrow> Inl NoReturn | Some y \<Rightarrow> Inr y)"

lemma bind_result_simps [simp]: "bind_result (Inl e) f = Inl e" "bind_result (Inr x) f = f x"
  by (simp_all add: bind_result_def)

lemma bind_result_Inl: "bind_result r f = Inl e \<longleftrightarrow> r = Inl e \<or> (\<exists>x. r = Inr x \<and> f x = Inl e)"
  by (cases r) auto

lemma returned_simps [simp]: "returned None = Inl NoReturn" "returned (Some x) = Inr x"
  "returned r = Inl e \<longleftrightarrow> r = None \<and> e = NoReturn" "returned r = Inr y \<longleftrightarrow> r = Some y"
  by (auto simp: returned_def split: option.split)

lemma map_sum_Inl [simp]: "map_sum id g r = Inl e \<longleftrightarrow> r = Inl e"
  by (cases r) auto

text \<open>The callback is called for each report until the exception.\<close>

definition run_outcome :: "'s handler \<Rightarrow> outcome \<Rightarrow> 's \<Rightarrow> 's \<times> py_error option" where
  "run_outcome h out_come s = (emit h (fst out_come) s, snd out_come)"

lemma attempt_simps [simp]: "attempt (Inl e) f = ([], Some e)" "attempt (Inr x) f = f x"
  by (simp_all add: attempt_def)

lemma followed_by_assoc: "followed_by (followed_by a b) c = followed_by a (followed_by b c)"
  by (simp add: followed_by_def split: option.split)

lemma run_followed_by:
  "run_outcome h (followed_by a b) s =
     (case run_outcome h a s of (s', None) \<Rightarrow> run_outcome h b s' | r \<Rightarrow> r)"
  by (auto simp: run_outcome_def followed_by_def split: option.split)

section \<open>The promise of a check\<close>

text \<open>
  A report names the file, a line of it, a known category, and a confidence of at most 5.
  \<open>outcome_may E\<close>: the check ended normally or with an exception of \<open>E\<close>, and all its reports
  are of this kind.
\<close>

definition report_ok :: "string \<Rightarrow> nat \<Rightarrow> report \<Rightarrow> bool" where
  "report_ok filename n r \<longleftrightarrow>
     r_filename r = filename \<and> 0 \<le> r_linenum r \<and> r_linenum r < int n \<and>
     r_category r \<in> set error_categories \<and> r_confidence r \<le> 5"

definition reports_ok :: "string \<Rightarrow> nat \<Rightarrow> report list \<Rightarrow> bool" where
  "reports_ok filename n rs \<longleftrightarrow> list_all (report_ok filename n) rs"

definition outcome_may :: "py_error set \<Rightarrow> string \<Rightarrow> nat \<Rightarrow> outcome \<Rightarrow> bool" where
  "outcome_may E filename n oc \<longleftrightarrow> reports_ok filename n (fst oc) \<and> set_option (snd oc) \<subseteq> E"

abbreviation outcome_ok :: "string \<Rightarrow> nat \<Rightarrow> outcome \<Rightarrow> bool" where
  "outcome_ok \<equiv> outcome_may {}"

lemma outcome_may_mono: "outcome_may E f n oc \<Longrightarrow> E \<subseteq> E' \<Longrightarrow> outcome_may E' f n oc"
  by (auto simp: outcome_may_def)

lemma known_categories:
  "set [
    ''build/class'', ''build/c++11'', ''build/c++14'', ''build/c++tr1'', ''build/deprecated'',
    ''build/endif_comment'', ''build/explicit_make_pair'', ''build/forward_decl'',
    ''build/header_guard'', ''build/include'', ''build/include_subdir'', ''build/include_alpha'',
    ''build/include_order'', ''build/include_what_you_use'', ''build/namespaces_literals'',
    ''build/namespaces'', ''build/printf_format'', ''build/storage_class'', ''legal/copyright'',
    ''readability/alt_tokens'', ''readability/braces'', ''readability/casting'',
    ''readability/check'', ''readability/constructors'', ''readability/fn_size'',
    ''readability/inheritance'', ''readability/multiline_comment'',
    ''readability/multiline_string'', ''readability/namespace'', ''readability/nolint'',
    ''readability/nul'', ''readability/strings'', ''readability/todo'', ''readability/utf8'',
    ''runtime/arrays'', ''runtime/casting'', ''runtime/explicit'', ''runtime/int'',
    ''runtime/init'', ''runtime/invalid_increment'', ''runtime/member_string_references'',
    ''runtime/memset'', ''runtime/indentation_namespace'', ''runtime/operator'',
    ''runtime/printf'', ''runtime/printf_format'', ''runtime/references'', ''runtime/string'',
    ''runtime/threadsafe_fn'', ''runtime/vlog'', ''whitespace/blank_line'', ''whitespace/braces'',
    ''whitespace/comma'', ''whitespace/comments'', ''whitespace/empty_conditional_body'',
    ''whitespace/empty_if_body'', ''whitespace/empty_loop_body'', ''whitespace/end_of_line'',
    ''whitespace/ending_newline'', ''whitespace/forcolon'', ''whitespace/indent'',
    ''whitespace/line_length'', ''whitespace/newline'', ''whitespace/operators'',
    ''whitespace/parens'', ''whitespace/semicolon'', ''whitespace/tab'', ''whitespace/todo''] \<subseteq> set error_categories"
  by (fold error_categories_def) (rule subset_refl)

lemmas known_category [simp] = known_categories [simplified]

lemma report_ok_mk [outcome_intros]:
  "\<lbrakk>l < n; k \<le> 5; c \<in> set error_categories\<rbrakk> \<Longrightarrow> report_ok f n (mk_report f (int l) c k m)"
  by (simp add: report_ok_def mk_report_def)

lemma reports_ok_Nil [simp, outcome_intros]: "reports_ok f n []"
  by (simp add: reports_ok_def)

lemma reports_ok_single [outcome_intros]: "report_ok f n r \<Longrightarrow> reports_ok f n [r]"
  by (simp add: reports_ok_def)

lemma reports_ok_append [outcome_intros]:
  "\<lbrakk>reports_ok f n rs; reports_ok f n rs'\<rbrakk> \<Longrightarrow> reports_ok f n (rs @ rs')"
  by (simp add: reports_ok_def)

lemma reports_ok_if [outcome_intros]:
  "\<lbrakk>c \<Longrightarrow> reports_ok f n rs; \<not> c \<Longrightarrow> reports_ok f n rs'\<rbrakk> \<Longrightarrow> reports_ok f n (if c then rs else rs')"
  by simp

lemma reports_ok_option [outcome_intros]:
  "\<lbrakk>x = None \<Longrightarrow> reports_ok f n rs; \<And>y. x = Some y \<Longrightarrow> reports_ok f n (g y)\<rbrakk> \<Longrightarrow>
   reports_ok f n (case x of None \<Rightarrow> rs | Some y \<Rightarrow> g y)"
  by (cases x) auto

lemma reports_ok_concat_map:
  "(\<And>x. x \<in> set xs \<Longrightarrow> reports_ok f n (g x)) \<Longrightarrow> reports_ok f n (concat (map g xs))"
  by (induction xs) (auto intro: reports_ok_append)

lemma outcome_may_reporting [outcome_intros]: "reports_ok f n rs \<Longrightarrow> outcome_may E f n (reporting rs)"
  by (simp add: outcome_may_def reporting_def)

lemma outcome_may_followed_by [outcome_intros]:
  "\<lbrakk>outcome_may E f n a; outcome_may E f n b\<rbrakk> \<Longrightarrow> outcome_may E f n (followed_by a b)"
  by (cases "snd a") (auto simp: outcome_may_def followed_by_def intro: reports_ok_append)

lemma outcome_may_in_order_Nil [outcome_intros]: "outcome_may E f n (in_order [])"
  by (simp add: in_order_def reporting_def outcome_may_def)

lemma outcome_may_in_order_Cons [outcome_intros]:
  "\<lbrakk>outcome_may E f n a; outcome_may E f n (in_order as)\<rbrakk> \<Longrightarrow> outcome_may E f n (in_order (a # as))"
  using outcome_may_followed_by [of E f n a "in_order as"] by (simp add: in_order_def)

lemma outcome_may_if [outcome_intros]:
  "\<lbrakk>c \<Longrightarrow> outcome_may E f n a; \<not> c \<Longrightarrow> outcome_may E f n b\<rbrakk> \<Longrightarrow> outcome_may E f n (if c then a else b)"
  by simp

lemma outcome_may_option [outcome_intros]:
  "\<lbrakk>x = None \<Longrightarrow> outcome_may E f n a; \<And>y. x = Some y \<Longrightarrow> outcome_may E f n (g y)\<rbrakk> \<Longrightarrow>
   outcome_may E f n (case x of None \<Rightarrow> a | Some y \<Rightarrow> g y)"
  by (cases x) auto

lemma outcome_may_prod [outcome_intros]:
  "(\<And>a b. x = (a, b) \<Longrightarrow> outcome_may E f n (g a b)) \<Longrightarrow> outcome_may E f n (case x of (a, b) \<Rightarrow> g a b)"
  by (cases x) auto

lemma reports_ok_prod [outcome_intros]:
  "(\<And>a b. x = (a, b) \<Longrightarrow> reports_ok f n (g a b)) \<Longrightarrow> reports_ok f n (case x of (a, b) \<Rightarrow> g a b)"
  by (cases x) auto

lemma outcome_may_attempt [outcome_intros]:
  "\<lbrakk>\<And>e. r = Inl e \<Longrightarrow> e \<in> E; \<And>x. r = Inr x \<Longrightarrow> outcome_may E f n (g x)\<rbrakk> \<Longrightarrow> outcome_may E f n (attempt r g)"
  by (cases r) (auto simp: outcome_may_def)

section \<open>Checks on the global state\<close>

text \<open>A step on a state that may raise; a list of steps ends at the first exception.\<close>

type_synonym 's action = "'s \<Rightarrow> 's \<times> py_error option"

definition and_then :: "'s action \<Rightarrow> 's action \<Rightarrow> 's action" where
  "and_then a b s = (case a s of (s', None) \<Rightarrow> b s' | (s', Some e) \<Rightarrow> (s', Some e))"

fun perform :: "'s action list \<Rightarrow> 's action" where
  "perform [] s = (s, None)"
| "perform (a # as) s = and_then a (perform as) s"

text \<open>A step keeps a property of the state, and ends normally or with an exception of \<open>E\<close>.\<close>

definition steady :: "py_error set \<Rightarrow> ('s \<Rightarrow> bool) \<Rightarrow> 's action \<Rightarrow> bool" where
  "steady E P a \<longleftrightarrow> (\<forall>s. P s \<longrightarrow> P (fst (a s)) \<and> set_option (snd (a s)) \<subseteq> E)"

lemma steadyI: "(\<And>s. P s \<Longrightarrow> P (fst (a s)) \<and> set_option (snd (a s)) \<subseteq> E) \<Longrightarrow> steady E P a"
  by (simp add: steady_def)

lemma steadyD: "steady E P a \<Longrightarrow> P s \<Longrightarrow> P (fst (a s)) \<and> set_option (snd (a s)) \<subseteq> E"
  by (simp add: steady_def)

lemma steady_mono: "steady E P a \<Longrightarrow> E \<subseteq> E' \<Longrightarrow> steady E' P a"
  by (fastforce simp: steady_def)

lemma steady_and_then: "steady E P a \<Longrightarrow> steady E P b \<Longrightarrow> steady E P (and_then a b)"
  by (auto simp: steady_def and_then_def split: prod.split option.split)

lemma steady_perform: "(\<And>a. a \<in> set as \<Longrightarrow> steady E P a) \<Longrightarrow> steady E P (perform as)"
proof (induction as)
  case (Cons a as)
  then have "steady E P (and_then a (perform as))" by (intro steady_and_then) auto
  then show ?case by (simp add: steady_def)
qed (simp add: steady_def)

section \<open>What a callback has to keep\<close>

text \<open>
  A property of the global state that the callback keeps for the reports of a check, and
  that does not depend on the suppressions read from NOLINT comments.
\<close>

locale lint_callback =
  fixes error :: "lint_globals handler"
    and inv :: "lint_globals \<Rightarrow> bool"
    and filename :: string
    and n :: nat
  assumes inv_error: "inv g \<Longrightarrow> report_ok filename n r \<Longrightarrow> inv (error r g)"
    and inv_suppress: "inv g \<Longrightarrow> inv (add_suppression k l g)"
begin

lemma emit_inv: "reports_ok filename n rs \<Longrightarrow> inv g \<Longrightarrow> inv (emit error rs g)"
  by (induction rs arbitrary: g) (auto simp: reports_ok_def inv_error)

lemma run_state_steady:
  "(\<And>g. inv g \<Longrightarrow> outcome_may E filename n (oc g)) \<Longrightarrow> steady E inv (\<lambda>g. run_outcome error (oc g) g)"
  by (simp add: steady_def outcome_may_def run_outcome_def emit_inv)

lemma run_steady: "outcome_may E filename n oc \<Longrightarrow> steady E inv (run_outcome error oc)"
  using run_state_steady [of E "\<lambda>_. oc"] by simp

lemma nolint_inv:
  assumes "0 \<le> l" and "l < int n" and "inv g"
  shows "inv (ParseNolintSuppressions error filename raw l g)"
proof -
  have "report_ok filename n (mk_report filename l ''readability/nolint'' 5 m)" for m
    using assms(1,2) by (simp add: report_ok_def mk_report_def)
  with assms(3) show ?thesis
    by (auto simp: ParseNolintSuppressions_def Let_def inv_error inv_suppress split: option.split)
qed

end

section \<open>Lists of lines\<close>

text \<open>A file whose four lists of lines have its length, as \<open>CleansedLines\<close> makes them.\<close>

definition lines_ok :: "cleansed_lines \<Rightarrow> bool" where
  "lines_ok c \<longleftrightarrow> length (elided c) = NumLines c \<and> length (cl_lines c) = NumLines c \<and>
     length (raw_lines c) = NumLines c \<and> length (lines_without_raw_strings c) = NumLines c"

text \<open>\<open>lines[i - 1]\<close>, which is the last line where \<open>i\<close> is 0.\<close>

definition line_before :: "string list \<Rightarrow> nat \<Rightarrow> string" where
  "line_before lines i = (if i = 0 then last lines else lines ! (i - 1))"

text \<open>\<open>s.rfind(c)\<close>\<close>

definition str_rfind :: "string \<Rightarrow> char \<Rightarrow> nat option" where
  "str_rfind s c = (if c \<in> set s then Some (length (dropWhile (\<lambda>x. x \<noteq> c) (rev s)) - 1) else None)"

lemma str_rfind_less: "str_rfind s c = Some k \<Longrightarrow> k < length s"
proof -
  assume "str_rfind s c = Some k"
  then have c: "c \<in> set s" and k: "k = length (dropWhile (\<lambda>x. x \<noteq> c) (rev s)) - 1"
    by (auto simp: str_rfind_def split: if_splits)
  from c have "dropWhile (\<lambda>x. x \<noteq> c) (rev s) \<noteq> []" by (simp add: dropWhile_eq_Nil_conv)
  moreover have "length (dropWhile (\<lambda>x. x \<noteq> c) (rev s)) \<le> length s"
    using length_dropWhile_le [of _ "rev s"] by simp
  ultimately show ?thesis using k by (cases "dropWhile (\<lambda>x. x \<noteq> c) (rev s)") auto
qed

text \<open>
  A search backwards from line \<open>i - 1\<close> down to line \<open>lo\<close> for a line with a property: its
  number plus one, or at most \<open>lo\<close> where there is none.
\<close>

fun back_until :: "(string \<Rightarrow> bool) \<Rightarrow> string list \<Rightarrow> nat \<Rightarrow> nat \<Rightarrow> nat" where
  "back_until p lines lo 0 = 0"
| "back_until p lines lo (Suc i) =
     (if Suc i \<le> lo \<or> p (lines ! i) then Suc i else back_until p lines lo i)"

lemma back_until_le: "back_until p lines lo i \<le> i"
  by (induction i) (auto intro: le_SucI)

lemma back_until_found:
  "lo < back_until p lines lo i \<Longrightarrow> p (lines ! (back_until p lines lo i - 1))"
  by (induction i) auto

lemma back_until_skipped:
  "\<lbrakk>back_until p lines lo i \<le> j; j < i; lo \<le> j\<rbrakk> \<Longrightarrow> \<not> p (lines ! j)"
proof (induction i)
  case (Suc i)
  then show ?case by (cases "j = i") (auto split: if_splits)
qed simp

definition IsBlankLine :: "string \<Rightarrow> bool" where
  "IsBlankLine line \<longleftrightarrow> list_all is_space line"

definition GetPreviousNonBlankLine :: "cleansed_lines \<Rightarrow> nat \<Rightarrow> string \<times> int" where
  "GetPreviousNonBlankLine clean_lines linenum =
     (let n = back_until (\<lambda>l. \<not> IsBlankLine l) (elided clean_lines) 0 linenum in
      if n = 0 then ([], -1) else (elided clean_lines ! (n - 1), int n - 1))"

lemma CloseExpression_Inr:
  assumes "linenum < length (elided c)" and "pos < length (elided c ! linenum)"
  shows "CloseExpression c linenum pos \<noteq> Inl e"
  using assms by (simp add: CloseExpression_def)

lemma ReverseCloseExpression_Inr:
  assumes "linenum < length (elided c)" and "pos < length (elided c ! linenum)"
  shows "ReverseCloseExpression c linenum pos \<noteq> Inl e"
  using assms by (simp add: ReverseCloseExpression_def)

text \<open>A position given by the length of the first group lies on the line.\<close>

lemma close_at_group:
  assumes "Match (Seqs (Bol # Grp 1 a # r # rs)) line = Some m" and "1 \<notin> set (all_groups (Seqs (r # rs)))"
    and "0 < min_len (Seqs (r # rs))" and "length line \<le> length (elided c ! linenum)"
    and "lines_ok c" and "linenum < NumLines c"
  shows "CloseExpression c linenum (length (grp m 1)) \<noteq> Inl e"
    "ReverseCloseExpression c linenum (length (grp m 1)) \<noteq> Inl e"
proof -
  have "length (grp m 1) < length (elided c ! linenum)" "linenum < length (elided c)"
    using head_group_length [OF assms(1,2)] assms(3-6) by (simp_all add: lines_ok_def)
  then show "CloseExpression c linenum (length (grp m 1)) \<noteq> Inl e"
    "ReverseCloseExpression c linenum (length (grp m 1)) \<noteq> Inl e"
    by (simp_all add: CloseExpression_Inr ReverseCloseExpression_Inr)
qed

end
