(* ===== verification/Spacing.thy ===== *)
theory Spacing
  imports Reporting
begin

text \<open>
  The checks of \<open>build_support/cpplint.py\<close> on the spacing of a line: calls of functions,
  comments, blank lines, operators, parentheses, commas, braces and sections of classes.
\<close>

section \<open>Calls of functions\<close>

text \<open>
  \<open>\bif\s*\((.*)\)\s*{\<close>,
  \<open>\bfor\s*\((.*)\)\s*{\<close>,
  \<open>\bwhile\s*\((.*)\)\s*[{;]\<close>,
  \<open>\bswitch\s*\((.*)\)\s*{\<close>
\<close>

definition if_call_re :: re where
  "if_call_re = Seqs [Wb, Lit ''if'', Star Space, Ch CHR ''('', Grp 1 (Star Any), Ch CHR '')'', Star Space,
     Ch CHR ''{'']"

definition for_call_re :: re where
  "for_call_re = Seqs [Wb, Lit ''for'', Star Space, Ch CHR ''('', Grp 1 (Star Any), Ch CHR '')'',
     Star Space, Ch CHR ''{'']"

definition while_call_re :: re where
  "while_call_re = Seqs [Wb, Lit ''while'', Star Space, Ch CHR ''('', Grp 1 (Star Any), Ch CHR '')'',
     Star Space, OneOf ''{;'']"

definition switch_call_re :: re where
  "switch_call_re = Seqs [Wb, Lit ''switch'', Star Space, Ch CHR ''('', Grp 1 (Star Any), Ch CHR '')'',
     Star Space, Ch CHR ''{'']"

text \<open>What is checked: the inside of the parentheses of a control structure, or the line.\<close>

fun first_group :: "re list \<Rightarrow> string \<Rightarrow> string" where
  "first_group [] line = line"
| "first_group (r # rs) line =
     (case Search r line of Some m \<Rightarrow> grp m 1 | None \<Rightarrow> first_group rs line)"

text \<open>
  \<open>\b(if|for|while|switch|return|new|delete|catch|sizeof)\b\<close>,
  \<open> \([^)]+\)\([^)]*(\)|,$)\<close>,
  \<open> \([^)]+\)\[[^\]]+\]\<close>
\<close>

definition control_word_re :: re where
  "control_word_re = Seqs [Wb, Grp 1 (Alts [Lit ''if'', Lit ''for'', Lit ''while'', Lit ''switch'',
     Lit ''return'', Lit ''new'', Lit ''delete'', Lit ''catch'', Lit ''sizeof'']), Wb]"

definition function_pointer_re :: re where
  "function_pointer_re = Seqs [Lit '' ('', Plus (NoneOf '')''), Lit '')('', Star (NoneOf '')''),
     Grp 1 (Alt (Ch CHR '')'') (Seq (Ch CHR '','') Eol))]"

definition array_pointer_re :: re where
  "array_pointer_re = Seqs [Lit '' ('', Plus (NoneOf '')''), Lit '')['', Plus (NoneOf '']''), Ch CHR '']'']"

text \<open>
  \<open>\w\s*\(\s(?!\s*\\$)\<close>,
  \<open>\(\s+(?!(\s*\\)|\()\<close>,
  \<open>\w\s+\(\<close>,
  \<open>_{0,2}asm_{0,2}\s+_{0,2}volatile_{0,2}\s+\(\<close>,
  \<open>#\s*define|typedef|using\s+\w+\s*=\<close>,
  \<open>\w\s+\((\w+::)*\*\w+\)\(\<close>,
  \<open>\bcase\s+\(\<close>,
  \<open>\boperator_*\b\<close>,
  \<open>[^)]\s+\)\s*[^{\s]\<close>,
  \<open>^\s+\)\<close>
\<close>

definition space_after_call_paren_re :: re where
  "space_after_call_paren_re = Seqs [Word, Star Space, Ch CHR ''('', Space, NLook (Seqs [Star Space, Ch bs,
     Eol])]"

definition space_after_paren_re :: re where
  "space_after_paren_re = Seqs [Ch CHR ''('', Plus Space,
     NLook (Alt (Grp 1 (Seq (Star Space) (Ch bs))) (Ch CHR ''(''))]"

definition space_before_paren_re :: re where
  "space_before_paren_re = Seqs [Word, Plus Space, Ch CHR ''('']"

definition asm_volatile_re :: re where
  "asm_volatile_re = Seqs [Opt (Seq (Ch CHR ''_'') (Opt (Ch CHR ''_''))), Lit ''asm'',
     Opt (Seq (Ch CHR ''_'') (Opt (Ch CHR ''_''))), Plus Space,
     Opt (Seq (Ch CHR ''_'') (Opt (Ch CHR ''_''))), Lit ''volatile'',
     Opt (Seq (Ch CHR ''_'') (Opt (Ch CHR ''_''))), Plus Space, Ch CHR ''('']"

definition define_typedef_re :: re where
  "define_typedef_re = Alts [Seqs [Ch CHR ''#'', Star Space, Lit ''define''], Lit ''typedef'',
     Seqs [Lit ''using'', Plus Space, Plus Word, Star Space, Ch CHR ''='']]"

definition member_pointer_re :: re where
  "member_pointer_re = Seqs [Word, Plus Space, Ch CHR ''('', Star (Grp 1 (Seq (Plus Word) (Lit ''::''))),
     Ch CHR ''*'', Plus Word, Lit '')('']"

definition case_paren_re :: re where
  "case_paren_re = Seqs [Wb, Lit ''case'', Plus Space, Ch CHR ''('']"

definition operator_word_re :: re where
  "operator_word_re = Seqs [Wb, Lit ''operator'', Star (Ch CHR ''_''), Wb]"

definition space_before_close_re :: re where
  "space_before_close_re = Seqs [NoneOf '')'', Plus Space, Ch CHR '')'', Star Space,
     Cls (\<lambda>c. \<not> is_space c \<and> c \<noteq> CHR ''{'')]"

definition only_close_re :: re where
  "only_close_re = Seqs [Bol, Plus Space, Ch CHR '')'']"

definition CheckSpacingForFunctionCall :: "string \<Rightarrow> cleansed_lines \<Rightarrow> nat \<Rightarrow> report list" where
  "CheckSpacingForFunctionCall filename clean_lines linenum =
     (let line = elided clean_lines ! linenum;
          fncall = first_group [if_call_re, for_call_re, while_call_re, switch_call_re] line;
          error = (\<lambda>confidence message.
            [mk_report filename (int linenum) ''whitespace/parens'' confidence message])
      in if \<not> found control_word_re fncall \<and> \<not> found function_pointer_re fncall \<and>
            \<not> found array_pointer_re fncall
         then (if found space_after_call_paren_re fncall
               then error 4 ''Extra space after ( in function call''
               else if found space_after_paren_re fncall then error 2 ''Extra space after (''
               else []) @
              (if found space_before_paren_re fncall \<and> \<not> found asm_volatile_re fncall \<and>
                  \<not> found define_typedef_re fncall \<and> \<not> found member_pointer_re fncall \<and>
                  \<not> found case_paren_re fncall
               then error (if found operator_word_re line then 0 else 4)
                 ''Extra space before ( in function call''
               else []) @
              (if found space_before_close_re fncall
               then if found only_close_re fncall
                    then error 2 ''Closing ) should be moved to the previous line''
                    else error 2 ''Extra space before )''
               else [])
         else [])"

section \<open>Comments\<close>

text \<open>
  \<open>^//(\s*)TODO(\(.+?\))?:?(\s|$)?\<close>,
  \<open>\\.\<close>,
  \<open>^.*{ *//\<close>,
  \<open>//[^ ]*\w\<close>,
  \<open>(///|//\!)(\s+|$)\<close>
\<close>

definition todo_re :: re where
  "todo_re = Seqs [Bol, Lit ''//'', Grp 1 (Star Space), Lit ''TODO'', Opt (Grp 2 (Seqs [Ch CHR ''('',
     Seq Any (LStar Any), Ch CHR '')''])), Opt (Ch CHR '':''), Opt (Grp 3 (Alt Space Eol))]"

definition escaped_re :: re where
  "escaped_re = Seq (Ch bs) Any"

definition brace_comment_re :: re where
  "brace_comment_re = Seqs [Bol, Star Any, Ch CHR ''{'', Star (Ch CHR '' ''), Lit ''//'']"

definition tight_comment_re :: re where
  "tight_comment_re = Seqs [Lit ''//'', Star (NoneOf '' ''), Word]"

definition doxygen_comment_re :: re where
  "doxygen_comment_re = Seq (Grp 1 (Seq (Lit ''//'') (OneOf ''/!''))) (Grp 2 (Alt (Plus Space) Eol))"

text \<open>\<open>string.whitespace\<close>\<close>

definition ascii_whitespace :: string where
  "ascii_whitespace = [CHR '' '', CHR 0x09, CHR 0x0A, CHR 0x0D, CHR 0x0B, CHR 0x0C]"

definition CheckComment :: "string \<Rightarrow> string \<Rightarrow> nat \<Rightarrow> nat \<Rightarrow> report list" where
  "CheckComment line filename linenum next_line_start =
     (let error = (\<lambda>category confidence message.
        [mk_report filename (int linenum) category confidence message])
      in case str_find line ''//'' of
        None \<Rightarrow> []
      | Some commentpos \<Rightarrow>
          if odd (str_count (re_sub escaped_re [] (take commentpos line)) [dq]) then []
          else
            (if \<not> (matches brace_comment_re line \<and> next_line_start = commentpos) \<and>
                (commentpos \<ge> 1 \<and> line ! (commentpos - 1) \<notin> set ascii_whitespace \<or>
                 commentpos \<ge> 2 \<and> line ! (commentpos - 2) \<notin> set ascii_whitespace)
             then error ''whitespace/comments'' 2 ''At least two spaces is best between code and comments''
             else []) @
            (let comment = drop commentpos line in
             (case Match todo_re comment of
                None \<Rightarrow> []
              | Some m \<Rightarrow>
                  (if length (grp m 1) > 1 then error ''whitespace/todo'' 2 ''Too many spaces before TODO''
                   else []) @
                  (if group m 2 = None \<or> group m 2 = Some []
                   then error ''readability/todo'' 2
                     (''Missing username in TODO; it should look like '' @
                      [dq] @ ''// TODO(my_username): Stuff.'' @ [dq])
                   else []) @
                  (if group m 3 \<noteq> Some '' '' \<and> group m 3 \<noteq> Some []
                   then error ''whitespace/todo'' 2 ''TODO(my_username) should be followed by a space''
                   else [])) @
             (if matches tight_comment_re comment \<and> \<not> matches doxygen_comment_re comment
              then error ''whitespace/comments'' 4 ''Should have a space between // and comment''
              else [])))"

section \<open>Blank lines\<close>

text \<open>
  \<open> {6}\w\<close>,
  \<open> {4}\w[^\(]*\)\s*(const\s*)?(\{\s*$|:)\<close>,
  \<open> {4}:\<close>,
  \<open>\s*}\<close>,
  \<open>\s*(public|protected|private):\<close>
\<close>

definition indent6_re :: re where
  "indent6_re = Seq (Seqs (replicate 6 (Ch CHR '' ''))) Word"

definition header_end_re :: re where
  "header_end_re = Seqs [Seqs (replicate 4 (Ch CHR '' '')), Word, Star (NoneOf ''(''), Ch CHR '')'',
     Star Space, Opt (Grp 1 (Seq (Lit ''const'') (Star Space))), Grp 2 (Alt (Seqs [Ch CHR ''{'',
     Star Space, Eol]) (Ch CHR '':''))]"

definition indent_colon_re :: re where
  "indent_colon_re = Seq (Seqs (replicate 4 (Ch CHR '' ''))) (Ch CHR '':'')"

definition close_brace_line_re :: re where
  "close_brace_line_re = Seq (Star Space) (Ch CHR ''}'')"

definition section_label_re :: re where
  "section_label_re = Seqs [Star Space, Grp 1 (Seq (Ch CHR ''p'') (Alts [Lit ''ublic'', Lit ''rotected'',
     Lit ''rivate''])), Ch CHR '':'']"

text \<open>The exceptions for a blank line after an opening brace.\<close>

definition blank_line_exception :: "string list \<Rightarrow> string \<Rightarrow> nat \<Rightarrow> bool" where
  "blank_line_exception lines prev_line linenum =
     (if matches indent6_re prev_line
      then let n = back_until (\<lambda>l. \<not> matches indent6_re l) lines 0 (linenum - 1)
        in n > 0 \<and> take 5 (lines ! (n - 1)) = ''    :''
      else matches header_end_re prev_line \<or> matches indent_colon_re prev_line)"

definition blank_line_reports :: "string \<Rightarrow> cleansed_lines \<Rightarrow> nat \<Rightarrow> report list" where
  "blank_line_reports filename clean_lines linenum =
     (let raw = lines_without_raw_strings clean_lines;
          prev_line = line_before (elided clean_lines) linenum;
          error = (\<lambda>confidence message.
            [mk_report filename (int linenum) ''whitespace/blank_line'' confidence message])
      in (case str_rfind prev_line CHR ''{'' of
            Some prevbrace \<Rightarrow>
              if CHR ''}'' \<notin> set (drop prevbrace prev_line) \<and>
                 \<not> blank_line_exception (elided clean_lines) prev_line linenum
              then error 2 ''Redundant blank line at the start of a code block should be deleted.''
              else []
          | None \<Rightarrow> []) @
         (if linenum + 1 < NumLines clean_lines \<and> raw ! (linenum + 1) \<noteq> [] \<and>
             matches close_brace_line_re (raw ! (linenum + 1)) \<and>
             str_find (raw ! (linenum + 1)) ''} else '' = None
          then error 3 ''Redundant blank line at the end of a code block should be deleted.'' else []) @
         (case Match section_label_re prev_line of
            Some m \<Rightarrow> error 3 (''Do not leave a blank line after '' @ [dq] @ grp m 1 @ '':'' @ [dq])
          | None \<Rightarrow> []))"

text \<open>
  \<open>\w\s+\[\<close>,
  \<open>(?:auto&?|delete|return)\s+\[\<close>,
  \<open>for *\(.*[^:]:[^: ]\<close>,
  \<open>for *\(.*[^: ]:[^:]\<close>
\<close>

definition space_bracket_re :: re where
  "space_bracket_re = Seqs [Word, Plus Space, Ch CHR ''['']"

definition bracket_word_re :: re where
  "bracket_word_re = Seqs [Alts [Seq (Lit ''auto'') (Opt (Ch CHR ''&'')), Lit ''delete'', Lit ''return''],
     Plus Space, Ch CHR ''['']"

definition for_colon_right_re :: re where
  "for_colon_right_re = Seqs [Lit ''for'', Star (Ch CHR '' ''), Ch CHR ''('', Star Any, NoneOf '':'',
     Ch CHR '':'', NoneOf '': '']"

definition for_colon_left_re :: re where
  "for_colon_left_re = Seqs [Lit ''for'', Star (Ch CHR '' ''), Ch CHR ''('', Star Any, NoneOf '': '',
     Ch CHR '':'', NoneOf '':'']"

definition CheckSpacing :: "string \<Rightarrow> cleansed_lines \<Rightarrow> nat \<Rightarrow> nesting_state \<Rightarrow> report list" where
  "CheckSpacing filename clean_lines linenum nesting_state =
     (let raw = lines_without_raw_strings clean_lines;
          line0 = raw ! linenum;
          next_line_start = (if linenum + 1 < NumLines clean_lines
            then length (raw ! (linenum + 1)) - length (lstrip (raw ! (linenum + 1))) else 0);
          line = elided clean_lines ! linenum
      in (if IsBlankLine line0 \<and> \<not> InNamespaceBody nesting_state \<and> \<not> InExternC nesting_state
          then blank_line_reports filename clean_lines linenum else []) @
         CheckComment line0 filename linenum next_line_start @
         (if found space_bracket_re line \<and> \<not> found bracket_word_re line
          then [mk_report filename (int linenum) ''whitespace/braces'' 5 ''Extra space before ['']
          else []) @
         (if found for_colon_right_re line \<or> found for_colon_left_re line
          then [mk_report filename (int linenum) ''whitespace/forcolon'' 2
                 ''Missing space around colon in range-based for loop'']
          else []))"

section \<open>Operators\<close>

text \<open>
  \<open>^(.*\boperator\b)(\S+)(\s*\(.*)$\<close>
\<close>

definition operator_name_re :: re where
  "operator_name_re = Seqs [Bol, Grp 1 (Seqs [Star Any, Wb, Lit ''operator'', Wb]), Grp 2 (Plus NonSpace),
     Grp 3 (Seqs [Star Space, Ch CHR ''('', Star Any]), Eol]"

text \<open>
  \<open>[\w.]=\<close>,
  \<open>=[\w.]\<close>,
  \<open>\b(if|while|for) \<close>,
  \<open>(>=|<=|==|!=|&=|\^=|\|=|\+=|\*=|\/=|\%=)\<close>,
  \<open>operator=\<close>,
  \<open>[^<>=!\s](==|!=|<=|>=|\|\|)[^<>=!\s,;\)]\<close>,
  \<open>#.*include\<close>,
  \<open>^(.*[^\s<])<[^\s=<,]\<close>,
  \<open>^(.*[^-\s>])>[^\s=>,]\<close>,
  \<open>(operator|[^\s(<])(?:L|UL|LL|ULL|l|ul|ll|ull)?<<([^\s,=<])\<close>,
  \<open>>>[a-zA-Z_]\<close>,
  \<open>(!\s|~\s|[\s]--[\s;]|[\s]\+\+[\s;])\<close>
\<close>

definition equals_left_re :: re where
  "equals_left_re = Seq (Cls (\<lambda>c. is_word c \<or> c = CHR ''.'')) (Ch CHR ''='')"

definition equals_right_re :: re where
  "equals_right_re = Seq (Ch CHR ''='') (Cls (\<lambda>c. is_word c \<or> c = CHR ''.''))"

definition if_while_for_re :: re where
  "if_while_for_re = Seqs [Wb, Grp 1 (Alts [Lit ''if'', Lit ''while'', Lit ''for'']), Ch CHR '' '']"

definition equals_operator_re :: re where
  "equals_operator_re = Grp 1 (Alts [Lit ''>='', Lit ''<='', Lit ''=='', Lit ''!='', Lit ''&='',
     Lit ''^='', Lit ''|='', Lit ''+='', Lit ''*='', Lit ''/='', Lit ''%=''])"

definition operator_equals_re :: re where
  "operator_equals_re = Lit ''operator=''"

definition tight_comparison_re :: re where
  "tight_comparison_re = Seqs [Cls (\<lambda>c. \<not> is_space c \<and> c \<notin> set ''<>=!''),
     Grp 1 (Alts [Lit ''=='', Lit ''!='', Lit ''<='', Lit ''>='', Lit ''||'']),
     Cls (\<lambda>c. \<not> is_space c \<and> c \<notin> set ''<>=!,;)'')]"

definition hash_include_re :: re where
  "hash_include_re = Seqs [Ch CHR ''#'', Star Any, Lit ''include'']"

definition tight_less_re :: re where
  "tight_less_re = Seqs [Bol,
     Grp 1 (Seq (Star Any) (Cls (\<lambda>c. \<not> is_space c \<and> c \<noteq> CHR ''<''))),
     Ch CHR ''<'', Cls (\<lambda>c. \<not> is_space c \<and> c \<notin> set ''=<,'')]"

definition tight_greater_re :: re where
  "tight_greater_re = Seqs [Bol,
     Grp 1 (Seq (Star Any) (Cls (\<lambda>c. \<not> is_space c \<and> c \<notin> set ''->''))),
     Ch CHR ''>'', Cls (\<lambda>c. \<not> is_space c \<and> c \<notin> set ''=>,'')]"

definition tight_shift_re :: re where
  "tight_shift_re = Seqs [Grp 1 (Alt (Lit ''operator'') (Cls (\<lambda>c. \<not> is_space c \<and> c
     \<notin> set ''(<''))), Opt (Alts [Ch CHR ''L'', Lit ''UL'', Lit ''LL'', Lit ''ULL'', Ch CHR ''l'',
     Lit ''ul'', Lit ''ll'', Lit ''ull'']), Lit ''<<'',
     Grp 2 (Cls (\<lambda>c. \<not> is_space c \<and> c \<notin> set '',=<''))]"

definition tight_right_shift_re :: re where
  "tight_right_shift_re = Seq (Lit ''>>'') (Cls (\<lambda>c. is_lower_ascii c \<or> is_upper_ascii c \<or>
     c = CHR ''_''))"

definition unary_space_re :: re where
  "unary_space_re = Grp 1 (Alts [Seq (Ch CHR ''!'') Space, Seq (Ch CHR ''~'') Space, Seqs [Space,
     Lit ''--'', Cls (\<lambda>c. is_space c \<or> c = CHR '';'')], Seqs [Space, Lit ''++'',
     Cls (\<lambda>c. is_space c \<or> c = CHR '';'')]])"

text \<open>
  The match leaves a character that is neither a word character nor a space directly after
  \<open>operator\<close>; the loop replaces it, so that it ends.
\<close>

definition odd_char :: "char \<Rightarrow> bool" where
  "odd_char c \<longleftrightarrow> \<not> is_word c \<and> \<not> is_space c"

lemma no_groups: "x \<in> set (rm r s st) \<Longrightarrow> all_groups r = [] \<Longrightarrow> snd x = snd st"
  using rm_caps_step [of x r s st] by (auto simp: caps_step_def)

lemma after_operator:
  assumes "(x, d) \<in> set (rm (Seqs [Star Any, Wb, Lit ''operator'', Wb]) line (0, []))"
  shows "\<not> word_at line x \<and> d = []"
proof -
  from assms obtain w where w: "startswith (drop w line) ''operator''" "x = w + length ''operator''"
    "at_boundary line x" and d: "(w, d) \<in> set (rm (Star Any) line (0, []))"
    by (auto simp: rm_Seqs_Cons rm_Lit rm_Seqs_Nil simp del: Seqs.simps startswith_Cons split: if_splits)
  then obtain t where t: "drop w line = ''operator'' @ t" by (auto simp: startswith_iff)
  then have "length (drop w line) = length (''operator'' @ t)" by simp
  then have "length line - w = 8 + length t" by simp
  moreover have "line ! (w + 7) = CHR ''r''"
    using arg_cong [OF t, of "\<lambda>s. s ! 7"] calculation by simp
  moreover have "is_word CHR ''r''" by code_simp
  ultimately have "word_at line (x - 1)" using w(2) by (simp add: word_at_def numeral_eq_Suc)
  with w(2,3) show ?thesis using no_groups [OF d] by (auto simp: at_boundary_def Any_def)
qed

lemma operator_match:
  assumes "Match operator_name_re line = Some m"
  obtains x y z where "x < y" "y \<le> z" "z \<le> length line" "odd_char (line ! x)"
    "grp m 1 = take x line" "grp m 2 = slice line x y" "grp m 3 = slice line y z"
proof -
  let ?head = "Seqs [Star Any, Wb, Lit ''operator'', Wb]"
  let ?tail = "Seqs [Star Space, Ch CHR ''('', Star Any]"
  have re: "operator_name_re = Seq Bol (Seq (Grp 1 ?head) (Seq (Grp 2 (Plus NonSpace)) (Seq (Grp 3 ?tail) Eol)))"
    by (simp add: operator_name_re_def Seqs.simps)
  note D = MatchD [OF assms]
  from D(5) obtain x d y d2 z d3 where
    x: "(x, d) \<in> set (rm ?head line (0, []))" and
    y: "(y, d2) \<in> set (rm (Plus NonSpace) line (x, (1, 0, x) # d))" and
    z: "(z, d3) \<in> set (rm ?tail line (y, (2, x, y) # d2))" and
    m: "m_end m = z" "m_caps m = (3, y, z) # d3"
    unfolding re by (auto simp del: Seqs.simps split: if_splits)
  have d2: "d2 = (1, 0, x) # d" using no_groups [OF y] by (simp add: Plus_def)
  have d3: "d3 = (2, x, y) # d2" using no_groups [OF z] by (simp add: Any_def Ch_def Seqs.simps)
  from y have xy: "x < length line" "\<not> is_space (line ! x)"
    by (auto simp: Plus_def split: if_splits)
  have "x < y" using rm_min_len [OF y] xy by (simp add: Plus_def)
  moreover have "odd_char (line ! x)" using after_operator [OF x] xy by (simp add: odd_char_def word_at_def)
  moreover have "y \<le> z \<and> z \<le> length line"
    using rm_forward [OF z] rm_forward [OF y] xy by simp
  ultimately show ?thesis
    using that [of x y z] D(1) m d2 d3 by (simp add: grp_caps slice_def)
qed

function hide_operators :: "string \<Rightarrow> string" where
  "hide_operators line =
     (case Match operator_name_re line of
        Some m \<Rightarrow> hide_operators (grp m 1 @ replicate (length (grp m 2)) CHR ''_'' @ grp m 3)
      | None \<Rightarrow> line)"
  by pat_completeness auto

lemma hidden_fewer:
  assumes "Match operator_name_re line = Some m"
  shows "length (filter odd_char (grp m 1 @ replicate (length (grp m 2)) CHR ''_'' @ grp m 3))
    < length (filter odd_char line)"
proof -
  from assms obtain x y z where x: "x < y" "y \<le> z" "z \<le> length line" "odd_char (line ! x)"
    "grp m 1 = take x line" "grp m 2 = slice line x y" "grp m 3 = slice line y z"
    by (rule operator_match)
  have "line = take x line @ slice line x y @ slice line y z @ drop z line"
    using x(1-3) by (simp add: slice_def flip: append_assoc take_add)
  from arg_cong [OF this, of "\<lambda>s. length (filter odd_char s)"]
  have "length (filter odd_char line) = length (filter odd_char (take x line)) +
    length (filter odd_char (slice line x y)) + length (filter odd_char (slice line y z)) +
    length (filter odd_char (drop z line))" by simp
  moreover have "slice line x y = line ! x # slice line (Suc x) y"
    using x(1-3) by (simp add: slice_def Cons_nth_drop_Suc [symmetric] take_Cons')
  moreover have "\<not> odd_char CHR ''_''" by (simp add: odd_char_def is_word_def)
  then have "filter odd_char (replicate n CHR ''_'') = []" for n by (simp add: filter_empty_conv)
  ultimately show ?thesis using x(4-7) by (simp del: replicate.simps)
qed

termination hide_operators
  by (relation "measure (\<lambda>line. length (filter odd_char line))") (auto dest: hidden_fewer)

declare hide_operators.simps [simp del]

text \<open>\<open>str.isdigit\<close>, which counts superscripts as digits.\<close>

definition str_isdigit :: "string \<Rightarrow> bool" where
  "str_isdigit s \<longleftrightarrow> s \<noteq> [] \<and>
     list_all (\<lambda>c. is_digit c \<or> (of_char c :: nat) \<in> {178, 179, 185}) s"

definition angle_reports :: "string \<Rightarrow> cleansed_lines \<Rightarrow> nat \<Rightarrow> string \<Rightarrow> outcome" where
  "angle_reports filename clean_lines linenum line =
     (let error = (\<lambda>message.
            reporting [mk_report filename (int linenum) ''whitespace/operators'' 3 message])
      in followed_by
        (case Match tight_less_re line of
           None \<Rightarrow> reporting []
         | Some m \<Rightarrow> attempt (CloseExpression clean_lines linenum (length (grp m 1)))
             (\<lambda>(_, _, end_pos). if end_pos \<le> -1 then error ''Missing spaces around <'' else reporting []))
        (case Match tight_greater_re line of
           None \<Rightarrow> reporting []
         | Some m \<Rightarrow> attempt (ReverseCloseExpression clean_lines linenum (length (grp m 1)))
             (\<lambda>(_, _, start_pos). if start_pos \<le> -1 then error ''Missing spaces around >''
                                  else reporting [])))"

definition CheckOperatorSpacing :: "string \<Rightarrow> cleansed_lines \<Rightarrow> nat \<Rightarrow> outcome" where
  "CheckOperatorSpacing filename clean_lines linenum =
     (let line = hide_operators (elided clean_lines ! linenum);
          error = (\<lambda>confidence message.
            [mk_report filename (int linenum) ''whitespace/operators'' confidence message])
      in in_order
       [reporting
         (if (found equals_left_re line \<or> found equals_right_re line) \<and> \<not> found if_while_for_re line \<and>
             \<not> found equals_operator_re line \<and> \<not> found operator_equals_re line
          then error 4 ''Missing spaces around ='' else []),
        (case Search tight_comparison_re line of
           Some m \<Rightarrow> reporting (error 3 (''Missing spaces around '' @ grp m 1))
         | None \<Rightarrow> if matches hash_include_re line then reporting []
                   else angle_reports filename clean_lines linenum line),
        reporting
         (case Search tight_shift_re line of
            Some m \<Rightarrow>
              if \<not> (str_isdigit (grp m 1) \<and> str_isdigit (grp m 2)) \<and>
                 \<not> (grp m 1 = ''operator'' \<and> grp m 2 = '';'')
              then error 3 ''Missing spaces around <<'' else []
          | None \<Rightarrow> []),
        reporting
         (if found tight_right_shift_re line then error 3 ''Missing spaces around >>'' else []),
        reporting
         (case Search unary_space_re line of
            Some m \<Rightarrow> error 4 (''Extra space for operator '' @ grp m 1)
          | None \<Rightarrow> [])])"

section \<open>Parentheses and commas\<close>

text \<open>
  \<open> (if\(|for\(|while\(|switch\()\<close>,
  \<open>\b(if|for|while|switch)\s*\(([ ]*)(.).*[^ ]+([ ]*)\)\s*{\s*$\<close>,
  \<open>\bfor\s*\(.*; \)\<close>
\<close>

definition keyword_paren_re :: re where
  "keyword_paren_re = Seq (Ch CHR '' '') (Grp 1 (Alts [Lit ''if('', Lit ''for('', Lit ''while('',
     Lit ''switch('']))"

definition paren_spaces_re :: re where
  "paren_spaces_re = Seqs [Wb, Grp 1 (Alts [Lit ''if'', Lit ''for'', Lit ''while'', Lit ''switch'']),
     Star Space, Ch CHR ''('', Grp 2 (Star (Ch CHR '' '')), Grp 3 Any, Star Any, Plus (NoneOf '' ''),
     Grp 4 (Star (Ch CHR '' '')), Ch CHR '')'', Star Space, Ch CHR ''{'', Star Space, Eol]"

definition for_semicolon_re :: re where
  "for_semicolon_re = Seqs [Wb, Lit ''for'', Star Space, Ch CHR ''('', Star Any, Lit ''; )'']"

definition CheckParenthesisSpacing :: "string \<Rightarrow> cleansed_lines \<Rightarrow> nat \<Rightarrow> report list" where
  "CheckParenthesisSpacing filename clean_lines linenum =
     (let line = elided clean_lines ! linenum;
          error = (\<lambda>message. [mk_report filename (int linenum) ''whitespace/parens'' 5 message])
      in (case Search keyword_paren_re line of
            Some m \<Rightarrow> error (''Missing space before ( in '' @ grp m 1)
          | None \<Rightarrow> []) @
         (case Search paren_spaces_re line of
            None \<Rightarrow> []
          | Some m \<Rightarrow>
              (if length (grp m 2) \<noteq> length (grp m 4) \<and>
                  \<not> (grp m 3 = '';'' \<and> length (grp m 2) = 1 + length (grp m 4) \<or>
                     grp m 2 = [] \<and> found for_semicolon_re line)
               then error (''Mismatching spaces inside () in '' @ grp m 1) else []) @
              (if length (grp m 2) \<notin> {0, 1}
               then error (''Should have zero or one spaces inside ( and ) in '' @ grp m 1) else [])))"

text \<open>
  \<open>,[^,\s]\<close>,
  \<open>\boperator\s*,\s*\(\<close>,
  \<open>;[^\s};\\)/]\<close>
\<close>

definition tight_comma_re :: re where
  "tight_comma_re = Seq (Ch CHR '','') (Cls (\<lambda>c. \<not> is_space c \<and> c \<noteq> CHR '',''))"

definition operator_comma_re :: re where
  "operator_comma_re = Seqs [Wb, Lit ''operator'', Star Space, Ch CHR '','', Star Space, Ch CHR ''('']"

definition tight_semicolon_re :: re where
  "tight_semicolon_re = Seq (Ch CHR '';'') (Cls (\<lambda>c. \<not> is_space c \<and> c \<notin> set
     (''};)/'' @ [bs])))"

definition CheckCommaSpacing :: "string \<Rightarrow> cleansed_lines \<Rightarrow> nat \<Rightarrow> report list" where
  "CheckCommaSpacing filename clean_lines linenum =
     (let line = elided clean_lines ! linenum
      in (if found tight_comma_re (ReplaceAll operator_comma_re ''F('' line) \<and>
             found tight_comma_re (lines_without_raw_strings clean_lines ! linenum)
          then [mk_report filename (int linenum) ''whitespace/comma'' 3 ''Missing space after ,''] else []) @
         (if found tight_semicolon_re line
          then [mk_report filename (int linenum) ''whitespace/semicolon'' 3 ''Missing space after ;'']
          else []))"

section \<open>Braces\<close>

text \<open>
  \<open>^.*(\b\S+)$\<close>
\<close>

definition last_token_re :: re where
  "last_token_re = Seqs [Bol, Star Any, Grp 1 (Seq Wb (Plus NonSpace)), Eol]"

text \<open>\<open>\b(?:typename|class|struct)\s+\<close>, the escaped name, \<open>\b\<close>\<close>

definition typename_re :: "string \<Rightarrow> re" where
  "typename_re token = Seqs [Wb, Alts [Lit ''typename'', Lit ''class'', Lit ''struct''], Plus Space,
     Lit token, Wb]"

text \<open>The blocks from the innermost one outwards, up to a namespace.\<close>

fun is_template_type :: "string list \<Rightarrow> re \<Rightarrow> block list \<Rightarrow> bool" where
  "is_template_type lines pattern [] = False"
| "is_template_type lines pattern (b # outer) =
     (if is_namespace b then False
      else
        let last = starting_linenum b;
            next_block_start = (case outer of [] \<Rightarrow> 0 | p # _ \<Rightarrow> starting_linenum p);
            n = back_until (\<lambda>l. str_find l ''template'' \<noteq> None) lines next_block_start (last + 1)
        in (next_block_start < n \<and> (\<exists>i \<in> set [n - 1..<last + 1]. found pattern (lines ! i))) \<or>
           is_template_type lines pattern outer)"

definition IsType :: "cleansed_lines \<Rightarrow> nesting_state \<Rightarrow> string \<Rightarrow> bool" where
  "IsType clean_lines nesting_state expr =
     (let token = (case Match last_token_re expr of Some m \<Rightarrow> grp m 1 | None \<Rightarrow> expr)
      in matches types_re token \<or>
         is_template_type (elided clean_lines) (typename_re token) (stack nesting_state))"

text \<open>
  \<open>^(.*[^ ({>]){\<close>,
  \<open>^[\s}]*[{.;,)<>\]:]\<close>,
  \<open>}else\<close>,
  \<open>:\s*;\s*$\<close>,
  \<open>^\s*;\s*$\<close>,
  \<open>\s+;\s*$\<close>,
  \<open>\bfor\b\<close>
\<close>

definition tight_brace_re :: re where
  "tight_brace_re = Seqs [Bol, Grp 1 (Seq (Star Any) (NoneOf '' ({>'')), Ch CHR ''{'']"

definition initializer_tail_re :: re where
  "initializer_tail_re = Seqs [Bol, Star (Cls (\<lambda>c. is_space c \<or> c = CHR ''}'')),
     OneOf ''{.;,)<>]:'']"

definition tight_else_re :: re where
  "tight_else_re = Lit ''}else''"

definition label_semicolon_re :: re where
  "label_semicolon_re = Seqs [Ch CHR '':'', Star Space, Ch CHR '';'', Star Space, Eol]"

definition only_semicolon_re :: re where
  "only_semicolon_re = Seqs [Bol, Star Space, Ch CHR '';'', Star Space, Eol]"

definition space_semicolon_re :: re where
  "space_semicolon_re = Seqs [Plus Space, Ch CHR '';'', Star Space, Eol]"

definition for_word_re :: re where
  "for_word_re = Seqs [Wb, Lit ''for'', Wb]"

text \<open>The text after a closing brace and on the next two lines.\<close>

definition trailing_text :: "cleansed_lines \<Rightarrow> string \<times> nat \<times> int \<Rightarrow> string" where
  "trailing_text clean_lines r =
     (let (endline, endlinenum, endpos) = r in
      (if endpos > -1 then drop (nat endpos) endline else []) @
      concat (map (\<lambda>offset. elided clean_lines ! offset)
        [endlinenum + 1..<min (endlinenum + 3) (NumLines clean_lines - 1)]))"

definition CheckBracesSpacing :: "string \<Rightarrow> cleansed_lines \<Rightarrow> nat \<Rightarrow> nesting_state \<Rightarrow> outcome" where
  "CheckBracesSpacing filename clean_lines linenum nesting_state =
     (let line = elided clean_lines ! linenum;
          error = (\<lambda>category message. [mk_report filename (int linenum) category 5 message])
      in in_order
       [(case Match tight_brace_re line of
           None \<Rightarrow> reporting []
         | Some m \<Rightarrow> attempt (CloseExpression clean_lines linenum (length (grp m 1)))
             (\<lambda>r. reporting
               (if \<not> matches initializer_tail_re (trailing_text clean_lines r) \<and>
                   \<not> IsType clean_lines nesting_state (grp m 1)
                then error ''whitespace/braces'' ''Missing space before {'' else []))),
        reporting
         (if found tight_else_re line then error ''whitespace/braces'' ''Missing space before else''
          else []),
        reporting
         (if found label_semicolon_re line
          then error ''whitespace/semicolon'' ''Semicolon defining empty statement. Use {} instead.''
          else if found only_semicolon_re line
          then error ''whitespace/semicolon'' (''Line contains only semicolon. If this should be an '' @
            ''empty statement, use {} instead.'')
          else if found space_semicolon_re line \<and> \<not> found for_word_re line
          then error ''whitespace/semicolon'' (''Extra space before last semicolon. If this should be '' @
            ''an empty statement, use {} instead.'')
          else [])])"

text \<open>
  \<open>\bdecltype\s*$\<close>
\<close>

definition decltype_end_re :: re where
  "decltype_end_re = Seqs [Wb, Lit ''decltype'', Star Space, Eol]"

definition IsDecltype :: "cleansed_lines \<Rightarrow> nat \<Rightarrow> nat \<Rightarrow> py_error + bool" where
  "IsDecltype clean_lines linenum column =
     map_sum id (\<lambda>(text_line, _, start_col).
         0 \<le> start_col \<and> found decltype_end_re (take (nat start_col) text_line))
       (ReverseCloseExpression clean_lines linenum column)"

section \<open>Sections of a class\<close>

text \<open>
  \<open>\b(class|struct)\b\<close>,
  \<open>\\$\<close>,
  \<open>\{\s*$\<close>
\<close>

definition class_struct_re :: re where
  "class_struct_re = Seqs [Wb, Grp 1 (Alt (Lit ''class'') (Lit ''struct'')), Wb]"

definition backslash_end_re :: re where
  "backslash_end_re = Seq (Ch bs) Eol"

definition open_brace_end_re :: re where
  "open_brace_end_re = Seqs [Ch CHR ''{'', Star Space, Eol]"

definition CheckSectionSpacing ::
  "string \<Rightarrow> cleansed_lines \<Rightarrow> nat \<Rightarrow> class_info \<Rightarrow> nat \<Rightarrow> report list" where
  "CheckSectionSpacing filename clean_lines start info linenum =
     (if int (last_line info) - int start \<le> 24 \<or> linenum \<le> start then []
      else (case Match section_label_re (cl_lines clean_lines ! linenum) of
          None \<Rightarrow> []
        | Some matched \<Rightarrow>
            let prev_line = cl_lines clean_lines ! (linenum - 1);
                end_class_head = (case find (\<lambda>i. found open_brace_end_re (cl_lines clean_lines ! i))
                    [start..<linenum] of Some i \<Rightarrow> i | None \<Rightarrow> start)
            in if \<not> IsBlankLine prev_line \<and> \<not> found class_struct_re prev_line \<and>
                  \<not> found backslash_end_re prev_line \<and> end_class_head < linenum - 1
               then [mk_report filename (int linenum) ''whitespace/blank_line'' 3
                 ([dq] @ grp matched 1 @ '':'' @ [dq] @ '' should be preceded by a blank line'')]
               else []))"

section \<open>The checks keep their promise\<close>

lemma length_hide_operators: "length (hide_operators line) \<le> length line"
proof (induction line rule: hide_operators.induct)
  case (1 line)
  show ?case
  proof (cases "Match operator_name_re line")
    case (Some m)
    from operator_match [OF Some] obtain x y z where "x < y" "y \<le> z" "z \<le> length line"
      "grp m 1 = take x line" "grp m 2 = slice line x y" "grp m 3 = slice line y z" .
    then have "length (grp m 1 @ replicate (length (grp m 2)) CHR ''_'' @ grp m 3) \<le> length line"
      by simp
    with "1.IH" [OF Some] Some show ?thesis by (subst hide_operators.simps) simp
  qed (simp add: hide_operators.simps)
qed

lemma CheckSpacingForFunctionCall_ok:
  assumes "linenum < NumLines c"
  shows "reports_ok f (NumLines c) (CheckSpacingForFunctionCall f c linenum)"
  using assms unfolding CheckSpacingForFunctionCall_def Let_def
  by (intro outcome_intros) auto

lemma CheckComment_ok:
  assumes "linenum < n"
  shows "reports_ok f n (CheckComment line f linenum k)"
  using assms unfolding CheckComment_def Let_def
  by (intro outcome_intros) auto

lemma CheckSpacing_ok:
  assumes "linenum < NumLines c"
  shows "reports_ok f (NumLines c) (CheckSpacing f c linenum s)"
  using assms unfolding CheckSpacing_def blank_line_reports_def Let_def
  by (intro outcome_intros CheckComment_ok) auto

lemma CheckOperatorSpacing_ok:
  assumes "lines_ok c" and "linenum < NumLines c"
  shows "outcome_ok f (NumLines c) (CheckOperatorSpacing f c linenum)"
proof -
  let ?line = "hide_operators (elided c ! linenum)"
  have "CloseExpression c linenum (length (grp m 1)) \<noteq> Inl e" if "Match tight_less_re ?line = Some m" for m e
    using that [unfolded tight_less_re_def] 
    by (rule close_at_group) (use assms in \<open>simp_all add: length_hide_operators Seqs.simps Ch_def\<close>)
  moreover have "ReverseCloseExpression c linenum (length (grp m 1)) \<noteq> Inl e"
    if "Match tight_greater_re ?line = Some m" for m e
    using that [unfolded tight_greater_re_def] 
    by (rule close_at_group) (use assms in \<open>simp_all add: length_hide_operators Seqs.simps Ch_def\<close>)
  ultimately show ?thesis
    using assms unfolding CheckOperatorSpacing_def angle_reports_def Let_def
    by (intro outcome_intros) auto
qed

lemma CheckParenthesisSpacing_ok:
  assumes "linenum < NumLines c"
  shows "reports_ok f (NumLines c) (CheckParenthesisSpacing f c linenum)"
  using assms unfolding CheckParenthesisSpacing_def Let_def
  by (intro outcome_intros) auto

lemma CheckCommaSpacing_ok:
  assumes "linenum < NumLines c"
  shows "reports_ok f (NumLines c) (CheckCommaSpacing f c linenum)"
  using assms unfolding CheckCommaSpacing_def Let_def
  by (intro outcome_intros) auto

lemma CheckBracesSpacing_ok:
  assumes "lines_ok c" and "linenum < NumLines c"
  shows "outcome_ok f (NumLines c) (CheckBracesSpacing f c linenum s)"
proof -
  have "CloseExpression c linenum (length (grp m 1)) \<noteq> Inl e"
    if "Match tight_brace_re (elided c ! linenum) = Some m" for m e
    using that [unfolded tight_brace_re_def] 
    by (rule close_at_group) (use assms in \<open>simp_all add: Seqs.simps Ch_def\<close>)
  then show ?thesis
    using assms unfolding CheckBracesSpacing_def Let_def
    by (intro outcome_intros) auto
qed

lemma CheckSectionSpacing_ok:
  assumes "linenum < NumLines c"
  shows "reports_ok f (NumLines c) (CheckSectionSpacing f c start ci linenum)"
  using assms unfolding CheckSectionSpacing_def Let_def
  by (intro outcome_intros) auto

end
