(* ===== verification/Braces.thy ===== *)
theory Braces
  imports Spacing
begin

text \<open>
  The checks of \<open>build_support/cpplint.py\<close> on braces and on the bodies of statements:
  \<open>CheckBraces\<close>, \<open>CheckTrailingSemicolon\<close> and \<open>CheckEmptyBlockBody\<close>.
\<close>

section \<open>Misplaced braces\<close>

text \<open>
  \<open>GetLineWidth\<close>: no character of the modelled range is combining, wide or changed by the
  normalisation, so that each takes one column.
\<close>

definition GetLineWidth :: "string \<Rightarrow> int" where
  "GetLineWidth line = int (length line)"

text \<open>\<open>s.find(p, i)\<close>\<close>

definition str_find_from :: "string \<Rightarrow> string \<Rightarrow> nat \<Rightarrow> nat option" where
  "str_find_from s p i = map_option (\<lambda>k. i + k) (str_find (drop i s) p)"

text \<open>
  \<open>\s*{\s*$\<close>,
  \<open>[,;:}{(]\s*$\<close>,
  \<open>\s*#\<close>,
  \<open>\s*else\b\s*(?:if\b|\{|$)\<close>,
  \<open>\s*}\s*$\<close>
\<close>

definition open_brace_line_re :: re where
  "open_brace_line_re = Seqs [Star Space, Ch CHR ''{'', Star Space, Eol]"

definition open_allowed_re :: re where
  "open_allowed_re = Seqs [OneOf '',;:}{('', Star Space, Eol]"

definition preprocessor_re :: re where
  "preprocessor_re = Seq (Star Space) (Ch CHR ''#'')"

definition else_line_re :: re where
  "else_line_re = Seqs [Star Space, Lit ''else'', Wb, Star Space, Alts [Seq (Lit ''if'') Wb, Ch CHR ''{'',
     Eol]]"

definition close_line_re :: re where
  "close_line_re = Seqs [Star Space, Ch CHR ''}'', Star Space, Eol]"

definition line_start_brace :: "lint_globals \<Rightarrow> string \<Rightarrow> cleansed_lines \<Rightarrow> nat \<Rightarrow> report list" where
  "line_start_brace g filename clean_lines linenum =
     (let line = elided clean_lines ! linenum;
          prevline = fst (GetPreviousNonBlankLine clean_lines linenum)
      in (if matches open_brace_line_re line \<and> \<not> found open_allowed_re prevline \<and>
             \<not> matches preprocessor_re prevline \<and>
             \<not> (GetLineWidth prevline > line_length g - 2 \<and> str_find prevline ''[]'' \<noteq> None)
          then [mk_report filename (int linenum) ''whitespace/braces'' 4
                 ''{ should almost always be at the end of the previous line''] else []) @
         (if matches else_line_re line \<and> matches close_line_re prevline
          then [mk_report filename (int linenum) ''whitespace/newline'' 4
                 ''An else should appear on the same line as the preceding }''] else []))"

text \<open>
  \<open>else if\s*\(\<close>,
  \<open>}\s*else if\s*\(\<close>,
  \<open>}\s*else[^{]*$\<close>,
  \<open>[^}]*else\s*{\<close>
\<close>

definition else_if_re :: re where
  "else_if_re = Seqs [Lit ''else if'', Star Space, Ch CHR ''('']"

definition brace_else_if_re :: re where
  "brace_else_if_re = Seqs [Ch CHR ''}'', Star Space, Lit ''else if'', Star Space, Ch CHR ''('']"

definition brace_else_re :: re where
  "brace_else_re = Seqs [Ch CHR ''}'', Star Space, Lit ''else'', Star (NoneOf ''{''), Eol]"

definition else_brace_re :: re where
  "else_brace_re = Seqs [Star (NoneOf ''}''), Lit ''else'', Star Space, Ch CHR ''{'']"

definition else_braces :: "string \<Rightarrow> cleansed_lines \<Rightarrow> nat \<Rightarrow> outcome" where
  "else_braces filename clean_lines linenum =
     (let line = elided clean_lines ! linenum;
          report = reporting [mk_report filename (int linenum) ''readability/braces'' 5
            ''If an else has a brace on one side, it should have it on both'']
      in if found else_if_re line
         then let brace_on_left = found brace_else_if_re line in
           (case Option.bind (str_find line ''else if'') (str_find_from line ''('') of
              None \<Rightarrow> reporting []
            | Some pos \<Rightarrow>
                if pos > 0
                then attempt (CloseExpression clean_lines linenum pos) (\<lambda>(endline, _, endpos).
                  let brace_on_right = CHR ''{'' \<in> set (str_from endline endpos)
                  in if brace_on_left \<noteq> brace_on_right then report else reporting [])
                else reporting [])
         else if found brace_else_re line \<or> matches else_brace_re line then report
         else reporting [])"

text \<open>
  \<open>\belse [^\s{]\<close>,
  \<open>\belse if\b\<close>,
  \<open>\s*do [^\s{]\<close>,
  \<open>\b(if\s*\(|else\b)\<close>,
  \<open>\bif\s*\(\<close>,
  \<open>\s*{\<close>,
  \<open>\s*$\<close>,
  \<open>;[\s}]*(\\?)$\<close>,
  \<open>^[^{};]*\[[^\[\]]*\][^{}]*\{[^{}]*\}\s*\)*[;,]\s*$\<close>,
  \<open>\s*else\b\<close>
\<close>

definition else_clause_re :: re where
  "else_clause_re = Seqs [Wb, Lit ''else '',
     Cls (\<lambda>c. \<not> is_space c \<and> c \<noteq> CHR ''{'')]"

definition else_if_word_re :: re where
  "else_if_word_re = Seqs [Wb, Lit ''else if'', Wb]"

definition do_clause_re :: re where
  "do_clause_re = Seqs [Star Space, Lit ''do '',
     Cls (\<lambda>c. \<not> is_space c \<and> c \<noteq> CHR ''{'')]"

definition if_else_re :: re where
  "if_else_re = Seq Wb (Grp 1 (Alt (Seqs [Lit ''if'', Star Space, Ch CHR ''('']) (Seq (Lit ''else'') Wb)))"

definition if_paren_re :: re where
  "if_paren_re = Seqs [Wb, Lit ''if'', Star Space, Ch CHR ''('']"

definition brace_ahead_re :: re where
  "brace_ahead_re = Seq (Star Space) (Ch CHR ''{'')"

definition blank_rest_re :: re where
  "blank_rest_re = Seq (Star Space) Eol"

definition semicolon_end_re :: re where
  "semicolon_end_re = Seqs [Ch CHR '';'', Star (Cls (\<lambda>c. is_space c \<or> c = CHR ''}'')),
     Grp 1 (Opt (Ch bs)), Eol]"

definition lambda_line_re :: re where
  "lambda_line_re = Seqs [Bol, Star (NoneOf ''{};''), Ch CHR ''['', Star (NoneOf ''[]''), Ch CHR '']'',
     Star (NoneOf ''{}''), Ch CHR ''{'', Star (NoneOf ''{}''), Ch CHR ''}'', Star Space,
     Star (Ch CHR '')''), OneOf '';,'', Star Space, Eol]"

definition else_start_re :: re where
  "else_start_re = Seqs [Star Space, Lit ''else'', Wb]"

text \<open>The first line from \<open>n\<close> on, which is read from column \<open>endpos\<close>, that has a semicolon.\<close>

definition semicolon_line :: "string list \<Rightarrow> nat \<Rightarrow> int \<Rightarrow> nat" where
  "semicolon_line lines n endpos =
     (if length lines \<le> n then n
      else if CHR '';'' \<in> set (str_from (lines ! n) endpos) then n
      else case find (\<lambda>i. CHR '';'' \<in> set (lines ! i)) [n + 1..<length lines] of
             Some i \<Rightarrow> i | None \<Rightarrow> length lines)"

text \<open>The statement after an \<open>if\<close> or \<open>else\<close> without braces, from the end of its head.\<close>

definition single_statement :: "string \<Rightarrow> cleansed_lines \<Rightarrow> nat \<Rightarrow> bool \<Rightarrow> nat \<Rightarrow> int \<Rightarrow> report list" where
  "single_statement filename clean_lines linenum has_if endlinenum0 endpos =
     (let lines = elided clean_lines;
          if_indent = GetIndentLevel (lines ! linenum);
          endlinenum = semicolon_line lines endlinenum0 endpos;
          error = (\<lambda>message. [mk_report filename (int linenum) ''readability/braces'' 4 message])
      in if endlinenum < length lines
         then let endline = lines ! endlinenum;
                  tail = (case str_find endline '';'' of Some i \<Rightarrow> drop i endline | None \<Rightarrow> str_from endline (-1))
           in if \<not> matches semicolon_end_re tail
              then (if \<not> matches lambda_line_re endline
                    then error ''If/else bodies with multiple statements require braces'' else [])
              else if endlinenum + 1 < length lines
              then let next_line = lines ! (endlinenum + 1); next_indent = GetIndentLevel next_line
                in if has_if \<and> matches else_start_re next_line \<and> next_indent \<noteq> if_indent
                   then error (''Else clause should be indented at the same level as if. '' @
                     ''Ambiguous nested if/else chains require braces.'')
                   else if next_indent > if_indent
                   then error ''If/else bodies with multiple statements require braces''
                   else []
              else []
         else [])"

definition if_else_body :: "string \<Rightarrow> cleansed_lines \<Rightarrow> nat \<Rightarrow> outcome" where
  "if_else_body filename clean_lines linenum =
     (let lines = elided clean_lines; line = lines ! linenum in
      case Search if_else_re line of
        None \<Rightarrow> reporting []
      | Some if_else_match \<Rightarrow>
          if matches preprocessor_re line then reporting []
          else
            let if_match = Search if_paren_re line;
                end_of_head = (case if_match of
                    None \<Rightarrow> Inr (line, linenum, int (m_end if_else_match))
                  | Some m \<Rightarrow> CloseExpression clean_lines linenum (m_end m - 1))
            in attempt end_of_head (\<lambda>(endline, endlinenum, endpos).
              reporting
                (if \<not> matches brace_ahead_re (str_from endline endpos) \<and>
                    \<not> (matches blank_rest_re (str_from endline endpos) \<and> endlinenum + 1 < length lines \<and>
                       matches brace_ahead_re (lines ! (endlinenum + 1)))
                 then single_statement filename clean_lines linenum (if_match \<noteq> None) endlinenum endpos
                 else [])))"

definition CheckBraces :: "lint_globals \<Rightarrow> string \<Rightarrow> cleansed_lines \<Rightarrow> nat \<Rightarrow> outcome" where
  "CheckBraces g filename clean_lines linenum =
     (let line = elided clean_lines ! linenum in
      in_order
       [reporting (line_start_brace g filename clean_lines linenum),
        else_braces filename clean_lines linenum,
        reporting
         ((if found else_clause_re line \<and> \<not> found else_if_word_re line
           then [mk_report filename (int linenum) ''whitespace/newline'' 4
             ''Else clause should never be on same line as else (use 2 lines)''] else []) @
          (if matches do_clause_re line
           then [mk_report filename (int linenum) ''whitespace/newline'' 4
             ''do/while clauses should not be on a single line''] else [])),
        if_else_body filename clean_lines linenum])"

section \<open>Semicolons after a block\<close>

text \<open>
  \<open>^(.*\)\s*)\{\<close>,
  \<open>\b([A-Z_][A-Z0-9_]*)\s*$\<close>,
  \<open>^(.*\])\s*$\<close>,
  \<open>\boperator\s*\[\s*\]\<close>,
  \<open>\b(?:struct|union)\s+alignas\s*$\<close>,
  \<open>\bdecltype$\<close>,
  \<open>\s+=\s*$\<close>,
  \<open>\]\s*$\<close>,
  \<open>^(.*(?:else|\)\s*const)\s*)\{\<close>,
  \<open>[;{}]\s*$\<close>,
  \<open>^(\s*)\{\<close>,
  \<open>^\s*;\<close>
\<close>

definition paren_brace_re :: re where
  "paren_brace_re = Seqs [Bol, Grp 1 (Seqs [Star Any, Ch CHR '')'', Star Space]), Ch CHR ''{'']"

definition macro_name_re :: re where
  "macro_name_re = Seqs [Wb,
     Grp 1 (Seq (Cls (\<lambda>c. is_upper_ascii c \<or> c = CHR ''_'')) (Star (Cls (\<lambda>c.
     is_upper_ascii c \<or> is_digit c \<or> c = CHR ''_'')))), Star Space, Eol]"

definition index_end_re :: re where
  "index_end_re = Seqs [Bol, Grp 1 (Seq (Star Any) (Ch CHR '']'')), Star Space, Eol]"

definition operator_index_re :: re where
  "operator_index_re = Seqs [Wb, Lit ''operator'', Star Space, Ch CHR ''['', Star Space, Ch CHR '']'']"

definition alignas_end_re :: re where
  "alignas_end_re = Seqs [Wb, Alt (Lit ''struct'') (Lit ''union''), Plus Space, Lit ''alignas'',
     Star Space, Eol]"

definition decltype_only_re :: re where
  "decltype_only_re = Seqs [Wb, Lit ''decltype'', Eol]"

definition assign_end_re :: re where
  "assign_end_re = Seqs [Plus Space, Ch CHR ''='', Star Space, Eol]"

definition bracket_end_re :: re where
  "bracket_end_re = Seqs [Ch CHR '']'', Star Space, Eol]"

definition else_const_brace_re :: re where
  "else_const_brace_re = Seqs [Bol, Grp 1 (Seqs [Star Any, Alt (Lit ''else'') (Seqs [Ch CHR '')'',
     Star Space, Lit ''const'']), Star Space]), Ch CHR ''{'']"

definition statement_end_re :: re where
  "statement_end_re = Seqs [OneOf '';{}'', Star Space, Eol]"

definition brace_start_re :: re where
  "brace_start_re = Seqs [Bol, Grp 1 (Star Space), Ch CHR ''{'']"

definition semicolon_ahead_re :: re where
  "semicolon_ahead_re = Seqs [Bol, Star Space, Ch CHR '';'']"

definition safe_macros :: "string list" where
  "safe_macros = [''TEST'', ''TEST_F'', ''MATCHER'', ''MATCHER_P'', ''TYPED_TEST'',
     ''EXCLUSIVE_LOCKS_REQUIRED'', ''SHARED_LOCKS_REQUIRED'', ''LOCKS_EXCLUDED'', ''INTERFACE_DEF'']"

text \<open>What precedes the parenthesis is a macro, an index, or another place where a semicolon is right.\<close>

definition no_warning_before :: "string \<Rightarrow> bool" where
  "no_warning_before line_prefix \<longleftrightarrow>
     (case Search macro_name_re line_prefix of
        Some macro \<Rightarrow> grp macro 1 \<notin> set safe_macros | None \<Rightarrow> False) \<or>
     (case Match index_end_re line_prefix of
        Some func \<Rightarrow> \<not> found operator_index_re (grp func 1) | None \<Rightarrow> False) \<or>
     found alignas_end_re line_prefix \<or> found decltype_only_re line_prefix \<or>
     found assign_end_re line_prefix"

text \<open>The column of an opening brace whose block should not be followed by a semicolon.\<close>

definition block_brace :: "cleansed_lines \<Rightarrow> nat \<Rightarrow> py_error + nat option" where
  "block_brace clean_lines linenum =
     (let lines = elided clean_lines; line = lines ! linenum in
      case Match paren_brace_re line of
        Some m \<Rightarrow>
          map_sum id (\<lambda>(paren_line, paren_linenum, paren_pos).
              if paren_pos > -1 \<and> no_warning_before (take (nat paren_pos) paren_line) then None
              else if paren_linenum > 1 \<and> found bracket_end_re (lines ! (paren_linenum - 1)) then None
              else Some (length (grp m 1)))
            (ReverseCloseExpression clean_lines linenum
              (case str_rfind (grp m 1) CHR '')'' of Some i \<Rightarrow> i | None \<Rightarrow> 0))
      | None \<Rightarrow>
          (case Match else_const_brace_re line of
             Some m \<Rightarrow> Inr (Some (length (grp m 1)))
           | None \<Rightarrow>
               let prevline = fst (GetPreviousNonBlankLine clean_lines linenum)
               in if prevline \<noteq> [] \<and> found statement_end_re prevline
                  then Inr (map_option (\<lambda>m. length (grp m 1)) (Match brace_start_re line))
                  else Inr None))"

text \<open>
  The check reads the NOLINT comments at the end of the block before it reports, so it works
  on the global state.
\<close>

definition CheckTrailingSemicolon ::
  "lint_globals handler \<Rightarrow> string \<Rightarrow> cleansed_lines \<Rightarrow> nat \<Rightarrow> lint_globals \<Rightarrow> lint_globals \<times> py_error option" where
  "CheckTrailingSemicolon error filename clean_lines linenum g =
     (case block_brace clean_lines linenum of
        Inl e \<Rightarrow> (g, Some e)
      | Inr None \<Rightarrow> (g, None)
      | Inr (Some pos) \<Rightarrow>
          (case CloseExpression clean_lines linenum pos of
             Inl e \<Rightarrow> (g, Some e)
           | Inr (endline, endlinenum, endpos) \<Rightarrow>
               if endpos > -1 \<and> matches semicolon_ahead_re (str_from endline endpos)
               then let raw = raw_lines clean_lines;
                        g1 = ParseNolintSuppressions error filename (line_before raw endlinenum)
                               (int endlinenum - 1) g;
                        g2 = ParseNolintSuppressions error filename (raw ! endlinenum) (int endlinenum) g1
                 in (error (mk_report filename (int endlinenum) ''readability/braces'' 4
                       (''You don'' @ [sq] @ ''t need a ; after a }'')) g2, None)
               else (g, None)))"

section \<open>Empty bodies\<close>

text \<open>
  \<open>\s*(for|while|if)\s*\(\<close>,
  \<open>;\<close>,
  \<open>^\s*\{\<close>,
  \<open>^(?!\s*$)\<close>,
  \<open>^\s*$|^(?=\s*else)\<close>,
  \<open>^(?=\s*else)\<close>
\<close>

definition loop_head_re :: re where
  "loop_head_re = Seqs [Star Space, Grp 1 (Alts [Lit ''for'', Lit ''while'', Lit ''if'']), Star Space,
     Ch CHR ''('']"

definition semicolon_next_re :: re where
  "semicolon_next_re = Ch CHR '';''"

definition brace_next_re :: re where
  "brace_next_re = Seqs [Bol, Star Space, Ch CHR ''{'']"

definition not_blank_re :: re where
  "not_blank_re = Seq Bol (NLook (Seq (Star Space) Eol))"

definition blank_or_else_re :: re where
  "blank_or_else_re = Seq Bol (Alt (Seq (Star Space) Eol) (Look (Seq (Star Space) (Lit ''else''))))"

definition else_ahead_re :: re where
  "else_ahead_re = Seq Bol (Look (Seq (Star Space) (Lit ''else'')))"

text \<open>The opening brace after a condition: its line, and the text it was found in.\<close>

fun opening_brace :: "nat \<Rightarrow> string \<Rightarrow> string list \<Rightarrow> (nat \<times> string) option" where
  "opening_brace n fragment [] = (if found brace_next_re fragment then Some (n, fragment) else None)"
| "opening_brace n fragment (line # lines) =
     (if found brace_next_re fragment then Some (n, fragment)
      else if found not_blank_re fragment then None
      else opening_brace (n + 1) line lines)"

text \<open>Whether only blank text precedes an \<open>else\<close>.\<close>

fun else_follows :: "string \<Rightarrow> string list \<Rightarrow> bool" where
  "else_follows fragment [] = found else_ahead_re fragment"
| "else_follows fragment (line # lines) =
     (if found blank_or_else_re fragment
      then found else_ahead_re fragment \<or> else_follows line lines
      else False)"

text \<open>The text between the braces, as the code joins it.\<close>

definition body_text :: "cleansed_lines \<Rightarrow> nat \<Rightarrow> nat \<Rightarrow> nat \<Rightarrow> nat \<Rightarrow> string" where
  "body_text clean_lines opening_linenum opening_pos closing_linenum closing_pos =
     (let opening_line = elided clean_lines ! opening_linenum in
      if closing_linenum > opening_linenum
      then str_join [CHR 0x0A]
        (map (\<lambda>c. [c]) (drop (opening_pos + 1) opening_line) @
         drop (opening_linenum + 1) (take closing_linenum (raw_lines clean_lines)) @
         [take (closing_pos - 1) (elided clean_lines ! closing_linenum)])
      else slice opening_line (opening_pos + 1) (closing_pos - 1))"

definition empty_if_body :: "string \<Rightarrow> cleansed_lines \<Rightarrow> string \<Rightarrow> nat \<Rightarrow> nat \<Rightarrow> outcome" where
  "empty_if_body filename clean_lines end_line end_linenum end_pos =
     (let lines = elided clean_lines in
      case opening_brace end_linenum (drop end_pos end_line) (drop (end_linenum + 1) lines) of
        None \<Rightarrow> reporting []
      | Some (opening_linenum, fragment) \<Rightarrow>
          let brace = (case str_find fragment ''{'' of Some i \<Rightarrow> i | None \<Rightarrow> 0);
              opening_pos = (if opening_linenum = end_linenum then brace + end_pos else brace)
          in attempt (CloseExpression clean_lines opening_linenum opening_pos)
            (\<lambda>(closing_line, closing_linenum, closing_pos).
              reporting
                (if closing_pos < 0 then []
                 else if raw_lines clean_lines ! opening_linenum \<noteq>
                         CleanseComments (raw_lines clean_lines ! opening_linenum) then []
                 else if \<not> found empty_conditional_body_re
                         (body_text clean_lines opening_linenum opening_pos closing_linenum (nat closing_pos))
                 then []
                 else if else_follows (drop (nat closing_pos) closing_line) (drop (closing_linenum + 1) lines)
                 then []
                 else [mk_report filename (int end_linenum) ''whitespace/empty_if_body'' 4
                        ''If statement had no body and no else clause''])))"

definition CheckEmptyBlockBody :: "string \<Rightarrow> cleansed_lines \<Rightarrow> nat \<Rightarrow> outcome" where
  "CheckEmptyBlockBody filename clean_lines linenum =
     (let line = elided clean_lines ! linenum in
      case Match loop_head_re line of
        None \<Rightarrow> reporting []
      | Some matched \<Rightarrow>
          attempt (CloseExpression clean_lines linenum
              (case str_find line ''('' of Some i \<Rightarrow> i | None \<Rightarrow> 0))
            (\<lambda>(end_line, end_linenum, end_pos).
              followed_by
                (reporting
                  (if end_pos \<ge> 0 \<and> matches semicolon_next_re (drop (nat end_pos) end_line)
                   then if grp matched 1 = ''if''
                     then [mk_report filename (int end_linenum) ''whitespace/empty_conditional_body'' 5
                            ''Empty conditional bodies should use {}'']
                     else [mk_report filename (int end_linenum) ''whitespace/empty_loop_body'' 5
                            ''Empty loop bodies should use {} or continue'']
                   else []))
                (if end_pos \<ge> 0 \<and> grp matched 1 = ''if''
                 then empty_if_body filename clean_lines end_line end_linenum (nat end_pos)
                 else reporting [])))"

section \<open>The checks keep their promise\<close>

lemma str_find_less: "str_find s p = Some k \<Longrightarrow> 0 < length p \<Longrightarrow> k < length s"
  using str_find_Some [of s p k] by linarith

lemma str_find_from_less: "str_find_from s p i = Some k \<Longrightarrow> 0 < length p \<Longrightarrow> k < length s"
  using str_find_less [of "drop i s" p] by (auto simp: str_find_from_def)

lemma found_nonempty: "found r s \<Longrightarrow> 0 < min_len r \<Longrightarrow> s \<noteq> []"
  using Search_end [of r s] by (auto simp del: not_None_eq simp: not_None_eq [symmetric])

lemma matches_nonempty: "Match r s = Some m \<Longrightarrow> 0 < min_len r \<Longrightarrow> s \<noteq> []"
  using MatchD(3,4) [of r s m] by auto

lemma else_braces_ok:
  assumes "lines_ok c" and "linenum < NumLines c"
  shows "outcome_ok f (NumLines c) (else_braces f c linenum)"
proof -
  have "CloseExpression c linenum pos \<noteq> Inl e"
    if "Option.bind (str_find (elided c ! linenum) k) (str_find_from (elided c ! linenum) ''('') = Some pos"
    for k pos e
  proof (rule CloseExpression_Inr)
    show "pos < length (elided c ! linenum)"
      using that str_find_from_less [of _ "''(''"] by (auto split: Option.bind_splits)
  qed (use assms in \<open>simp add: lines_ok_def\<close>)
  then show ?thesis
    using assms(2) unfolding else_braces_def Let_def by (intro outcome_intros) auto
qed

lemma if_else_body_ok:
  assumes "lines_ok c" and "linenum < NumLines c"
  shows "outcome_ok f (NumLines c) (if_else_body f c linenum)"
proof -
  have "CloseExpression c linenum (m_end m - 1) \<noteq> Inl e"
    if "Search if_paren_re (elided c ! linenum) = Some m" for m e
  proof (rule CloseExpression_Inr)
    have "0 < min_len if_paren_re" by (simp add: if_paren_re_def Seqs.simps Ch_def)
    with Search_end [OF that] show "m_end m - 1 < length (elided c ! linenum)" by linarith
  qed (use assms in \<open>simp add: lines_ok_def\<close>)
  then have "(case Search if_paren_re (elided c ! linenum) of
      None \<Rightarrow> Inr (elided c ! linenum, linenum, int k)
    | Some m \<Rightarrow> CloseExpression c linenum (m_end m - 1)) \<noteq> Inl e" for k e
    by (simp split: option.split)
  then show ?thesis
    using assms(2) unfolding if_else_body_def single_statement_def Let_def
    by (intro outcome_intros) auto
qed

lemma CheckBraces_ok:
  assumes "lines_ok c" and "linenum < NumLines c"
  shows "outcome_ok f (NumLines c) (CheckBraces g f c linenum)"
  using assms unfolding CheckBraces_def line_start_brace_def Let_def
  by (intro outcome_intros else_braces_ok if_else_body_ok) auto

lemma opening_brace_place:
  "opening_brace n fragment lines = Some (k, g) \<Longrightarrow>
   found brace_next_re g \<and>
   (k = n \<and> g = fragment \<or> n < k \<and> k - n - 1 < length lines \<and> g = lines ! (k - n - 1))"
proof (induction n fragment lines rule: opening_brace.induct)
  case (2 n fragment line lines)
  show ?case
  proof (cases "found brace_next_re fragment")
    case False
    with 2 have "opening_brace (n + 1) line lines = Some (k, g)" "\<not> found not_blank_re fragment"
      by (auto split: if_splits)
    with 2 False have "found brace_next_re g \<and> (k = n + 1 \<and> g = line \<or>
      n + 1 < k \<and> k - (n + 1) - 1 < length lines \<and> g = lines ! (k - (n + 1) - 1))" by blast
    with less_iff_Suc_add [of "n + 1" k] show ?thesis by auto
  qed (use 2 in auto)
qed (auto split: if_splits)

lemma empty_if_body_ok:
  assumes ok: "lines_ok c" and n: "end_linenum < NumLines c" and l: "end_line = elided c ! end_linenum"
  shows "outcome_ok f (NumLines c) (empty_if_body f c end_line end_linenum end_pos)"
proof -
  have "CloseExpression c k (if k = end_linenum then b + end_pos else b) \<noteq> Inl e"
    if k: "opening_brace end_linenum (drop end_pos end_line) (drop (end_linenum + 1) (elided c)) = Some (k, g)"
    and b: "b = (case str_find g ''{'' of Some i \<Rightarrow> i | None \<Rightarrow> 0)" for k g b e
  proof -
    note P = opening_brace_place [OF k]
    have "g \<noteq> []"
      by (rule found_nonempty [of brace_next_re]) (use P in \<open>auto simp: brace_next_re_def Seqs.simps Ch_def\<close>)
    then have bg: "b < length g"
      using b str_find_less [of g "''{''"] by (auto split: option.split)
    show ?thesis
    proof (rule CloseExpression_Inr)
      show "k < length (elided c)" using P n ok by (auto simp: lines_ok_def)
      show "(if k = end_linenum then b + end_pos else b) < length (elided c ! k)"
        using P bg l by (auto simp: nth_drop)
    qed
  qed
  then show ?thesis
    using n unfolding empty_if_body_def Let_def by (intro outcome_intros) auto
qed

lemma CheckEmptyBlockBody_ok:
  assumes ok: "lines_ok c" and n: "linenum < NumLines c"
  shows "outcome_ok f (NumLines c) (CheckEmptyBlockBody f c linenum)"
proof -
  let ?line = "elided c ! linenum"
  have "CloseExpression c linenum (case str_find ?line ''('' of Some i \<Rightarrow> i | None \<Rightarrow> 0) \<noteq> Inl e"
    if "Match loop_head_re ?line = Some m" for m e
  proof (rule CloseExpression_Inr)
    have "?line \<noteq> []"
      by (rule matches_nonempty [OF that]) (simp add: loop_head_re_def Seqs.simps Ch_def)
    then show "(case str_find ?line ''('' of Some i \<Rightarrow> i | None \<Rightarrow> 0) < length ?line"
      using str_find_less [of ?line "''(''"] by (auto split: option.split)
  qed (use assms in \<open>simp add: lines_ok_def\<close>)
  moreover have "end_linenum < NumLines c \<and> end_line = elided c ! end_linenum"
    if "CloseExpression c linenum pos = Inr (end_line, end_linenum, end_pos)" and "0 \<le> end_pos"
    for pos end_line end_linenum end_pos
    using close_expression_bounds [OF that(1)] that(2) ok by (auto simp: lines_ok_def)
  ultimately show ?thesis
    using ok unfolding CheckEmptyBlockBody_def Let_def
    by (intro outcome_intros empty_if_body_ok) auto
qed

lemma block_brace_inside:
  assumes "lines_ok c" and "linenum < NumLines c"
  shows "case block_brace c linenum of Inl _ \<Rightarrow> False | Inr None \<Rightarrow> True
    | Inr (Some pos) \<Rightarrow> pos < length (elided c ! linenum)"
proof -
  let ?line = "elided c ! linenum"
  have brace: "length (grp m 1) < length ?line"
    if "Match (Seqs [Bol, Grp 1 a, Ch CHR ''{'']) ?line = Some m" for m a
    using head_group_length [OF that] by (simp add: Seqs.simps Ch_def)
  note head = brace [of "Seqs [Star Any, Ch CHR '')'', Star Space]", folded paren_brace_re_def]
    brace [of "Seqs [Star Any, Alt (Lit ''else'') (Seqs [Ch CHR '')'', Star Space, Lit ''const'']),
      Star Space]", folded else_const_brace_re_def]
    brace [of "Star Space", folded brace_start_re_def]
  have "ReverseCloseExpression c linenum
      (case str_rfind (grp m 1) CHR '')'' of Some i \<Rightarrow> i | None \<Rightarrow> 0) \<noteq> Inl e"
    if "Match paren_brace_re ?line = Some m" for m e
  proof (rule ReverseCloseExpression_Inr)
    show "(case str_rfind (grp m 1) CHR '')'' of Some i \<Rightarrow> i | None \<Rightarrow> 0) < length ?line"
      using head(1) [OF that] by (auto dest!: str_rfind_less split: option.split)
  qed (use assms in \<open>simp add: lines_ok_def\<close>)
  note no_error = this
  show ?thesis
  proof (cases "Match paren_brace_re ?line")
    case (Some m)
    then obtain x where "ReverseCloseExpression c linenum
        (case str_rfind (grp m 1) CHR '')'' of Some i \<Rightarrow> i | None \<Rightarrow> 0) = Inr x"
      using no_error by (meson sum.exhaust)
    with Some head(1) [OF Some] show ?thesis
      by (simp add: block_brace_def Let_def split: prod.split)
  next
    case None
    then show ?thesis
      using head(2,3) by (auto simp: block_brace_def Let_def split: option.split)
  qed
qed

context lint_callback
begin

lemma CheckTrailingSemicolon_inv:
  assumes ok: "lines_ok c" and n: "n = NumLines c" and l: "0 < linenum \<or> elided c ! linenum = []" "linenum < n"
    and g: "inv g"
  shows "inv (fst (CheckTrailingSemicolon error filename c linenum g)) \<and>
    set_option (snd (CheckTrailingSemicolon error filename c linenum g)) \<subseteq> {}"
proof -
  from block_brace_inside [OF ok, of linenum] n l consider (no) "block_brace c linenum = Inr None"
    | (yes) pos where "block_brace c linenum = Inr (Some pos)" "pos < length (elided c ! linenum)"
    by (auto split: sum.splits option.splits)
  then show ?thesis
  proof cases
    case no
    with g show ?thesis by (simp add: CheckTrailingSemicolon_def)
  next
    case yes
    then obtain el en ep where ce: "CloseExpression c linenum pos = Inr (el, en, ep)"
      using CloseExpression_Inr [of linenum c pos] ok n l
      by (cases "CloseExpression c linenum pos") (auto simp: lines_ok_def)
    have "0 < en \<and> en < n" if "ep > -1"
      using close_expression_bounds [OF ce] that l ok n yes(2) by (auto simp: lines_ok_def)
    then show ?thesis
      using yes ce g
      by (auto simp: CheckTrailingSemicolon_def Let_def
          intro!: inv_error nolint_inv report_ok_mk)
  qed
qed

end

end
