(* ===== verification/Assertions.thy ===== *)
theory Assertions
  imports Braces
begin

text \<open>
  The checks of \<open>build_support/cpplint.py\<close> on assertion macros (\<open>CheckCheck\<close>) and on
  alternative tokens (\<open>CheckAltTokens\<close>), and what a suggested macro means.
\<close>

section \<open>The macro on a line\<close>

text \<open>\<open>^(.*\b\<close>, the macro, \<open>\s*)\(\<close>\<close>

definition macro_call_re :: "string \<Rightarrow> re" where
  "macro_call_re macro = Seqs [Bol, Grp 1 (Seqs [Star Any, Wb, Lit macro, Star Space]), Ch CHR ''('']"

fun find_macro :: "string list \<Rightarrow> string \<Rightarrow> (string \<times> nat) option" where
  "find_macro [] line = None"
| "find_macro (macro # macros) line =
     (if str_find line macro = None then find_macro macros line
      else case Match (macro_call_re macro) line of
             None \<Rightarrow> find_macro macros line
           | Some matched \<Rightarrow> Some (macro, length (grp matched 1)))"

definition FindCheckMacro :: "string \<Rightarrow> (string \<times> nat) option" where
  "FindCheckMacro line = find_macro check_macros line"

section \<open>The operands of the condition\<close>

text \<open>
  \<open>^\s*(<<|<<=|>>|>>=|->\*|->|&&|\|\||==|!=|>=|>|<=|<|\()(.*)$\<close>,
  \<open>^([^-=!<>()&|]+)(.*)$\<close>,
  \<open>^(\s*\S)(.*)$\<close>
\<close>

definition check_tokens :: "string list" where
  "check_tokens = [''<<'', ''<<='', ''>>'', ''>>='', ''->*'', ''->'', ''&&'', ''||'',
     ''=='', ''!='', ''>='', ''>'', ''<='', ''<'', ''('']"

definition check_token_re :: re where
  "check_token_re = Seqs ([Bol, Star Space, Grp 1 (Alts (map Lit check_tokens))] @ [Grp 2 (Star Any), Eol])"

definition operand_re :: re where
  "operand_re = Seqs ([Bol, Grp 1 (Plus (NoneOf ''-=!<>()&|''))] @ [Grp 2 (Star Any), Eol])"

definition operand_char_re :: re where
  "operand_char_re = Seqs ([Bol, Grp 1 (Seq (Star Space) NonSpace)] @ [Grp 2 (Star Any), Eol])"

lemma check_rest_shorter:
  "Match check_token_re s = Some m \<Longrightarrow> length (grp m 2) < length s"
  "Match operand_re s = Some m \<Longrightarrow> length (grp m 2) < length s"
  "Match operand_char_re s = Some m \<Longrightarrow> length (grp m 2) < length s"
proof -
  show "Match check_token_re s = Some m \<Longrightarrow> length (grp m 2) < length s"
    unfolding check_token_re_def
    by (drule tail_group_length [where k = 2]) (auto simp: check_tokens_def Seqs.simps Alts.simps Lit_def Ch_def)
  show "Match operand_re s = Some m \<Longrightarrow> length (grp m 2) < length s"
    unfolding operand_re_def
    by (drule tail_group_length [where k = 2]) (auto simp: Seqs.simps Plus_def NoneOf_def)
  show "Match operand_char_re s = Some m \<Longrightarrow> length (grp m 2) < length s"
    unfolding operand_char_re_def
    by (drule tail_group_length [where k = 2]) (auto simp: Seqs.simps)
qed

text \<open>
  The loop over the condition: \<open>None\<close> where the check returns, otherwise the left operand
  and, where a comparison was found, the operator with the rest of the text.
\<close>

function split_condition :: "string \<Rightarrow> string \<Rightarrow> (string \<times> (string \<times> string) option) option" where
  "split_condition expression lhs =
     (if expression = [] then Some (lhs, None)
      else case Match check_token_re expression of
        Some matched \<Rightarrow>
          let token = grp matched 1; rest = grp matched 2 in
          if token = ''('' then
            (case FindEndOfExpressionInLine rest 0 ''('' of (end, _) \<Rightarrow>
              if end < 0 then None
              else split_condition (drop (nat end) rest) (lhs @ ''('' @ take (nat end) rest))
          else if token \<in> {''&&'', ''||''} then None
          else if token \<in> {''<<'', ''<<='', ''>>'', ''>>='', ''->*'', ''->''}
          then split_condition rest (lhs @ token)
          else Some (lhs, Some (token, rest))
      | None \<Rightarrow>
          (case Match operand_re expression of
             Some matched \<Rightarrow> split_condition (grp matched 2) (lhs @ grp matched 1)
           | None \<Rightarrow>
               (case Match operand_char_re expression of
                  Some matched \<Rightarrow> split_condition (grp matched 2) (lhs @ grp matched 1)
                | None \<Rightarrow> Some (lhs, None))))"
  by pat_completeness auto
termination
  by (relation "measure (\<lambda>(expression, lhs). length expression)")
    (auto dest: check_rest_shorter intro: le_less_trans [OF diff_le_self])

declare split_condition.simps [simp del]

section \<open>\<open>CheckCheck\<close>\<close>

text \<open>
  \<open>\s*;\<close>,
  \<open>^([-+]?(\d+|0[xX][0-9a-fA-F]+)[lLuU]{0,3}|".*"|\'.*\')$\<close>
\<close>

definition macro_end_re :: re where
  "macro_end_re = Seq (Star Space) (Ch CHR '';'')"

definition constant_re :: re where
  "constant_re = Seqs [Bol, Grp 1 (Alts [Seqs [Opt (OneOf ''-+''),
     Grp 2 (Alt (Plus Digit) (Seqs [Ch CHR ''0'', OneOf ''xX'',
     Plus (Cls (\<lambda>c. is_digit c \<or> c \<in> set ''abcdefABCDEF''))])),
     Opt (Seq (OneOf ''lLuU'') (Opt (Seq (OneOf ''lLuU'') (Opt (OneOf ''lLuU'')))))], Seqs [Ch dq,
     Star Any, Ch dq], Seqs [Ch sq, Star Any, Ch sq]]), Eol]"

definition condition_text :: "string list \<Rightarrow> nat \<Rightarrow> nat \<Rightarrow> string \<times> nat \<times> int \<Rightarrow> string" where
  "condition_text lines linenum start_pos r =
     (let (last_line, end_line, end_pos) = r in
      if linenum = end_line then slice (lines ! linenum) (start_pos + 1) (nat end_pos - 1)
      else drop (start_pos + 1) (lines ! linenum) @
        concat (map (\<lambda>i. lines ! i) [linenum + 1..<end_line]) @ take (nat end_pos - 1) last_line)"

definition check_condition :: "string \<Rightarrow> nat \<Rightarrow> string \<Rightarrow> string \<Rightarrow> outcome" where
  "check_condition filename linenum check_macro expression =
     (case split_condition expression [] of
        Some (lhs, Some (operator, rhs)) \<Rightarrow>
          if lhs \<noteq> [] \<and> rhs \<noteq> [] \<and> str_find rhs ''&&'' = None \<and> str_find rhs ''||'' = None \<and>
             (matches constant_re (strip lhs) \<or> matches constant_re (strip rhs))
          then (case check_replacement check_macro operator of
              None \<Rightarrow> ([], Some KeyError)
            | Some new \<Rightarrow> reporting [mk_report filename (int linenum) ''readability/check'' 2
                (''Consider using '' @ new @ '' instead of '' @ check_macro @ ''(a '' @ operator @ '' b)'')])
          else reporting []
      | _ \<Rightarrow> reporting [])"

definition CheckCheck :: "string \<Rightarrow> cleansed_lines \<Rightarrow> nat \<Rightarrow> outcome" where
  "CheckCheck filename clean_lines linenum =
     (let lines = elided clean_lines in
      case FindCheckMacro (lines ! linenum) of
        None \<Rightarrow> reporting []
      | Some (check_macro, start_pos) \<Rightarrow>
          attempt (CloseExpression clean_lines linenum start_pos) (\<lambda>(last_line, end_line, end_pos).
            if end_pos < 0 then reporting []
            else if \<not> matches macro_end_re (drop (nat end_pos) last_line) then reporting []
            else check_condition filename linenum check_macro
              (condition_text lines linenum start_pos (last_line, end_line, end_pos))))"

section \<open>Alternative tokens\<close>

text \<open>
  \<open>^\s*#\<close>
\<close>

definition hash_line_re :: re where
  "hash_line_re = Seqs [Bol, Star Space, Ch CHR ''#'']"

definition CheckAltTokens :: "string \<Rightarrow> cleansed_lines \<Rightarrow> nat \<Rightarrow> outcome" where
  "CheckAltTokens filename clean_lines linenum =
     (let line = elided clean_lines ! linenum in
      if matches hash_line_re line then reporting []
      else if str_find line ''/*'' \<noteq> None \<or> str_find line ''*/'' \<noteq> None then reporting []
      else in_order (map (\<lambda>matched.
          case map_of alt_token_replacement (grp matched 1) of
            None \<Rightarrow> ([], Some KeyError)
          | Some operator \<Rightarrow> reporting [mk_report filename (int linenum) ''readability/alt_tokens'' 2
              (''Use operator '' @ operator @ '' instead of '' @ grp matched 1)])
        (re_finditer alt_token_re line)))"

section \<open>The checks keep their promise\<close>

lemma check_token_known:
  assumes "Match check_token_re s = Some m"
  shows "grp m 1 \<in> set check_tokens"
proof -
  note D = MatchD [OF assms]
  from D(5) obtain x d y d2 z d3 where
    y: "(y, d2) \<in> set (rm (Alts (map Lit check_tokens)) s (x, d))" and
    z: "(z, d3) \<in> set (rm (Star Any) s (y, (1, x, y) # d2))" and
    m: "m_caps m = (2, y, z) # d3"
    unfolding check_token_re_def by (auto simp: Seqs.simps simp del: Alts.simps split: if_splits)
  have "d3 = (1, x, y) # d2" using no_groups [OF z] by (simp add: Any_def)
  with m D(1) have "grp m 1 = slice s x y" by (simp add: grp_caps)
  moreover from y obtain w where "w \<in> set check_tokens" "startswith (drop x s) w" "y = x + length w"
    unfolding rm_Alts_words by blast
  ultimately show ?thesis by (auto simp: slice_def startswith_iff)
qed

lemma split_condition_operator:
  "split_condition expression lhs = Some (l, Some (operator, rhs)) \<Longrightarrow>
   operator \<in> set (map fst check_ops)"
proof (induction expression lhs rule: split_condition.induct)
  case (1 expression lhs)
  note eq = "1.prems" [unfolded split_condition.simps [of expression]]
  show ?case
  proof (cases "Match check_token_re expression")
    case (Some matched)
    with eq have ne: "expression \<noteq> []" by auto
    note eq' = eq [unfolded Some option.case Let_def if_not_P [OF ne]]
    consider (paren) "grp matched 1 = ''(''" | (shift) "grp matched 1 \<noteq> ''(''" "grp matched 1 \<notin> {''&&'', ''||''}"
      "grp matched 1 \<in> {''<<'', ''<<='', ''>>'', ''>>='', ''->*'', ''->''}"
      | (other) "grp matched 1 \<noteq> ''(''" "grp matched 1 \<notin> {''&&'', ''||''}"
      "grp matched 1 \<notin> {''<<'', ''<<='', ''>>'', ''>>='', ''->*'', ''->''}"
      using eq' by (metis option.distinct(1))
    then show ?thesis
    proof cases
      case paren
      obtain e st where e: "FindEndOfExpressionInLine (grp matched 2) 0 ''('' = (e, st)" by fastforce
      with eq' paren have "\<not> e < 0" "split_condition (drop (nat e) (grp matched 2))
        (lhs @ ''('' @ take (nat e) (grp matched 2)) = Some (l, Some (operator, rhs))"
        by (auto split: if_splits)
      with "1.IH"(3) [OF ne Some refl refl paren e [symmetric]] show ?thesis by simp
    next
      case shift
      with eq' have "split_condition (grp matched 2) (lhs @ grp matched 1) = Some (l, Some (operator, rhs))"
        by (simp only: if_False if_True)
      with "1.IH"(4) [OF ne Some refl refl shift] show ?thesis by simp
    next
      case other
      with eq' have "operator = grp matched 1" by (simp only: if_False option.inject prod.inject)
      with other check_token_known [OF Some] show ?thesis
        by (auto simp: check_tokens_def check_ops_def)
    qed
  next
    case None
    with eq have ne: "expression \<noteq> []" by auto
    note eq' = eq [unfolded None option.case Let_def if_not_P [OF ne]]
    from eq' "1.IH"(1,2) [OF ne None] show ?thesis
      by (auto split: option.splits)
  qed
qed

lemma find_macro_set: "find_macro macros line = Some (macro, k) \<Longrightarrow> macro \<in> set macros"
  by (induction macros) (auto split: if_splits option.splits)

lemma find_macro_inside: "find_macro macros line = Some (macro, k) \<Longrightarrow> k < length line"
proof (induction macros)
  case (Cons a macros)
  have "length (grp m 1) < length line" if "Match (macro_call_re a) line = Some m" for m
    using head_group_length [OF that [unfolded macro_call_re_def]] by (simp add: Seqs.simps Ch_def)
  with Cons show ?case by (auto split: if_splits option.splits)
qed simp

lemma check_condition_ok:
  assumes "macro \<in> set check_macros" and "linenum < n"
  shows "outcome_ok f n (check_condition f linenum macro e)"
proof (cases "split_condition e []")
  case (Some r)
  obtain lhs q where r: "r = (lhs, q)" by (cases r)
  show ?thesis
  proof (cases q)
    case (Some x)
    obtain operator rhs where x: "x = (operator, rhs)" by (cases x)
    with \<open>split_condition e [] = Some r\<close> r Some split_condition_operator assms(1) check_replacement_defined
    obtain new where "check_replacement macro operator = Some new" by blast
    with \<open>split_condition e [] = Some r\<close> r Some x assms(2) show ?thesis
      by (simp add: check_condition_def reports_ok_single report_ok_mk outcome_may_reporting)
  qed (simp add: check_condition_def \<open>split_condition e [] = Some r\<close> r outcome_may_reporting)
qed (simp add: check_condition_def outcome_may_reporting)

lemma CheckCheck_ok:
  assumes "lines_ok c" and "linenum < NumLines c"
  shows "outcome_ok f (NumLines c) (CheckCheck f c linenum)"
proof -
  have "CloseExpression c linenum k \<noteq> Inl e"
    if "FindCheckMacro (elided c ! linenum) = Some (macro, k)" for macro k e
    using that assms unfolding FindCheckMacro_def
    by (intro CloseExpression_Inr find_macro_inside) (auto simp: lines_ok_def)
  moreover have "macro \<in> set check_macros" if "FindCheckMacro line = Some (macro, k)" for line macro k
    using that find_macro_set unfolding FindCheckMacro_def by blast
  ultimately show ?thesis
    unfolding CheckCheck_def Let_def by (intro outcome_intros check_condition_ok assms(2)) auto
qed

lemma alt_token_known:
  assumes "match_at alt_token_re s i = Some m"
  shows "map_of alt_token_replacement (grp m 1) \<noteq> None"
proof -
  from assms obtain st sts where st: "rm alt_token_re s (i, []) = st # sts"
    and m: "m = \<lparr>m_string = s, m_start = i, m_end = fst st, m_caps = snd st\<rparr>"
    by (auto simp: match_at_def split: list.splits)
  have mem: "st \<in> set (rm alt_token_re s (i, []))" by (simp add: st)
  have re: "alt_token_re = Seq (OneOf '' =()'') (Seq (Grp 1 (Alts (map Lit (map fst alt_token_replacement))))
      (Look (Alt (OneOf '' ('') Eol)))"
    by (simp add: alt_token_re_def Seqs.simps)
  from mem obtain x d y where "(y, d) \<in> set (rm (Alts (map Lit (map fst alt_token_replacement))) s (x, []))"
    "st = (y, (1, x, y) # d)"
    unfolding re by (auto simp: OneOf_def simp del: Alts.simps map_map list.map split: if_splits)
  then obtain w where w: "w \<in> set (map fst alt_token_replacement)" "startswith (drop x s) w" "y = x + length w"
    "st = (y, (1, x, y) # d)"
    unfolding rm_Alts_words by blast
  then have "grp m 1 = w" by (auto simp: m grp_caps slice_def startswith_iff)
  with w(1) show ?thesis by (simp add: map_of_eq_None_iff)
qed

lemma finditer_match_at: "m \<in> set (finditer_from r s i n) \<Longrightarrow> \<exists>j. match_at r s j = Some m"
  by (induction r s i n rule: finditer_from.induct) (auto split: if_splits option.splits)

lemma outcome_ok_in_order: "(\<And>a. a \<in> set as \<Longrightarrow> outcome_ok f n a) \<Longrightarrow> outcome_ok f n (in_order as)"
  by (induction as) (auto intro: outcome_intros)

lemma CheckAltTokens_ok:
  assumes "linenum < NumLines c"
  shows "outcome_ok f (NumLines c) (CheckAltTokens f c linenum)"
proof -
  have "outcome_ok f (NumLines c) (case map_of alt_token_replacement (grp m 1) of
        None \<Rightarrow> ([], Some KeyError)
      | Some operator \<Rightarrow> reporting [mk_report f (int linenum) ''readability/alt_tokens'' 2 (msg operator m)])"
    if "m \<in> set (re_finditer alt_token_re s)" for m s msg
  proof -
    obtain j where "match_at alt_token_re s j = Some m"
      using finditer_match_at \<open>m \<in> _\<close> unfolding re_finditer_def by blast
    then obtain operator where "map_of alt_token_replacement (grp m 1) = Some operator"
      using alt_token_known by blast
    then show ?thesis
      using assms by (simp add: outcome_may_reporting reports_ok_single report_ok_mk)
  qed
  then show ?thesis
    unfolding CheckAltTokens_def Let_def
    by (intro outcome_may_if outcome_ok_in_order) (auto intro: outcome_intros)
qed

section \<open>The suggested macro means the same\<close>

text \<open>
  What the assertions mean on integers: a comparison written with an operator, one written
  with the name of a macro, whose suffix names the comparison, and a macro around a condition,
  which the macros on \<open>FALSE\<close> negate.  The part before the first underscore of a name tells what
  happens when the assertion fails.
\<close>

datatype comparison = EQ | NE | GE | GT | LE | LT

fun holds :: "comparison \<Rightarrow> int \<Rightarrow> int \<Rightarrow> bool" where
  "holds EQ a b = (a = b)"
| "holds NE a b = (a \<noteq> b)"
| "holds GE a b = (a \<ge> b)"
| "holds GT a b = (a > b)"
| "holds LE a b = (a \<le> b)"
| "holds LT a b = (a < b)"

fun negation :: "comparison \<Rightarrow> comparison" where
  "negation EQ = NE" | "negation NE = EQ" | "negation GE = LT" | "negation GT = LE"
| "negation LE = GT" | "negation LT = GE"

definition operators :: "(string \<times> comparison) list" where
  "operators = [(''=='', EQ), (''!='', NE), (''>='', GE), (''>'', GT), (''<='', LE), (''<'', LT)]"

definition suffixes :: "(string \<times> comparison) list" where
  "suffixes = [(''EQ'', EQ), (''NE'', NE), (''GE'', GE), (''GT'', GT), (''LE'', LE), (''LT'', LT)]"

definition family :: "string \<Rightarrow> string" where
  "family macro = takeWhile (\<lambda>c. c \<noteq> CHR ''_'') macro"

text \<open>\<open>M(a op b)\<close> and \<open>M_XX(a, b)\<close> hold.\<close>

definition condition_holds :: "string \<Rightarrow> string \<Rightarrow> int \<Rightarrow> int \<Rightarrow> bool" where
  "condition_holds macro operator a b \<longleftrightarrow>
     holds (the (map_of operators operator)) a b \<noteq> endswith macro ''_FALSE''"

definition binary_comparison :: "string \<Rightarrow> comparison" where
  "binary_comparison macro = the (map_of suffixes (drop (length (family macro) + 1) macro))"

definition binary_holds :: "string \<Rightarrow> int \<Rightarrow> int \<Rightarrow> bool" where
  "binary_holds macro a b \<longleftrightarrow> holds (binary_comparison macro) a b"

lemma holds_negation: "holds (negation c) a b \<longleftrightarrow> \<not> holds c a b"
  by (cases c) auto

lemma replacement_table:
  "\<forall>macro \<in> set check_macros. \<forall>operator \<in> set (map fst check_ops).
     family (the (check_replacement macro operator)) = family macro \<and>
     binary_comparison (the (check_replacement macro operator)) =
       (if endswith macro ''_FALSE'' then negation else id) (the (map_of operators operator))"
  by code_simp

lemma replacement_equivalent:
  assumes "macro \<in> set check_macros" and "operator \<in> set (map fst check_ops)"
    and "check_replacement macro operator = Some new"
  shows "family new = family macro \<and> binary_holds new a b = condition_holds macro operator a b"
  using replacement_table assms
  by (auto simp: binary_holds_def condition_holds_def holds_negation dest!: bspec)

text \<open>A comparison that the loop over the condition takes apart.\<close>

text \<open>An operand without a character that could begin or end a token, and not blank.\<close>

definition plain_operand :: "string \<Rightarrow> bool" where
  "plain_operand s \<longleftrightarrow> list_ex (\<lambda>c. \<not> is_space c) s \<and> list_all (\<lambda>c. c \<notin> set ''-=!<>()&|'') s"

text \<open>The text after an operator that does not continue the operator.\<close>

definition other_operand :: "string \<Rightarrow> bool" where
  "other_operand s \<longleftrightarrow> s \<noteq> [] \<and> hd s \<notin> set ''=<>'' \<and> CHR 0x0A \<notin> set s \<and>
     str_find s ''&&'' = None \<and> str_find s ''||'' = None"

lemma operator_chars:
  "w \<in> set (map fst operators) \<Longrightarrow> w \<noteq> [] \<and> hd w \<in> set ''=!<>'' \<and> CHR 0x0A \<notin> set w"
  by (auto simp: operators_def)

lemma operator_alternatives:
  assumes "operator \<in> set (map fst operators)" and "other_operand rhs"
  shows "\<exists>others. rm (Alts (map Lit check_tokens)) (operator @ rhs) (0, []) = (length operator, []) # others"
proof -
  obtain c t where rhs: "rhs = c # t" "c \<notin> set ''=<>''" using assms(2) by (cases rhs) (auto simp: other_operand_def)
  then have c: "c \<noteq> CHR ''=''" "c \<noteq> CHR ''<''" "c \<noteq> CHR ''>''" by simp_all
  from assms(1) consider "operator = ''==''" | "operator = ''!=''" | "operator = ''>=''" | "operator = ''>''"
    | "operator = ''<=''" | "operator = ''<''"
    by (auto simp: operators_def)
  then show ?thesis unfolding rhs(1) check_tokens_def list.map rm_Alts_Cons rm_Alts_Nil rm_Lit
    by cases (simp_all add: c)
qed

lemma operator_matched:
  assumes "operator \<in> set (map fst operators)" and "other_operand rhs"
  shows "\<exists>m. Match check_token_re (operator @ rhs) = Some m \<and> grp m 1 = operator \<and> grp m 2 = rhs"
proof -
  let ?s = "operator @ rhs"
  note C = operator_chars [OF assms(1)]
  then obtain c t where s: "?s = c # t" "c \<in> set ''=!<>''" by (cases operator) auto
  then have "\<not> is_space c" by (auto simp: is_space_def)
  then have "rm (Seqs [Bol, Star Space]) ?s (0, []) = [(0, [])]"
    unfolding s(1) by (simp add: rm_Seqs_Cons rm_Seqs_Nil rm_star_cls run_end_def del: rm.simps(5))
  moreover obtain others where "rm (Alts (map Lit check_tokens)) ?s (0, []) = (length operator, []) # others"
    using operator_alternatives [OF assms] by blast
  moreover have "CHR 0x0A \<notin> set rhs" using assms(2) by (simp add: other_operand_def)
  ultimately show ?thesis
    using Match_head_rest [of "[Bol, Star Space]" ?s "Alts (map Lit check_tokens)" "length operator" others]
    unfolding check_token_re_def by simp
qed

lemma token_starts: "w \<in> set check_tokens \<Longrightarrow> w \<noteq> [] \<and> hd w \<in> set ''-=!<>()&|''"
  by (auto simp: check_tokens_def)

lemma no_token_first:
  assumes "plain_operand lhs"
  shows "Match check_token_re (lhs @ t) = None"
proof (rule ccontr)
  let ?s = "lhs @ t"
  assume "Match check_token_re ?s \<noteq> None"
  then obtain m where "Match check_token_re ?s = Some m" by blast
  note D = MatchD [OF this]
  from D(5) obtain x y d2 where x: "(x, []) \<in> set (rm (Star Space) ?s (0, []))"
    and y: "(y, d2) \<in> set (rm (Alts (map Lit check_tokens)) ?s (x, []))"
    unfolding check_token_re_def
    by (auto simp: Seqs.simps rm_star_cls simp del: Alts.simps rm.simps(5) split: if_splits)
  from y obtain w where w: "w \<in> set check_tokens" "startswith (drop x ?s) w" unfolding rm_Alts_words by blast
  from token_starts [OF w(1)] obtain a u where a: "w = a # u" "a \<in> set ''-=!<>()&|''" by (cases w) auto
  with w(2) have "drop x ?s \<noteq> []" "hd (drop x ?s) = a" by (auto simp: startswith_iff)
  then have hd_x: "?s ! x \<in> set ''-=!<>()&|''"
    using a(2) by (simp only: drop_eq_Nil not_le hd_drop_conv_nth)
  have "takeWhile is_space ?s = takeWhile is_space lhs"
    using assms by (auto simp: plain_operand_def list_ex_iff takeWhile_append1)
  moreover have "takeWhile is_space lhs \<noteq> lhs"
    using assms by (auto simp: takeWhile_eq_all_conv plain_operand_def list_ex_iff)
  then have "length (takeWhile is_space lhs) < length lhs"
    by (metis length_takeWhile_le le_neq_implies_less takeWhile_eq_take take_all order_refl)
  moreover have "x \<le> run_end is_space ?s 0" using x rm_star_cls [of 0 ?s is_space "[]"] by auto
  ultimately have "x < length lhs" by (simp add: run_end_def)
  with hd_x have "lhs ! x \<in> set ''-=!<>()&|''" "lhs ! x \<in> set lhs" by (simp_all add: nth_append)
  then show False using assms by (auto simp: plain_operand_def list_all_iff)
qed

lemma operand_matched:
  assumes "plain_operand lhs" and "t \<noteq> []" and "hd t \<in> set ''-=!<>()&|''" and "CHR 0x0A \<notin> set t"
  shows "\<exists>m. Match operand_re (lhs @ t) = Some m \<and> grp m 1 = lhs \<and> grp m 2 = t"
proof -
  let ?s = "lhs @ t" and ?p = "\<lambda>c. c \<notin> set ''-=!<>()&|''"
  obtain c l where l: "lhs = c # l" using assms(1) by (cases lhs) (auto simp: plain_operand_def)
  have all: "list_all ?p lhs" using assms(1) by (simp add: plain_operand_def)
  then have "run_end ?p ([c] @ l @ t) (length [c]) = length lhs"
    using assms(2,3) by (subst run_end_append) (simp_all add: l)
  then have e: "run_end ?p ?s 1 = length lhs" by (simp add: l)
  have "rm (Plus (Cls ?p)) ?s (0, []) = rm (Star (Cls ?p)) ?s (1, [])"
    using all by (simp add: l Plus_def del: rm.simps(5))
  also have "\<dots> = map (\<lambda>j. (j, [])) (rev [1..<Suc (length lhs)])"
    using rm_star_cls [of 1 ?s ?p "[]"] unfolding e by (simp add: l)
  also have "\<dots> = (length lhs, []) # map (\<lambda>j. (j, [])) (rev [1..<length lhs])" by (simp add: l)
  finally have "rm (Plus (NoneOf ''-=!<>()&|'')) ?s (0, []) = (length lhs, []) # map (\<lambda>j. (j, [])) (rev [1..<length lhs])"
    by (simp add: NoneOf_def)
  moreover have "rm (Seqs [Bol]) ?s (0, []) = [(0, [])]" by simp
  ultimately show ?thesis
    using Match_head_rest [of "[Bol]" ?s "Plus (NoneOf ''-=!<>()&|'')" "length lhs"] assms(4)
    unfolding operand_re_def by simp
qed

lemma split_comparison:
  assumes "plain_operand lhs" and "operator \<in> set (map fst operators)" and "other_operand rhs"
  shows "split_condition (lhs @ operator @ rhs) [] = Some (lhs, Some (operator, rhs))"
proof -
  note C = operator_chars [OF assms(2)]
  have "CHR 0x0A \<notin> set rhs" using assms(3) by (simp add: other_operand_def)
  then obtain m where m: "Match operand_re (lhs @ operator @ rhs) = Some m" "grp m 1 = lhs" "grp m 2 = operator @ rhs"
    using operand_matched [OF assms(1), of "operator @ rhs"] C by (cases operator) auto
  obtain m' where m': "Match check_token_re (operator @ rhs) = Some m'" "grp m' 1 = operator" "grp m' 2 = rhs"
    using operator_matched [OF assms(2,3)] by blast
  have ne: "operator @ rhs \<noteq> []" "lhs @ operator @ rhs \<noteq> []" using C by simp_all
  have op: "operator \<noteq> ''(''" "operator \<notin> {''&&'', ''||''}"
    "operator \<notin> {''<<'', ''<<='', ''>>'', ''>>='', ''->*'', ''->''}"
    using assms(2) by (auto simp: operators_def)
  have "split_condition (operator @ rhs) lhs = Some (lhs, Some (operator, rhs))"
    unfolding split_condition.simps [of "operator @ rhs"] if_not_P [OF ne(1)] m'(1) option.case Let_def m'(2,3)
      if_not_P [OF op(1)] if_not_P [OF op(2)] if_not_P [OF op(3)] by (rule refl)
  moreover have "split_condition (lhs @ operator @ rhs) [] = split_condition (operator @ rhs) lhs"
    unfolding split_condition.simps [of "lhs @ operator @ rhs"] if_not_P [OF ne(2)] no_token_first [OF assms(1)]
      m(1) option.case m(2,3) append_Nil by (rule refl)
  ultimately show ?thesis by simp
qed

lemma find_macro_only:
  assumes "macro \<in> set macros" and "str_find line macro \<noteq> None" and "Match (macro_call_re macro) line \<noteq> None"
    and "\<And>m1 m. m1 \<in> set macros \<Longrightarrow> Match (macro_call_re m1) line = Some m \<Longrightarrow> m1 = macro \<and> length (grp m 1) = k"
  shows "find_macro macros line = Some (macro, k)"
  using assms
proof (induction macros)
  case (Cons m1 macros)
  show ?case
  proof (cases "m1 = macro")
    case True
    obtain m where m: "Match (macro_call_re m1) line = Some m" using Cons.prems(3) True by blast
    with Cons.prems(4) [of m1 m] have k: "length (grp m 1) = k" by simp
    have found: "str_find line m1 \<noteq> None" using Cons.prems(2) True by simp
    show ?thesis unfolding find_macro.simps True if_not_P [OF found [unfolded True]] m [unfolded True] option.case k by (rule refl)
  next
    case False
    then have "Match (macro_call_re m1) line = None" using Cons.prems(4) [of m1] by fastforce
    moreover have "macro \<in> set macros" using Cons.prems(1) False by simp
    then have "find_macro macros line = Some (macro, k)"
      by (rule Cons.IH [OF _ Cons.prems(2,3)]) (rule Cons.prems(4), simp_all)
    ultimately show ?thesis by simp
  qed
qed simp

text \<open>A macro name before the only opening bracket of a line.\<close>

definition macro_line :: "string \<Rightarrow> string \<Rightarrow> string \<Rightarrow> string \<Rightarrow> string" where
  "macro_line before macro gap rest = before @ macro @ gap @ CHR ''('' # rest"

definition macro_place :: "string \<Rightarrow> string \<Rightarrow> string \<Rightarrow> bool" where
  "macro_place before gap rest \<longleftrightarrow> CHR ''('' \<notin> set (before @ rest) \<and> CHR 0x0A \<notin> set before \<and>
     (before = [] \<or> \<not> is_word (last before)) \<and> list_all is_space gap"

lemma macro_words: "macro \<in> set check_macros \<Longrightarrow> macro \<noteq> [] \<and> list_all (\<lambda>c. is_word c \<and> \<not> is_space c \<and> c \<noteq> CHR ''('') macro"
proof -
  have "list_all (\<lambda>macro. macro \<noteq> [] \<and> list_all (\<lambda>c. is_word c \<and> \<not> is_space c \<and> c \<noteq> CHR ''('') macro) check_macros" by code_simp
  then show "macro \<in> set check_macros \<Longrightarrow> macro \<noteq> [] \<and> list_all (\<lambda>c. is_word c \<and> \<not> is_space c \<and> c \<noteq> CHR ''('') macro"
    by (simp add: list_all_iff)
qed

lemma macro_callD:
  assumes "Match (macro_call_re m1) s = Some m"
  obtains a y where "at_boundary s a" "startswith (drop a s) m1" "a + length m1 \<le> y" "y < length s" "s ! y = CHR ''(''"
    "\<And>x. a + length m1 \<le> x \<Longrightarrow> x < y \<Longrightarrow> is_space (s ! x)" "length (grp m 1) = y"
proof -
  note D = MatchD [OF assms]
  from D(5) obtain a c y d where a: "(a, c) \<in> set (rm (Star (Cls (\<lambda>x. x \<noteq> CHR 0x0A))) s (0, []))" "at_boundary s a"
    "startswith (drop a s) m1" and y: "(y, d) \<in> set (rm (Star Space) s (a + length m1, c))"
    "s ! y = CHR ''(''" "y < length s" "m_caps m = (1, 0, y) # d"
    unfolding macro_call_re_def
    by (auto simp: rm_Seqs_Cons rm_Seqs_Nil rm_Lit rm_Ch Any_def simp del: rm.simps(5) split: if_splits)
  from a(1) have "a \<le> length s" using rm_star_cls_in by blast
  then have "a + length m1 \<le> length s" using a(3) by (auto simp: startswith_iff) (metis diff_add_inverse le_diff_conv2 length_append length_drop le_add1 add.commute)
  from rm_star_cls_in [OF y(1) this] have "a + length m1 \<le> y" "\<And>x. a + length m1 \<le> x \<Longrightarrow> x < y \<Longrightarrow> is_space (s ! x)" by auto
  moreover have "length (grp m 1) = y" using y(3,4) D(1) by (simp add: grp_caps slice_def)
  ultimately show thesis using that a(2,3) y(2,3) by blast
qed

lemma nth_macro_line:
  "\<lbrakk>length before \<le> i; i < length before + length macro\<rbrakk> \<Longrightarrow>
   macro_line before macro gap rest ! i \<in> set macro"
  "\<lbrakk>length (before @ macro) \<le> i; i < length (before @ macro @ gap)\<rbrakk> \<Longrightarrow>
   macro_line before macro gap rest ! i \<in> set gap"
  "i < length before \<Longrightarrow> macro_line before macro gap rest ! i = before ! i"
  by (auto simp: macro_line_def nth_append)

lemma macro_bracket:
  assumes "macro_place before gap rest" and "macro \<in> set check_macros"
    and "macro_line before macro gap rest ! y = CHR ''(''" and "y < length (macro_line before macro gap rest)"
  shows "y = length (before @ macro @ gap)"
proof -
  let ?h = "before @ macro @ gap"
  have "\<not> is_space CHR ''(''" by code_simp
  then have "CHR ''('' \<notin> set ?h" "CHR ''('' \<notin> set rest"
    using macro_words [OF assms(2)] assms(1) by (auto simp: macro_place_def list_all_iff)
  then show ?thesis using assms(3,4) only_occurrence [of "CHR ''(''" ?h rest y] by (simp add: macro_line_def)
qed

lemma macro_line_unique:
  assumes place: "macro_place before gap rest" and macro: "macro \<in> set check_macros" and m1: "m1 \<in> set check_macros"
    and M: "Match (macro_call_re m1) (macro_line before macro gap rest) = Some m"
  shows "m1 = macro \<and> length (grp m 1) = length (before @ macro @ gap)"
proof -
  let ?s = "macro_line before macro gap rest"
  note W = macro_words [OF macro] macro_words [OF m1] and N = nth_macro_line [where before = before and macro = macro and gap = gap and rest = rest]
  obtain a y where a: "at_boundary ?s a" "startswith (drop a ?s) m1" and y: "a + length m1 \<le> y" "y < length ?s"
    "?s ! y = CHR ''(''" "\<And>x. a + length m1 \<le> x \<Longrightarrow> x < y \<Longrightarrow> is_space (?s ! x)" "length (grp m 1) = y"
    by (rule macro_callD [OF M]) blast
  have len: "y = length (before @ macro @ gap)" by (rule macro_bracket [OF place macro y(3,2)])
  have in_m1: "?s ! i \<in> set m1" if "a \<le> i" "i < a + length m1" for i
  proof -
    have "drop a ?s ! (i - a) = m1 ! (i - a)" using a(2) that by (auto simp: startswith_iff nth_append)
    then show ?thesis using that y(1,2) by simp
  qed
  have "a + length m1 = length (before @ macro)"
  proof (rule ccontr)
    assume "a + length m1 \<noteq> length (before @ macro)"
    then consider "a + length m1 < length (before @ macro)" | "length (before @ macro) < a + length m1" by linarith
    then show False
    proof cases
      case 1
      then have "is_space (?s ! (length (before @ macro) - 1))" using y(4) len by simp
      moreover have "?s ! (length (before @ macro) - 1) \<in> set macro" using W(1) by (intro N(1)) (cases macro; simp)+
      ultimately show False using W(1) by (auto simp: list_all_iff)
    next
      case 2
      then have "?s ! (a + length m1 - 1) \<in> set gap" using N(2) y(1) len by simp
      moreover have "?s ! (a + length m1 - 1) \<in> set m1" using W(2) by (intro in_m1) (cases m1; simp)+
      ultimately show False using W(2) place by (auto simp: list_all_iff macro_place_def)
    qed
  qed
  moreover have "a = length before"
  proof (rule ccontr)
    assume "a \<noteq> length before"
    then consider "a < length before" | "length before < a" by linarith
    then show False
    proof cases
      case 1
      then have "?s ! (length before - 1) \<in> set m1" using in_m1 calculation W(1) by simp
      moreover have "?s ! (length before - 1) = last before" using 1 N(3) by (cases before rule: rev_cases) simp_all
      ultimately show False using W(2) 1 place by (auto simp: list_all_iff macro_place_def)
    next
      case 2
      have "a < a + length m1" using W(2) by simp
      then have "?s ! a \<in> set m1" "?s ! (a - 1) \<in> set macro" "a < length ?s"
        using 2 in_m1 [of a] N(1) [of "a - 1"] calculation y(1,2) by auto
      then show False using a(1) 2 W by (auto simp: at_boundary_def word_at_def list_all_iff)
    qed
  qed
  ultimately have "length m1 = length macro" "startswith (macro @ gap @ CHR ''('' # rest) m1"
    using a(2) by (simp_all add: macro_line_def)
  then have "m1 = macro" by (auto simp: startswith_iff append_eq_append_conv)
  then show ?thesis using y(5) len by simp
qed

lemma macro_line_found:
  assumes place: "macro_place before gap rest" and macro: "macro \<in> set check_macros"
  shows "Match (macro_call_re macro) (macro_line before macro gap rest) \<noteq> None"
proof -
  let ?s = "macro_line before macro gap rest" and ?k = "length (before @ macro @ gap)"
  note W = macro_words [OF macro]
  have s: "?s = [] @ before @ (macro @ gap @ CHR ''('' # rest)" "?s = (before @ macro) @ gap @ (CHR ''('' # rest)"
    by (simp_all add: macro_line_def)
  have "list_all (\<lambda>c. c \<noteq> CHR 0x0A) before" using place by (auto simp: macro_place_def list_all_iff)
  from star_cls_reaches [OF s(1) this] have any: "(length before, []) \<in> set (rm (Star Any) ?s (0, []))"
    by (simp add: Any_def del: rm.simps(5))
  have "word_at ?s (length before)" using W by (cases macro) (auto simp: word_at_def macro_line_def nth_append)
  moreover have "0 < length before \<Longrightarrow> \<not> word_at ?s (length before - 1)"
    using place by (auto simp: word_at_def macro_place_def macro_line_def nth_append last_conv_nth)
  ultimately have wb: "(length before, []) \<in> set (rm Wb ?s (length before, []))" by (auto simp: at_boundary_def)
  have lit: "(length (before @ macro), []) \<in> set (rm (Lit macro) ?s (length before, []))"
    by (simp add: rm_Lit macro_line_def startswith_iff)
  have "list_all is_space gap" using place by (simp add: macro_place_def)
  from star_cls_reaches [OF s(2) this] have gap: "(?k, []) \<in> set (rm (Star Space) ?s (length (before @ macro), []))"
    by (simp add: ac_simps del: rm.simps(5))
  have "(?k, []) \<in> set (rm (Seqs [Star Any, Wb, Lit macro, Star Space]) ?s (0, []))"
    by (intro rm_Seqs_in [OF any] rm_Seqs_in [OF wb] rm_Seqs_in [OF lit]) (simp only: rm_Seqs_single gap)
  then have "(?k, [(1, 0, ?k)]) \<in> set (rm (Grp 1 (Seqs [Star Any, Wb, Lit macro, Star Space])) ?s (0, []))"
    by force
  moreover have "(Suc ?k, [(1, 0, ?k)]) \<in> set (rm (Seqs [Ch CHR ''('']) ?s (?k, [(1, 0, ?k)]))"
    unfolding rm_Seqs_single rm_Ch s(2) by (simp add: nth_append)
  ultimately have "(Suc ?k, [(1, 0, ?k)]) \<in> set (rm (Seqs [Grp 1 (Seqs [Star Any, Wb, Lit macro, Star Space]), Ch CHR ''('']) ?s (0, []))"
    by (rule rm_Seqs_in)
  moreover have "(0, []) \<in> set (rm Bol ?s (0, []))" by simp
  ultimately have "(Suc ?k, [(1, 0, ?k)]) \<in> set (rm (macro_call_re macro) ?s (0, []))"
    unfolding macro_call_re_def by (metis rm_Seqs_in)
  then show ?thesis by (auto simp: Match_def match_at_None)
qed

lemma FindCheckMacro_line:
  assumes "macro_place before gap rest" and "macro \<in> set check_macros"
  shows "FindCheckMacro (macro_line before macro gap rest) = Some (macro, length (before @ macro @ gap))"
  unfolding FindCheckMacro_def
proof (rule find_macro_only [OF assms(2) _ macro_line_found [OF assms]])
  show "str_find (macro_line before macro gap rest) macro \<noteq> None"
    unfolding str_find_None macro_line_def by blast
qed (rule macro_line_unique [OF assms])

lemma operators_known: "set (map fst operators) = set (map fst check_ops)"
  by (auto simp: operators_def check_ops_def)

lemma check_comparison:
  assumes "macro \<in> set check_macros" and "plain_operand lhs" and "operator \<in> set (map fst operators)" and "other_operand rhs"
  shows "\<exists>new. family new = family macro \<and> (\<forall>a b. binary_holds new a b = condition_holds macro operator a b) \<and>
    check_condition f l macro (lhs @ operator @ rhs) =
      reporting (if matches constant_re (strip lhs) \<or> matches constant_re (strip rhs)
       then [mk_report f (int l) ''readability/check'' 2
        (''Consider using '' @ new @ '' instead of '' @ macro @ ''(a '' @ operator @ '' b)'')] else [])"
proof -
  have op: "operator \<in> set (map fst check_ops)" using assms(3) by (simp only: operators_known)
  obtain new where new: "check_replacement macro operator = Some new"
    using check_replacement_defined assms(1) op by blast
  have ne: "lhs \<noteq> []" "rhs \<noteq> []" "str_find rhs ''&&'' = None" "str_find rhs ''||'' = None"
    using assms(2,4) by (auto simp: plain_operand_def other_operand_def)
  from replacement_equivalent [OF assms(1) op new] show ?thesis
    by (intro exI [of _ new]) (simp add: check_condition_def split_comparison [OF assms(2-4)] new ne)
qed
text \<open>
  C14: Take a line with one of the macros in front of its only opening bracket, whose condition, up
  to the closing bracket before a semicolon, compares a left operand without brackets, signs and
  operators with a right operand that has no \<open>&&\<close> and no \<open>||\<close>.  \<open>CheckCheck\<close> makes a report exactly
  if one of the operands is a constant, and then suggests a macro that accepts exactly the values
  for which the comparison on the line holds (for \<open>EXPECT_FALSE\<close> and \<open>ASSERT_FALSE\<close>: does not
  hold), and that is of the same family, so that a failure has the same effect.
\<close>

theorem check_suggestion_equivalent:
  assumes line: "elided clean_lines ! linenum = macro_line before macro gap rest"
    and place: "macro_place before gap rest" and macro: "macro \<in> set check_macros"
    and close: "CloseExpression clean_lines linenum (length (before @ macro @ gap)) = Inr (close_line, close_num, close_pos)"
      "0 \<le> close_pos" "matches macro_end_re (drop (nat close_pos) close_line)"
    and condition: "condition_text (elided clean_lines) linenum (length (before @ macro @ gap))
      (close_line, close_num, close_pos) = lhs @ operator @ rhs"
    and operands: "plain_operand lhs" "operator \<in> set (map fst operators)" "other_operand rhs"
  shows "\<exists>new. family new = family macro \<and> (\<forall>a b. binary_holds new a b = condition_holds macro operator a b) \<and>
    CheckCheck filename clean_lines linenum =
      reporting (if matches constant_re (strip lhs) \<or> matches constant_re (strip rhs)
       then [mk_report filename (int linenum) ''readability/check'' 2
        (''Consider using '' @ new @ '' instead of '' @ macro @ ''(a '' @ operator @ '' b)'')] else [])"
proof -
  have "CheckCheck filename clean_lines linenum = check_condition filename linenum macro (lhs @ operator @ rhs)"
    using close(2,3) unfolding CheckCheck_def Let_def line FindCheckMacro_line [OF place macro] option.case prod.case
      close(1) attempt_def sum.case condition by simp
  with check_comparison [OF macro operands, of filename linenum] show ?thesis by auto
qed

definition sample_assertion :: cleansed_lines where
  "sample_assertion = (let ls = [''  EXPECT_FALSE(x <= 42);''] in
     \<lparr>elided = ls, cl_lines = ls, raw_lines = ls, num_lines = 1, lines_without_raw_strings = ls\<rparr>)"

lemma check_suggestion_equivalent_witness:
  "CheckCheck ''a.cc'' sample_assertion 0 = reporting [mk_report ''a.cc'' 0 ''readability/check'' 2
     ''Consider using EXPECT_GT instead of EXPECT_FALSE(a <= b)''] \<and>
   (\<exists>new. (\<forall>a b. binary_holds new a b = condition_holds ''EXPECT_FALSE'' ''<='' a b) \<and>
     CheckCheck ''a.cc'' sample_assertion 0 = reporting [mk_report ''a.cc'' 0 ''readability/check'' 2
       (''Consider using '' @ new @ '' instead of EXPECT_FALSE(a <= b)'')])"
proof -
  have pre: "elided sample_assertion ! 0 = macro_line ''  '' ''EXPECT_FALSE'' [] ''x <= 42);''"
    "macro_place ''  '' [] ''x <= 42);''" "''EXPECT_FALSE'' \<in> set check_macros"
    "CloseExpression sample_assertion 0 (length (''  '' @ ''EXPECT_FALSE'' @ [])) =
       Inr (''  EXPECT_FALSE(x <= 42);'', 0, 23)"
    "(0::int) \<le> 23" "matches macro_end_re (drop (nat 23) ''  EXPECT_FALSE(x <= 42);'')"
    "condition_text (elided sample_assertion) 0 (length (''  '' @ ''EXPECT_FALSE'' @ []))
       (''  EXPECT_FALSE(x <= 42);'', 0, 23) = ''x '' @ ''<='' @ '' 42''"
    "plain_operand ''x ''" "''<='' \<in> set (map fst operators)" "other_operand '' 42''"
    by code_simp+
  have const: "matches constant_re (strip ''x '') \<or> matches constant_re (strip '' 42'')" by code_simp
  have "CheckCheck ''a.cc'' sample_assertion 0 = reporting [mk_report ''a.cc'' 0 ''readability/check'' 2
     ''Consider using EXPECT_GT instead of EXPECT_FALSE(a <= b)'']" by code_simp
  moreover from check_suggestion_equivalent [OF pre, of "''a.cc''", unfolded if_P [OF const]]
  obtain new where "\<forall>a b. binary_holds new a b = condition_holds ''EXPECT_FALSE'' ''<='' a b"
    "CheckCheck ''a.cc'' sample_assertion 0 = reporting [mk_report ''a.cc'' (int 0) ''readability/check'' 2
       (''Consider using '' @ new @ '' instead of '' @ ''EXPECT_FALSE'' @ ''(a '' @ ''<='' @ '' b)'')]" by blast
  ultimately show ?thesis by (intro conjI exI [of _ new]) simp_all
qed

end
