(* ===== verification/Style.thy ===== *)
theory Style
  imports Assertions
begin

text \<open>
  \<open>CheckStyle\<close> of \<open>build_support/cpplint.py\<close>: tabs, indentation, ends of lines, long lines,
  several commands on a line, and the checks of spacing, braces and macros in their order.
\<close>

section \<open>The line itself\<close>

text \<open>
  \<open>\s*\w+\s*:\s*\\?$\<close>,
  \<open>[",=><] *$\<close>,
  \<open>^\s*""\<close>
\<close>

definition scope_or_label_re :: re where
  "scope_or_label_re = Seqs [Star Space, Plus Word, Star Space, Ch CHR '':'', Star Space, Opt (Ch bs), Eol]"

definition continued_line_re :: re where
  "continued_line_re = Seqs [OneOf ('',=><'' @ [dq]), Star (Ch CHR '' ''), Eol]"

definition raw_string_line_re :: re where
  "raw_string_line_re = Seqs [Bol, Star Space, Ch dq, Ch dq]"

definition whitespace_reports :: "string \<Rightarrow> cleansed_lines \<Rightarrow> nat \<Rightarrow> report list" where
  "whitespace_reports filename clean_lines linenum =
     (let lines = lines_without_raw_strings clean_lines;
          line = lines ! linenum;
          prev = (if linenum > 0 then lines ! (linenum - 1) else []);
          initial_spaces = length (takeWhile (\<lambda>c. c = CHR '' '') line)
      in (if CHR 0x09 \<in> set line
          then [mk_report filename (int linenum) ''whitespace/tab'' 1 ''Tab found; better to use spaces'']
          else []) @
         (if \<not> found continued_line_re prev \<and> (initial_spaces = 1 \<or> initial_spaces = 3) \<and>
             \<not> matches scope_or_label_re (elided clean_lines ! linenum) \<and>
             \<not> (raw_lines clean_lines ! linenum \<noteq> line \<and> matches raw_string_line_re line)
          then [mk_report filename (int linenum) ''whitespace/indent'' 3
                 (''Weird number of spaces at line-start.  '' @ ''Are you using a 2-space indent?'')]
          else []) @
         (if line \<noteq> [] \<and> is_space (last line)
          then [mk_report filename (int linenum) ''whitespace/end_of_line'' 4
                 ''Line ends in whitespace.  Consider deleting these extra spaces.'']
          else []))"

text \<open>
  \<open>^\s*//.*http(s?)://\S*$\<close>,
  \<open>^\s*//\s*[^\s]*$\<close>,
  \<open>^// \$Id:.*#[0-9]+ \$$\<close>,
  \<open>^\s*/// [@\\](copydoc|copydetails|copybrief) .*$\<close>
\<close>

definition url_comment_re :: re where
  "url_comment_re = Seqs [Bol, Star Space, Lit ''//'', Star Any, Lit ''http'', Grp 1 (Opt (Ch CHR ''s'')),
     Lit ''://'', Star NonSpace, Eol]"

definition path_comment_re :: re where
  "path_comment_re = Seqs [Bol, Star Space, Lit ''//'', Star Space, Star NonSpace, Eol]"

definition id_comment_re :: re where
  "id_comment_re = Seqs [Bol, Lit ''// $Id:'', Star Any, Ch CHR ''#'', Plus Digit, Lit '' $'', Eol]"

definition doxygen_copy_re :: re where
  "doxygen_copy_re = Seqs [Bol, Star Space, Lit ''/// '', OneOf (''@'' @ [bs]),
     Grp 1 (Seq (Lit ''copy'') (Alts [Lit ''doc'', Lit ''details'', Lit ''brief''])), Ch CHR '' '',
     Star Any, Eol]"

text \<open>The guard is only computed for headers; \<open>NoReturn\<close> where its computation does not end.\<close>

definition is_header_guard ::
  "os_env \<Rightarrow> lint_globals \<Rightarrow> string \<Rightarrow> string \<Rightarrow> string \<Rightarrow> py_error + bool" where
  "is_header_guard env g filename file_extension line =
     (if IsHeaderExtension g file_extension
      then case GetHeaderGuardCPPVariable env (root_flag g) (repository_flag g) filename of
          None \<Rightarrow> Inl NoReturn
        | Some cppvar \<Rightarrow> Inr (startswith line (''#ifndef '' @ cppvar) \<or>
            startswith line (''#define '' @ cppvar) \<or> startswith line (''#endif  // '' @ cppvar))
      else Inr False)"

definition long_line :: "os_env \<Rightarrow> lint_globals \<Rightarrow> string \<Rightarrow> cleansed_lines \<Rightarrow> nat \<Rightarrow> string \<Rightarrow> outcome" where
  "long_line env g filename clean_lines linenum file_extension =
     (let line = lines_without_raw_strings clean_lines ! linenum in
      attempt (is_header_guard env g filename file_extension line) (\<lambda>header_guard.
        reporting
          (if \<not> startswith line ''#include'' \<and> \<not> header_guard \<and> \<not> matches url_comment_re line \<and>
              \<not> matches path_comment_re line \<and> \<not> matches id_comment_re line \<and>
              \<not> matches doxygen_copy_re line \<and> GetLineWidth line > line_length g
           then [mk_report filename (int linenum) ''whitespace/line_length'' 2
                  (''Lines should be <= '' @ int_str (line_length g) @ '' characters long'')]
           else [])))"

text \<open>
  \<open>^[^{};]*\[[^\[\]]*\][^{}]*\{[^{}\n\r]*\}\<close>
\<close>

definition simple_lambda_re :: re where
  "simple_lambda_re = Seqs [Bol, Star (NoneOf ''{};''), Ch CHR ''['', Star (NoneOf ''[]''), Ch CHR '']'',
     Star (NoneOf ''{}''), Ch CHR ''{'', Star (NoneOf (''{}'' @ [CHR 0x0A, CHR 0x0D])), Ch CHR ''}'']"

definition several_commands :: "string \<Rightarrow> cleansed_lines \<Rightarrow> nat \<Rightarrow> report list" where
  "several_commands filename clean_lines linenum =
     (let cleansed_line = elided clean_lines ! linenum;
          prevline = fst (GetPreviousNonBlankLine clean_lines linenum);
          has = (\<lambda>s p. str_find s p \<noteq> None)
      in if str_count cleansed_line '';'' > 1 \<and>
            \<not> matches simple_lambda_re (lines_without_raw_strings clean_lines ! linenum) \<and>
            \<not> has cleansed_line ''for'' \<and> (\<not> has prevline ''for'' \<or> has prevline '';'') \<and>
            \<not> ((has cleansed_line ''case '' \<or> has cleansed_line ''default:'') \<and> has cleansed_line ''break;'')
         then [mk_report filename (int linenum) ''whitespace/newline'' 0
                ''More than one command on the same line'']
         else [])"

section \<open>The check\<close>

definition section_spacing :: "string \<Rightarrow> cleansed_lines \<Rightarrow> nat \<Rightarrow> nesting_state \<Rightarrow> report list" where
  "section_spacing filename clean_lines linenum nesting_state =
     (case InnermostClass nesting_state of
        None \<Rightarrow> []
      | Some b \<Rightarrow> (case b_kind b of
            ClassInfo info \<Rightarrow> CheckSectionSpacing filename clean_lines (starting_linenum b) info linenum
          | _ \<Rightarrow> []))"

definition CheckStyle ::
  "lint_globals handler \<Rightarrow> os_env \<Rightarrow> string \<Rightarrow> cleansed_lines \<Rightarrow> nat \<Rightarrow> string \<Rightarrow> nesting_state \<Rightarrow>
   lint_globals action" where
  "CheckStyle error env filename clean_lines linenum file_extension nesting_state =
     perform
      [\<lambda>g. run_outcome error (in_order
         [reporting (whitespace_reports filename clean_lines linenum),
          long_line env g filename clean_lines linenum file_extension,
          reporting (several_commands filename clean_lines linenum)]) g,
       \<lambda>g. run_outcome error (CheckBraces g filename clean_lines linenum) g,
       CheckTrailingSemicolon error filename clean_lines linenum,
       run_outcome error (in_order
         [CheckEmptyBlockBody filename clean_lines linenum,
          reporting (CheckSpacing filename clean_lines linenum nesting_state),
          CheckOperatorSpacing filename clean_lines linenum,
          reporting (CheckParenthesisSpacing filename clean_lines linenum @
            CheckCommaSpacing filename clean_lines linenum),
          CheckBracesSpacing filename clean_lines linenum nesting_state,
          reporting (CheckSpacingForFunctionCall filename clean_lines linenum),
          CheckCheck filename clean_lines linenum,
          CheckAltTokens filename clean_lines linenum,
          reporting (section_spacing filename clean_lines linenum nesting_state)])]"

section \<open>The check keeps its promise\<close>

lemma whitespace_reports_ok:
  "linenum < NumLines c \<Longrightarrow> reports_ok f (NumLines c) (whitespace_reports f c linenum)"
  unfolding whitespace_reports_def Let_def by (intro outcome_intros) auto

lemma several_commands_ok:
  "linenum < NumLines c \<Longrightarrow> reports_ok f (NumLines c) (several_commands f c linenum)"
  unfolding several_commands_def Let_def by (intro outcome_intros) auto

lemma long_line_ok:
  assumes "GetHeaderGuardCPPVariable env (root_flag g) (repository_flag g) f = None \<Longrightarrow> NoReturn \<in> E"
    and "linenum < NumLines c"
  shows "outcome_may E f (NumLines c) (long_line env g f c linenum ext)"
  using assms unfolding long_line_def is_header_guard_def Let_def
  by (intro outcome_intros) (auto split: if_splits option.splits)

lemma section_spacing_ok:
  "linenum < NumLines c \<Longrightarrow> reports_ok f (NumLines c) (section_spacing f c linenum s)"
  unfolding section_spacing_def
  by (auto intro: CheckSectionSpacing_ok split: option.split block_kind.split)

context lint_callback
begin

lemma CheckStyle_steady:
  assumes ok: "lines_ok c" and n: "n = NumLines c" and l: "0 < linenum \<or> elided c ! linenum = []" "linenum < n"
    and guard: "\<And>g. \<lbrakk>inv g; GetHeaderGuardCPPVariable env (root_flag g) (repository_flag g) filename = None\<rbrakk>
      \<Longrightarrow> NoReturn \<in> E"
  shows "steady E inv (CheckStyle error env filename c linenum ext s)"
proof -
  have l': "linenum < NumLines c" using l n by simp
  have "steady E inv (\<lambda>g. run_outcome error (in_order [reporting (whitespace_reports filename c linenum),
      long_line env g filename c linenum ext, reporting (several_commands filename c linenum)]) g)"
    by (rule run_state_steady)
      (use guard l' in \<open>auto simp: n intro!: outcome_intros whitespace_reports_ok long_line_ok several_commands_ok\<close>)
  moreover have "steady E inv (\<lambda>g. run_outcome error (CheckBraces g filename c linenum) g)"
    by (rule run_state_steady) (use CheckBraces_ok [OF ok l'] in \<open>auto simp: n intro: outcome_may_mono\<close>)
  moreover have "steady E inv (CheckTrailingSemicolon error filename c linenum)"
    by (rule steadyI) (use CheckTrailingSemicolon_inv [OF ok n l] in auto)
  moreover have "outcome_ok filename n (in_order
         [CheckEmptyBlockBody filename c linenum,
          reporting (CheckSpacing filename c linenum s),
          CheckOperatorSpacing filename c linenum,
          reporting (CheckParenthesisSpacing filename c linenum @ CheckCommaSpacing filename c linenum),
          CheckBracesSpacing filename c linenum s,
          reporting (CheckSpacingForFunctionCall filename c linenum),
          CheckCheck filename c linenum,
          CheckAltTokens filename c linenum,
          reporting (section_spacing filename c linenum s)])"
    unfolding n by (intro outcome_intros CheckEmptyBlockBody_ok CheckSpacing_ok CheckOperatorSpacing_ok
      CheckParenthesisSpacing_ok CheckCommaSpacing_ok CheckBracesSpacing_ok CheckSpacingForFunctionCall_ok
      CheckCheck_ok CheckAltTokens_ok section_spacing_ok ok l')
  ultimately show ?thesis
    unfolding CheckStyle_def by (intro steady_perform) (auto intro: run_steady outcome_may_mono)
qed

end

end
