(* ===== verification/FunctionLength.thy ===== *)
theory FunctionLength
  imports LintState
begin

text \<open>
  The class \<open>_FunctionState\<close> of \<open>build_support/cpplint.py\<close>: the function being read, the
  number of its lines, and the report on functions that are too long.  The logarithm of
  the source is taken exactly; its integer part is computed by halving.
\<close>

record function_state =
  in_a_function :: bool
  lines_in_function :: nat
  current_function :: string

definition init_function_state :: function_state where
  "init_function_state = \<lparr>in_a_function = False, lines_in_function = 0, current_function = []\<rparr>"

definition NORMAL_TRIGGER :: nat where "NORMAL_TRIGGER = 250"

definition TEST_TRIGGER :: nat where "TEST_TRIGGER = 400"

definition Begin :: "string \<Rightarrow> function_state \<Rightarrow> function_state" where
  "Begin function_name s =
     s\<lparr>in_a_function := True, lines_in_function := 0, current_function := function_name\<rparr>"

definition Count :: "function_state \<Rightarrow> function_state" where
  "Count s = (if in_a_function s then s\<lparr>lines_in_function := lines_in_function s + 1\<rparr> else s)"

text \<open>\<open>T(EST|est)\<close>\<close>

definition test_name_re :: re where
  "test_name_re = Seq (Lit ''T'') (Grp 1 (Alt (Lit ''EST'') (Lit ''est'')))"

text \<open>\<open>n > base * 2**v\<close>, and the trigger as \<open>'%d'\<close> prints it; a negative \<open>v\<close> divides.\<close>

definition exceeds :: "nat \<Rightarrow> int \<Rightarrow> nat \<Rightarrow> bool" where
  "exceeds base v n \<longleftrightarrow>
     (if 0 \<le> v then base * 2 ^ nat v < n else base < n * 2 ^ nat (- v))"

definition trigger_number :: "nat \<Rightarrow> int \<Rightarrow> nat" where
  "trigger_number base v = (if 0 \<le> v then base * 2 ^ nat v else base div 2 ^ nat (- v))"

fun log2_floor :: "nat \<Rightarrow> nat" where
  "log2_floor n = (if n < 2 then 0 else Suc (log2_floor (n div 2)))"

declare log2_floor.simps [simp del]

text \<open>\<open>int(math.log(n / base, 2))\<close>, which truncates towards zero.\<close>

definition log_ratio :: "nat \<Rightarrow> nat \<Rightarrow> int" where
  "log_ratio n base =
     (if base \<le> n then int (log2_floor (n div base)) else - int (log2_floor (base div n)))"

definition Check :: "int \<Rightarrow> string \<Rightarrow> linenum \<Rightarrow> function_state \<Rightarrow> report list" where
  "Check verbose filename linenum s =
     (if \<not> in_a_function s then []
      else let base_trigger = (if matches test_name_re (current_function s) then TEST_TRIGGER
                               else NORMAL_TRIGGER);
               n = lines_in_function s
        in if exceeds base_trigger verbose n
           then let error_level = min 5 (log_ratio n base_trigger)
             in [mk_report filename linenum ''readability/fn_size'' error_level
                  (''Small and focused functions are preferred: '' @ current_function s @ '' has '' @
                   nat_str n @ '' non-comment lines (error triggered by exceeding '' @
                   nat_str (trigger_number base_trigger verbose) @ '' lines).'')]
           else [])"

definition End_function :: "function_state \<Rightarrow> function_state" where
  "End_function s = s\<lparr>in_a_function := False\<rparr>"

section \<open>The level of the report\<close>

lemma log2_floor_ge: "2 ^ k \<le> n \<Longrightarrow> k \<le> log2_floor n"
proof (induction k arbitrary: n)
  case (Suc k)
  then have "2 ^ k \<le> n div 2" by (simp add: div_le_mono [of "2 * 2 ^ k" n 2, simplified])
  moreover have "2 \<le> n" using Suc.prems by (metis one_le_numeral one_le_power order_trans
        mult_le_mono2 mult.right_neutral power_Suc)
  ultimately show ?case using Suc.IH by (subst log2_floor.simps) auto
qed simp

lemma log2_floor_lt: "0 < n \<Longrightarrow> n < 2 ^ k \<Longrightarrow> log2_floor n < k"
proof (induction k arbitrary: n)
  case (Suc k)
  show ?case
  proof (cases "n < 2")
    case False
    then have "0 < n div 2" "n div 2 < 2 ^ k" using Suc.prems by auto
    with Suc.IH False show ?thesis by (subst log2_floor.simps) auto
  qed (subst log2_floor.simps, simp)
qed simp

lemma log_ratio_exceeds:
  assumes "0 < base" and "exceeds base v n"
  shows "v \<le> log_ratio n base"
proof (cases "base \<le> n")
  case True
  show ?thesis
  proof (cases "0 \<le> v")
    case True
    then have "base * 2 ^ nat v \<le> n" using assms(2) by (simp add: exceeds_def)
    then have "2 ^ nat v \<le> n div base"
      using assms(1) by (simp add: less_eq_div_iff_mult_less_eq mult.commute)
    from log2_floor_ge [OF this] \<open>base \<le> n\<close> True show ?thesis by (simp add: log_ratio_def)
  qed (use True in \<open>simp add: log_ratio_def\<close>)
next
  case False
  then have neg: "v < 0" using assms(2)
    by (auto simp: exceeds_def split: if_splits)
      (metis le_less_trans less_imp_le_nat mult_le_mono2 nat_mult_1_right one_le_numeral one_le_power)
  then have ex: "base < n * 2 ^ nat (- v)" using assms(2) by (simp add: exceeds_def)
  then have "0 < n" by (cases n) auto
  with ex have "base div n < 2 ^ nat (- v)" by (simp add: div_less_iff_less_mult mult.commute)
  moreover have "0 < base div n" using False \<open>0 < n\<close> by (simp add: div_greater_zero_iff)
  ultimately have "log2_floor (base div n) < nat (- v)" by (simp add: log2_floor_lt)
  with neg False show ?thesis by (simp add: log_ratio_def)
qed

text \<open>C35: A report on the length of a function is never lost to the verbosity level that
  triggered it: at verbosity \<open>v\<close> its confidence is at least \<open>v\<close> (at least 5 when \<open>v\<close> is
  larger).\<close>

theorem function_length_confidence:
  assumes "r \<in> set (Check v filename linenum s)"
  shows "min 5 v \<le> r_confidence r"
proof -
  let ?base = "if matches test_name_re (current_function s) then TEST_TRIGGER else NORMAL_TRIGGER"
  have base: "0 < ?base" by (simp add: NORMAL_TRIGGER_def TEST_TRIGGER_def)
  from assms have ex: "exceeds ?base v (lines_in_function s)"
    and conf: "r_confidence r = min 5 (log_ratio (lines_in_function s) ?base)"
    by (simp_all add: Check_def Let_def mk_report_def split: if_split_asm)
  from log_ratio_exceeds [OF base ex] conf show ?thesis by simp
qed

definition long_function :: function_state where
  "long_function = (Begin ''main'' init_function_state)\<lparr>lines_in_function := 1100\<rparr>"

lemma function_length_confidence_witness:
  "\<exists>r. Check 2 ''a.cc'' 9 long_function = [r] \<and> 2 \<le> r_confidence r"
proof -
  let ?r = "hd (Check 2 ''a.cc'' 9 long_function)"
  have one: "Check 2 ''a.cc'' 9 long_function = [?r]" by code_simp
  then have "?r \<in> set (Check 2 ''a.cc'' 9 long_function)" by (metis list.set_intros(1))
  from function_length_confidence [OF this] one show ?thesis by auto
qed

end
