(* ===== verification/LineChecks.thy ===== *)
theory LineChecks
  imports Cleanse
begin

text \<open>
  Checks of \<open>build_support/cpplint.py\<close> that look at one line: comments and strings that go on
  after the line, calls that are not thread-safe, \<open>VLOG\<close> levels, increments of a pointer, macro
  definitions and forward declarations.  The callers pass line numbers of the file, so that
  the line exists.
\<close>

section \<open>Comments and strings over several lines\<close>

definition CheckForMultilineCommentsAndStrings ::
  "string \<Rightarrow> cleansed_lines \<Rightarrow> nat \<Rightarrow> report list" where
  "CheckForMultilineCommentsAndStrings filename clean_lines linenum =
     (let line = str_replace (elided clean_lines ! linenum) [bs, bs] [] in
      (if str_count line ''/*'' > str_count line ''*/''
       then [mk_report filename (int linenum) ''readability/multiline_comment'' 5
              (''Complex multi-line /*...*/-style comment found. Lint may give bogus warnings.  '' @
               ''Consider replacing these with //-style comments, with #if 0...#endif, '' @
               ''or with more clearly structured multi-line comments.'')] else []) @
      (if odd (int (str_count line [dq]) - int (str_count line [bs, dq]))
       then [mk_report filename (int linenum) ''readability/multiline_string'' 5
              (''Multi-line string ('' @ [dq] @ ''...'' @ [dq] @ '') found.  This lint script doesn'' @
               [sq] @ ''t do well with such strings, and may give bogus warnings.  '' @
               ''Use C++11 raw strings or concatenation instead.'')] else []))"

section \<open>Functions that are not thread-safe\<close>

text \<open>\<open>(?:[-+*/=%^&|(<]\s*|>\s+)\<close>\<close>

definition unsafe_func_prefix :: re where
  "unsafe_func_prefix =
     Alt (Seq (OneOf ''-+*/=%^&|(<'') (Star Space)) (Seq (Ch CHR ''>'') (Plus Space))"

text \<open>The prefix, the name, and \<open>\([^)]+\)\<close> or \<open>\(\)\<close>\<close>

definition with_args :: "string \<Rightarrow> re" where
  "with_args name = Seqs [unsafe_func_prefix, Lit name, Ch CHR ''('', Plus (NoneOf '')''), Ch CHR '')'']"

definition without_args :: "string \<Rightarrow> re" where
  "without_args name = Seqs [unsafe_func_prefix, Lit name, Lit ''()'']"

definition threading_list :: "(string \<times> string \<times> re) list" where
  "threading_list =
     [(''asctime('', ''asctime_r('', with_args ''asctime''),
      (''ctime('', ''ctime_r('', with_args ''ctime''),
      (''getgrgid('', ''getgrgid_r('', with_args ''getgrgid''),
      (''getgrnam('', ''getgrnam_r('', with_args ''getgrnam''),
      (''getlogin('', ''getlogin_r('', without_args ''getlogin''),
      (''getpwnam('', ''getpwnam_r('', with_args ''getpwnam''),
      (''getpwuid('', ''getpwuid_r('', with_args ''getpwuid''),
      (''gmtime('', ''gmtime_r('', with_args ''gmtime''),
      (''localtime('', ''localtime_r('', with_args ''localtime''),
      (''rand('', ''rand_r('', without_args ''rand''),
      (''strtok('', ''strtok_r('', with_args ''strtok''),
      (''ttyname('', ''ttyname_r('', with_args ''ttyname'')]"

definition CheckPosixThreading :: "string \<Rightarrow> cleansed_lines \<Rightarrow> nat \<Rightarrow> report list" where
  "CheckPosixThreading filename clean_lines linenum =
     (let line = elided clean_lines ! linenum in
      concat (map (\<lambda>(single_thread_func, multithread_safe_func, pattern).
        if found pattern line
        then [mk_report filename (int linenum) ''runtime/threadsafe_fn'' 2
               (''Consider using '' @ multithread_safe_func @ ''...) instead of '' @
                single_thread_func @ ''...) for improved thread safety.'')]
        else []) threading_list))"

section \<open>Logging levels and increments\<close>

text \<open>\<open>\bVLOG\((INFO|ERROR|WARNING|DFATAL|FATAL)\)\<close>\<close>

definition vlog_re :: re where
  "vlog_re = Seqs [Wb, Lit ''VLOG('', Grp 1 (Alts [Lit ''INFO'', Lit ''ERROR'', Lit ''WARNING'',
     Lit ''DFATAL'', Lit ''FATAL'']), Lit '')'']"

definition CheckVlogArguments :: "string \<Rightarrow> cleansed_lines \<Rightarrow> nat \<Rightarrow> report list" where
  "CheckVlogArguments filename clean_lines linenum =
     (if found vlog_re (elided clean_lines ! linenum)
      then [mk_report filename (int linenum) ''runtime/vlog'' 5
             (''VLOG() should be used with numeric verbosity level.  '' @
              ''Use LOG() if you want symbolic severity levels.'')]
      else [])"

text \<open>\<open>^\s*\*\w+(\+\+|--);\<close>\<close>

definition invalid_increment_re :: re where
  "invalid_increment_re = Seqs [Bol, Star Space, Ch CHR ''*'', Plus Word,
     Grp 1 (Alt (Lit ''++'') (Lit ''--'')), Ch CHR '';'']"

definition CheckInvalidIncrement :: "string \<Rightarrow> cleansed_lines \<Rightarrow> nat \<Rightarrow> report list" where
  "CheckInvalidIncrement filename clean_lines linenum =
     (if matches invalid_increment_re (elided clean_lines ! linenum)
      then [mk_report filename (int linenum) ''runtime/invalid_increment'' 5
             ''Changing pointer instead of value (or unused value of operator*).'']
      else [])"

section \<open>Macros and forward declarations\<close>

text \<open>\<open>^#define\<close>, \<open>\\$\<close>\<close>

definition define_re :: re where
  "define_re = Seq Bol (Lit ''#define'')"

definition continued_re :: re where
  "continued_re = Seq (Ch bs) Eol"

definition IsMacroDefinition :: "string list \<Rightarrow> nat \<Rightarrow> bool" where
  "IsMacroDefinition clean_lines linenum \<longleftrightarrow>
     found define_re (clean_lines ! linenum) \<or>
     (0 < linenum \<and> found continued_re (clean_lines ! (linenum - 1)))"

text \<open>\<open>^\s*(\btemplate\b)*.*class\s+\w+;\s*$\<close>\<close>

definition forward_class_re :: re where
  "forward_class_re = Seqs [Bol, Star Space, Star (Grp 1 (Seqs [Wb, Lit ''template'', Wb])), Star Any,
     Lit ''class'', Plus Space, Plus Word, Ch CHR '';'', Star Space, Eol]"

definition IsForwardClassDeclaration :: "string list \<Rightarrow> nat \<Rightarrow> bool" where
  "IsForwardClassDeclaration clean_lines linenum \<longleftrightarrow> matches forward_class_re (clean_lines ! linenum)"

end
