(* ===== verification/Constructs.thy ===== *)
theory Constructs
  imports Style FunctionLength LineChecks
begin

text \<open>
  Checks of \<open>build_support/cpplint.py\<close> on declarations: \<open>CheckForNonStandardConstructs\<close> with the
  constructors of a class, \<open>CheckForFunctionLengths\<close>, the indentation in namespaces, and the
  redundant \<open>virtual\<close>, \<open>override\<close> and \<open>final\<close>.
\<close>

section \<open>The arguments of a constructor\<close>

definition unbalanced_arg :: "string \<Rightarrow> bool" where
  "unbalanced_arg arg \<longleftrightarrow>
     str_count arg ''<'' > str_count arg ''>'' \<or> str_count arg ''('' > str_count arg '')''"

text \<open>
  The loops that join the pieces between commas that belong to one argument.  The inner loop
  reads the next piece without asking whether there is one.
\<close>

fun collapse_args :: "string list \<Rightarrow> py_error + string list" where
  "collapse_args [] = Inr []"
| "collapse_args [arg] = (if unbalanced_arg arg then Inl IndexError else Inr [arg])"
| "collapse_args (arg # next_arg # args) =
     (if unbalanced_arg arg then collapse_args ((arg @ '','' @ next_arg) # args)
      else map_sum id (\<lambda>as. arg # as) (collapse_args (next_arg # args)))"

text \<open>
  \<open>\s+(?:(?:inline|constexpr)\s+)*(explicit\s+)?(?:(?:inline|constexpr)\s+)*\<close>, the name of the class,
  \<open>\s*\(((?:[^()]|\([^()]*\))*)\)\<close>
\<close>

definition constructor_re :: "string \<Rightarrow> re" where
  "constructor_re name =
     (let inlines = Star (Seq (Alt (Lit ''inline'') (Lit ''constexpr'')) (Plus Space)) in
      Seqs [Plus Space, inlines, Opt (Grp 1 (Seq (Lit ''explicit'') (Plus Space))), inlines,
        Lit name, Star Space, Ch CHR ''('',
        Grp 2 (Star (Alt (NoneOf ''()'') (Seqs [Ch CHR ''('', Star (NoneOf ''()''), Ch CHR '')'']))),
        Ch CHR '')''])"

text \<open>\<open>(const\s+)?\<close>, the name, \<open>(\s*<[^>]*>)?(\s+const)?\s*(?:<\w+>\s*)?&\<close>\<close>

definition copy_argument_re :: "string \<Rightarrow> re" where
  "copy_argument_re name = Seqs [Opt (Grp 1 (Seq (Lit ''const'') (Plus Space))), Lit name,
     Opt (Grp 2 (Seqs [Star Space, Ch CHR ''<'', Star (NoneOf ''>''), Ch CHR ''>''])),
     Opt (Grp 3 (Seq (Plus Space) (Lit ''const''))), Star Space,
     Opt (Seqs [Ch CHR ''<'', Plus Word, Ch CHR ''>'', Star Space]), Ch CHR ''&'']"

text \<open>
  \<open>\bstd\s*::\s*initializer_list\b\<close>
\<close>

definition initializer_list_re :: re where
  "initializer_list_re = Seqs [Wb, Lit ''std'', Star Space, Lit ''::'', Star Space,
     Lit ''initializer_list'', Wb]"

text \<open>\<open>name.split('::')[-1]\<close>\<close>

function last_component :: "string \<Rightarrow> string" where
  "last_component name =
     (case str_find name ''::'' of None \<Rightarrow> name | Some i \<Rightarrow> last_component (drop (i + 2) name))"
  by pat_completeness auto
termination
  by (relation "measure length") (auto dest!: str_find_less)

declare last_component.simps [simp del]

text \<open>The reports on a constructor with the collapsed arguments.\<close>

definition constructor_reports :: "string \<Rightarrow> nat \<Rightarrow> string \<Rightarrow> bool \<Rightarrow> string list \<Rightarrow> report list" where
  "constructor_reports filename linenum name is_marked_explicit args =
     (let variadic_args = filter (\<lambda>arg. str_find arg ''&&...'' \<noteq> None) args;
          defaulted_args = filter (\<lambda>arg. CHR ''='' \<in> set arg) args;
          noarg_constructor = (args = [] \<or> length args = 1 \<and> strip (hd args) = ''void'');
          onearg_constructor =
            (length args = 1 \<and> \<not> noarg_constructor \<or>
             length args \<ge> 1 \<and> \<not> noarg_constructor \<and> length defaulted_args \<ge> length args - 1 \<or>
             length args \<le> 2 \<and> length variadic_args \<ge> 1);
          initializer_list_constructor = (onearg_constructor \<and> found initializer_list_re (hd args));
          copy_constructor = (onearg_constructor \<and> matches (copy_argument_re name) (strip (hd args)));
          error = (\<lambda>message. [mk_report filename (int linenum) ''runtime/explicit'' 5 message])
      in if \<not> is_marked_explicit \<and> onearg_constructor \<and> \<not> initializer_list_constructor \<and>
            \<not> copy_constructor
         then if defaulted_args \<noteq> [] \<or> variadic_args \<noteq> []
           then error (''Constructors callable with one argument '' @ ''should be marked explicit.'')
           else error ''Single-parameter constructors should be marked explicit.''
         else if is_marked_explicit \<and> \<not> onearg_constructor \<and> noarg_constructor
         then error ''Zero-parameter constructors should not be marked explicit.''
         else [])"

definition check_constructor :: "string \<Rightarrow> nat \<Rightarrow> string \<Rightarrow> class_info \<Rightarrow> outcome" where
  "check_constructor filename linenum line classinfo =
     (let name = last_component (c_name classinfo) in
      case Match (constructor_re name) line of
        None \<Rightarrow> reporting []
      | Some m \<Rightarrow>
          attempt (collapse_args (if grp m 2 = [] then [] else str_split CHR '','' (grp m 2)))
            (\<lambda>args. reporting (constructor_reports filename linenum name (grp m 1 \<noteq> []) args)))"

section \<open>\<open>CheckForNonStandardConstructs\<close>\<close>

text \<open>
  \<open>printf\s*\(.*".*%[-+ ]?\d*q\<close>,
  \<open>printf\s*\(.*".*%\d+\$\<close>,
  \<open>("|\').*\\(%|\[|\(|{)\<close>,
  \<open>\b(const|volatile|void|char|short|int|long|float|double|signed|unsigned|schar|u?int8|u?int16|u?int32|u?int64)\s+(register|static|extern|typedef)\b\<close>,
  \<open>\s*#\s*endif\s*[^/\s]+\<close>,
  \<open>\s*class\s+(\w+\s*::\s*)+\w+\s*;\<close>,
  \<open>(\w+|[+-]?\d+(\.\d*)?)\s*(<|>)\?=?\s*(\w+|[+-]?\d+)(\.\d*)?\<close>,
  \<open>^\s*const\s*string\s*&\s*\w+\s*;\<close>
\<close>

definition printf_q_re :: re where
  "printf_q_re = Seqs [Lit ''printf'', Star Space, Ch CHR ''('', Star Any, Ch dq, Star Any, Ch CHR ''%'',
     Opt (OneOf ''-+ ''), Star Digit, Ch CHR ''q'']"

definition printf_dollar_re :: re where
  "printf_dollar_re = Seqs [Lit ''printf'', Star Space, Ch CHR ''('', Star Any, Ch dq, Star Any,
     Ch CHR ''%'', Plus Digit, Ch CHR ''$'']"

definition undefined_escape_re :: re where
  "undefined_escape_re = Seqs [Grp 1 (OneOf [dq, sq]), Star Any, Ch bs, Grp 2 (OneOf ''%[({'')]"

definition storage_class_re :: re where
  "storage_class_re = Seqs [Wb, Grp 1 (Alts [Lit ''const'', Lit ''volatile'', Lit ''void'', Lit ''char'',
     Lit ''short'', Lit ''int'', Lit ''long'', Lit ''float'', Lit ''double'', Lit ''signed'',
     Lit ''unsigned'', Lit ''schar'', Seq (Opt (Ch CHR ''u'')) (Lit ''int8''),
     Seq (Opt (Ch CHR ''u'')) (Lit ''int16''), Seq (Opt (Ch CHR ''u'')) (Lit ''int32''),
     Seq (Opt (Ch CHR ''u'')) (Lit ''int64'')]), Plus Space, Grp 2 (Alts [Lit ''register'',
     Lit ''static'', Lit ''extern'', Lit ''typedef'']), Wb]"

definition endif_text_re :: re where
  "endif_text_re = Seqs [Star Space, Ch CHR ''#'', Star Space, Lit ''endif'', Star Space,
     Plus (Cls (\<lambda>c. \<not> is_space c \<and> c \<noteq> CHR ''/''))]"

definition inner_forward_re :: re where
  "inner_forward_re = Seqs [Star Space, Lit ''class'', Plus Space, Plus (Grp 1 (Seqs [Plus Word,
     Star Space, Lit ''::'', Star Space])), Plus Word, Star Space, Ch CHR '';'']"

definition min_max_re :: re where
  "min_max_re = Seqs [Grp 1 (Alt (Plus Word) (Seqs [Opt (OneOf ''+-''), Plus Digit,
     Opt (Grp 2 (Seq (Ch CHR ''.'') (Star Digit)))])), Star Space, Grp 3 (OneOf ''<>''), Ch CHR ''?'',
     Opt (Ch CHR ''=''), Star Space, Grp 4 (Alt (Plus Word) (Seq (Opt (OneOf ''+-'')) (Plus Digit))),
     Opt (Grp 5 (Seq (Ch CHR ''.'') (Star Digit)))]"

definition string_member_re :: re where
  "string_member_re = Seqs [Bol, Star Space, Lit ''const'', Star Space, Lit ''string'', Star Space,
     Ch CHR ''&'', Star Space, Plus Word, Star Space, Ch CHR '';'']"

definition construct_reports :: "string \<Rightarrow> cleansed_lines \<Rightarrow> nat \<Rightarrow> report list" where
  "construct_reports filename clean_lines linenum =
     (let line = cl_lines clean_lines ! linenum;
          unescaped = str_replace line [bs, bs] [];
          el = elided clean_lines ! linenum;
          error = (\<lambda>category confidence message.
            [mk_report filename (int linenum) category confidence message])
      in (if found printf_q_re line
          then error ''runtime/printf_format'' 3 ''%q in format strings is deprecated.  Use %ll instead.''
          else []) @
         (if found printf_dollar_re line
          then error ''runtime/printf_format'' 2
            ''%N$ formats are unconventional.  Try rewriting to avoid them.'' else []) @
         (if found undefined_escape_re unescaped
          then error ''build/printf_format'' 3
            ''%, [, (, and { are undefined character escapes.  Unescape them.'' else []) @
         (if found storage_class_re el
          then error ''build/storage_class'' 5
            (''Storage-class specifier (static, extern, typedef, etc) should be '' @
             ''at the beginning of the declaration.'') else []) @
         (if matches endif_text_re el
          then error ''build/endif_comment'' 5
            ''Uncommented text after #endif is non-standard.  Use a comment.'' else []) @
         (if matches inner_forward_re el
          then error ''build/forward_decl'' 5
            ''Inner-style forward declarations are invalid.  Remove this line.'' else []) @
         (if found min_max_re el
          then error ''build/deprecated'' 3
            ''>? and <? (max and min) operators are non-standard and deprecated.'' else []) @
         (if found string_member_re el
          then error ''runtime/member_string_references'' 2
            (''const string& members are dangerous. It is much better to use '' @
             ''alternatives, such as pointers or simple constants.'') else []))"

definition CheckForNonStandardConstructs ::
  "string \<Rightarrow> cleansed_lines \<Rightarrow> nat \<Rightarrow> nesting_state \<Rightarrow> outcome" where
  "CheckForNonStandardConstructs filename clean_lines linenum nesting_state =
     followed_by (reporting (construct_reports filename clean_lines linenum))
      (case InnermostClass nesting_state of
         None \<Rightarrow> reporting []
       | Some b \<Rightarrow>
           if \<not> seen_open_brace b then reporting []
           else (case b_kind b of
               ClassInfo classinfo \<Rightarrow>
                 check_constructor filename linenum (elided clean_lines ! linenum) classinfo
             | _ \<Rightarrow> reporting []))"

section \<open>\<open>CheckForFunctionLengths\<close>\<close>

text \<open>
  \<open>(\w(\w|::|\*|\&|\s)*)\(\<close>,
  \<open>[A-Z_]+$\<close>,
  \<open>(;|})\<close>,
  \<open>{\<close>,
  \<open>((\w|:)*)\(\<close>,
  \<open>TEST\<close>,
  \<open>(\(.*\))\<close>,
  \<open>^\}\s*$\<close>,
  \<open>^\s*$\<close>
\<close>

definition function_start_re :: re where
  "function_start_re = Seq (Grp 1 (Seq Word (Star (Grp 2 (Alts [Word, Lit ''::'', Ch CHR ''*'',
     Ch CHR ''&'', Space]))))) (Ch CHR ''('')"

definition macro_only_re :: re where
  "macro_only_re = Seq (Plus (Cls (\<lambda>c. is_upper_ascii c \<or> c = CHR ''_''))) Eol"

definition body_end_re :: re where
  "body_end_re = Grp 1 (OneOf '';}'')"

definition body_start_re :: re where
  "body_start_re = Ch CHR ''{''"

definition function_name_re :: re where
  "function_name_re = Seq (Grp 1 (Star (Grp 2 (Cls (\<lambda>c. is_word c \<or> c = CHR '':''))))) (Ch CHR ''('')"

definition test_word_re :: re where
  "test_word_re = Lit ''TEST''"

definition parameters_re :: re where
  "parameters_re = Grp 1 (Seqs [Ch CHR ''('', Star Any, Ch CHR '')''])"

definition function_end_re :: re where
  "function_end_re = Seqs [Bol, Ch CHR ''}'', Star Space, Eol]"

definition blank_line_re :: re where
  "blank_line_re = Seqs [Bol, Star Space, Eol]"

text \<open>
  The search for the body of a function: \<open>None\<close> where the file ends, \<open>Some None\<close> for a
  declaration or a trivial body, otherwise the lines up to the opening brace, joined.
\<close>

fun find_body :: "string \<Rightarrow> string list \<Rightarrow> string option option" where
  "find_body joined_line [] = None"
| "find_body joined_line (start_line # lines) =
     (let joined = joined_line @ '' '' @ lstrip start_line in
      if found body_end_re start_line then Some None
      else if found body_start_re start_line then Some (Some joined)
      else find_body joined lines)"

definition starts_function :: "string \<Rightarrow> bool" where
  "starts_function line \<longleftrightarrow>
     (case Match function_start_re line of
        None \<Rightarrow> False
      | Some m \<Rightarrow>
          let function_name = last (str_words (grp m 1))
          in function_name = ''TEST'' \<or> function_name = ''TEST_F'' \<or> \<not> matches macro_only_re function_name)"

definition function_title :: "string \<Rightarrow> string \<Rightarrow> string" where
  "function_title line joined_line =
     (let function = (case Search function_name_re line of Some m \<Rightarrow> grp m 1 | None \<Rightarrow> []) in
      if matches test_word_re function
      then (case Search parameters_re joined_line of
              Some parameter_regexp \<Rightarrow> function @ grp parameter_regexp 1 | None \<Rightarrow> function)
      else function @ ''()'')"

definition CheckForFunctionLengths ::
  "int \<Rightarrow> string \<Rightarrow> cleansed_lines \<Rightarrow> nat \<Rightarrow> function_state \<Rightarrow> function_state \<times> report list" where
  "CheckForFunctionLengths verbose filename clean_lines linenum function_state =
     (let lines = cl_lines clean_lines; line = lines ! linenum in
      if starts_function line
      then case find_body [] (drop linenum (take (NumLines clean_lines) lines)) of
          None \<Rightarrow> (function_state, [mk_report filename (int linenum) ''readability/fn_size'' 5
                      ''Lint failed to find start of function body.''])
        | Some None \<Rightarrow> (function_state, [])
        | Some (Some joined_line) \<Rightarrow> (Begin (function_title line joined_line) function_state, [])
      else if matches function_end_re line
      then (End_function function_state, Check verbose filename (int linenum) function_state)
      else if \<not> matches blank_line_re line then (Count function_state, [])
      else (function_state, []))"

section \<open>Indentation in namespaces\<close>

definition IsBlockInNameSpace :: "nesting_state \<Rightarrow> bool \<Rightarrow> bool" where
  "IsBlockInNameSpace nesting_state is_forward_declaration \<longleftrightarrow>
     (case stack nesting_state of
        [] \<Rightarrow> False
      | b # outer \<Rightarrow>
          if is_forward_declaration then is_namespace b
          else outer \<noteq> [] \<and> check_namespace_indentation b \<and> is_namespace (hd outer))"

definition ShouldCheckNamespaceIndentation :: "nesting_state \<Rightarrow> bool \<Rightarrow> string list \<Rightarrow> nat \<Rightarrow> bool" where
  "ShouldCheckNamespaceIndentation nesting_state is_namespace_indent_item raw_lines_no_comments linenum \<longleftrightarrow>
     (let is_forward_declaration = IsForwardClassDeclaration raw_lines_no_comments linenum in
      (is_namespace_indent_item \<or> is_forward_declaration) \<and>
      \<not> IsMacroDefinition raw_lines_no_comments linenum \<and>
      IsBlockInNameSpace nesting_state is_forward_declaration)"

text \<open>
  \<open>^\s+\<close>
\<close>

definition indented_re :: re where
  "indented_re = Seq Bol (Plus Space)"

definition CheckItemIndentationInNamespace :: "string \<Rightarrow> string list \<Rightarrow> nat \<Rightarrow> report list" where
  "CheckItemIndentationInNamespace filename raw_lines_no_comments linenum =
     (if matches indented_re (raw_lines_no_comments ! linenum)
      then [mk_report filename (int linenum) ''runtime/indentation_namespace'' 4
             ''Do not indent within a namespace'']
      else [])"

text \<open>The block on top is new, directly inside a namespace that was on top before (\<open>==\<close> compares
  the objects).\<close>

definition namespace_indent_item :: "nesting_state \<Rightarrow> bool" where
  "namespace_indent_item nesting_state \<longleftrightarrow>
     (case stack nesting_state of
        b # outer # _ \<Rightarrow>
          check_namespace_indentation b \<and>
          (case previous_stack_top nesting_state of
             None \<Rightarrow> False
           | Some p \<Rightarrow> is_namespace p \<and> b_id p = b_id outer)
      | _ \<Rightarrow> False)"

definition CheckForNamespaceIndentation :: "string \<Rightarrow> nesting_state \<Rightarrow> cleansed_lines \<Rightarrow> nat \<Rightarrow> report list" where
  "CheckForNamespaceIndentation filename nesting_state clean_lines line =
     (if ShouldCheckNamespaceIndentation nesting_state (namespace_indent_item nesting_state)
           (elided clean_lines) line
      then CheckItemIndentationInNamespace filename (elided clean_lines) line
      else [])"

section \<open>Redundant specifiers\<close>

text \<open>
  \<open>\bmake_pair\s*<\<close>
\<close>

definition make_pair_re :: re where
  "make_pair_re = Seqs [Wb, Lit ''make_pair'', Star Space, Ch CHR ''<'']"

definition CheckMakePairUsesDeduction :: "string \<Rightarrow> cleansed_lines \<Rightarrow> nat \<Rightarrow> report list" where
  "CheckMakePairUsesDeduction filename clean_lines linenum =
     (if found make_pair_re (elided clean_lines ! linenum)
      then [mk_report filename (int linenum) ''build/explicit_make_pair'' 4
             (''For C++11-compatibility, omit template arguments from make_pair'' @
              '' OR use pair directly OR if appropriate, construct a pair directly'')]
      else [])"

text \<open>
  \<open>^(.*)(\bvirtual\b)(.*)$\<close>,
  \<open>\b(public|protected|private)\s+$\<close>,
  \<open>^\s+(public|protected|private)\b\<close>,
  \<open>^.*[^:]:[^:].*$\<close>,
  \<open>^([^(]*)\(\<close>,
  \<open>\b(override|final)\b\<close>,
  \<open>[^\w]\s*$\<close>
\<close>

definition virtual_re :: re where
  "virtual_re = Seqs [Bol, Grp 1 (Star Any), Grp 2 (Seqs [Wb, Lit ''virtual'', Wb]), Grp 3 (Star Any), Eol]"

definition access_before_re :: re where
  "access_before_re = Seqs [Wb, Grp 1 (Seq (Ch CHR ''p'') (Alts [Lit ''ublic'', Lit ''rotected'',
     Lit ''rivate''])), Plus Space, Eol]"

definition access_after_re :: re where
  "access_after_re = Seqs [Bol, Plus Space, Grp 1 (Seq (Ch CHR ''p'') (Alts [Lit ''ublic'',
     Lit ''rotected'', Lit ''rivate''])), Wb]"

definition single_colon_re :: re where
  "single_colon_re = Seqs [Bol, Star Any, NoneOf '':'', Ch CHR '':'', NoneOf '':'', Star Any, Eol]"

definition parameter_list_re :: re where
  "parameter_list_re = Seqs [Bol, Grp 1 (Star (NoneOf ''('')), Ch CHR ''('']"

definition override_or_final_re :: re where
  "override_or_final_re = Seqs [Wb, Grp 1 (Alt (Lit ''override'') (Lit ''final'')), Wb]"

definition not_word_end_re :: re where
  "not_word_end_re = Seqs [NonWord, Star Space, Eol]"

text \<open>
  The end of the parameter list that starts on one of the lines \<open>start_lines\<close>, of which the
  first is read from column \<open>start_col\<close>: \<open>None\<close> where there is none.
\<close>

fun parameter_list_end :: "cleansed_lines \<Rightarrow> nat \<Rightarrow> nat list \<Rightarrow> py_error + (nat \<times> int) option" where
  "parameter_list_end clean_lines start_col [] = Inr None"
| "parameter_list_end clean_lines start_col (start_line # start_lines) =
     (case Match parameter_list_re (drop start_col (elided clean_lines ! start_line)) of
        Some parameter_list \<Rightarrow>
          map_sum id (\<lambda>(_, end_line, end_col). Some (end_line, end_col))
            (CloseExpression clean_lines start_line (start_col + length (grp parameter_list 1)))
      | None \<Rightarrow> parameter_list_end clean_lines 0 start_lines)"

fun redundant_virtual :: "string \<Rightarrow> nat \<Rightarrow> cleansed_lines \<Rightarrow> nat \<Rightarrow> nat list \<Rightarrow> report list" where
  "redundant_virtual filename linenum clean_lines end_col [] = []"
| "redundant_virtual filename linenum clean_lines end_col (i # is) =
     (let line = drop end_col (elided clean_lines ! i) in
      (case Search override_or_final_re line of
         Some m \<Rightarrow> [mk_report filename (int linenum) ''readability/inheritance'' 4
           ([dq] @ ''virtual'' @ [dq] @ '' is redundant since function is already declared as '' @
            [dq] @ grp m 1 @ [dq])]
       | None \<Rightarrow> []) @
      (if found not_word_end_re line then []
       else redundant_virtual filename linenum clean_lines 0 is))"

definition CheckRedundantVirtual :: "string \<Rightarrow> cleansed_lines \<Rightarrow> nat \<Rightarrow> outcome" where
  "CheckRedundantVirtual filename clean_lines linenum =
     (let line = elided clean_lines ! linenum in
      case Match virtual_re line of
        None \<Rightarrow> reporting []
      | Some virtual \<Rightarrow>
          if found access_before_re (grp virtual 1) \<or> matches access_after_re (grp virtual 3) \<or>
             matches single_colon_re line
          then reporting []
          else attempt (parameter_list_end clean_lines (length (grp virtual 2))
              [linenum..<min (linenum + 3) (NumLines clean_lines)])
            (\<lambda>r. reporting (case r of
                None \<Rightarrow> []
              | Some (end_line, end_col) \<Rightarrow>
                  if end_col < 0 then []
                  else redundant_virtual filename linenum clean_lines (nat end_col)
                    [end_line..<min (end_line + 3) (NumLines clean_lines)])))"

text \<open>
  \<open>\boverride\b\<close>,
  \<open>\bfinal\b\<close>
\<close>

definition override_re :: re where
  "override_re = Seqs [Wb, Lit ''override'', Wb]"

definition final_re :: re where
  "final_re = Seqs [Wb, Lit ''final'', Wb]"

definition CheckRedundantOverrideOrFinal :: "string \<Rightarrow> cleansed_lines \<Rightarrow> nat \<Rightarrow> report list" where
  "CheckRedundantOverrideOrFinal filename clean_lines linenum =
     (let line = elided clean_lines ! linenum in
      case (case str_rfind line CHR '')'' of
              Some declarator_end \<Rightarrow> Some (drop declarator_end line)
            | None \<Rightarrow>
                if linenum > 1 \<and> str_rfind (elided clean_lines ! (linenum - 1)) CHR '')'' \<noteq> None
                then Some line else None) of
        None \<Rightarrow> []
      | Some fragment \<Rightarrow>
          if found override_re fragment \<and> found final_re fragment
          then [mk_report filename (int linenum) ''readability/inheritance'' 4
            ([dq] @ ''override'' @ [dq] @ '' is redundant since function is already declared as '' @
             [dq] @ ''final'' @ [dq])]
          else [])"

section \<open>The arguments of a constructor in groups\<close>

text \<open>
  A group of pieces is balanced when they are joined and not before; pieces are pending as
  long as none of their joined prefixes is balanced.
\<close>

definition balanced_group :: "string list \<Rightarrow> bool" where
  "balanced_group pieces \<longleftrightarrow> pieces \<noteq> [] \<and> \<not> unbalanced_arg (str_join '','' pieces) \<and>
     (\<forall>k\<in>{1..<length pieces}. unbalanced_arg (str_join '','' (take k pieces)))"

definition pending_pieces :: "string list \<Rightarrow> bool" where
  "pending_pieces pieces \<longleftrightarrow>
     (\<forall>k\<in>{1..length pieces}. unbalanced_arg (str_join '','' (take k pieces)))"

lemma pending_prefix: "\<lbrakk>pending_pieces (p @ q); p \<noteq> []\<rbrakk> \<Longrightarrow> unbalanced_arg (str_join '','' p)"
  by (cases p) (auto simp: pending_pieces_def dest!: bspec [of _ _ "length p"])

lemma unbalanced_prefix:
  "\<lbrakk>balanced_group (p @ q); p \<noteq> []; q \<noteq> []\<rbrakk> \<Longrightarrow> unbalanced_arg (str_join '','' p)"
  by (cases p) (auto simp: balanced_group_def dest!: bspec [of _ _ "length p"])

lemma collapse_group:
  "\<lbrakk>balanced_group (p @ q); p \<noteq> []\<rbrakk> \<Longrightarrow>
   collapse_args (str_join '','' p # q @ rest) =
     map_sum id (\<lambda>as. str_join '','' (p @ q) # as) (collapse_args rest)"
proof (induction q arbitrary: p)
  case Nil
  then show ?case by (cases rest) (auto simp: balanced_group_def id_def)
next
  case (Cons x q)
  have "unbalanced_arg (str_join '','' p)" by (rule unbalanced_prefix [of _ "x # q"]) (use Cons.prems in auto)
  with Cons.IH [of "p @ [x]"] Cons.prems show ?case by (simp add: str_join_snoc)
qed

lemma collapse_pending:
  "\<lbrakk>pending_pieces (p @ q); p \<noteq> []\<rbrakk> \<Longrightarrow> collapse_args (str_join '','' p # q) = Inl IndexError"
proof (induction q arbitrary: p)
  case Nil
  then have "unbalanced_arg (str_join '','' p)" by (rule pending_prefix)
  then show ?case by simp
next
  case (Cons x q)
  have "unbalanced_arg (str_join '','' p)" by (rule pending_prefix [of _ "x # q"]) (use Cons.prems in auto)
  with Cons.IH [of "p @ [x]"] Cons.prems show ?case by (simp add: str_join_snoc)
qed

lemma collapse_groups:
  "\<lbrakk>list_all balanced_group gs; pending_pieces p\<rbrakk> \<Longrightarrow>
   collapse_args (concat gs @ p) =
     (if p = [] then Inr (map (str_join '','') gs) else Inl IndexError)"
proof (induction gs)
  case Nil
  then show ?case using collapse_pending [of "[hd p]" "tl p"] by (cases p) auto
next
  case (Cons g gs)
  then obtain x g' where g: "g = [x] @ g'" by (cases g) (auto simp: balanced_group_def)
  from collapse_group [of "[x]" g' "concat gs @ p"] Cons show ?case by (simp add: g)
qed

lemma groups_exist: "\<exists>gs p. args = concat gs @ p \<and> list_all balanced_group gs \<and> pending_pieces p"
proof (induction "length args" arbitrary: args rule: less_induct)
  case less
  show ?case
  proof (cases "pending_pieces args")
    case True
    then show ?thesis by (intro exI [of _ "[]"] exI [of _ args]) simp
  next
    case False
    define balanced where "balanced k \<longleftrightarrow> 1 \<le> k \<and> \<not> unbalanced_arg (str_join '','' (take k args))" for k
    from False obtain k0 where k0: "balanced k0" "k0 \<le> length args"
      by (auto simp: pending_pieces_def balanced_def)
    define k where "k = (LEAST k. balanced k)"
    have k: "balanced k" "k \<le> length args" "\<And>j. j < k \<Longrightarrow> \<not> balanced j"
      using LeastI [of balanced, OF k0(1)] Least_le [of balanced, OF k0(1)] k0(2) not_less_Least
      unfolding k_def by (auto intro: order_trans)
    then have "balanced_group (take k args)"
      by (auto simp: balanced_group_def balanced_def min_def)
    moreover have "length (drop k args) < length args" using k(1,2) by (auto simp: balanced_def)
    from less [OF this] obtain gs p
      where "drop k args = concat gs @ p" "list_all balanced_group gs" "pending_pieces p"
      by blast
    ultimately show ?thesis
      by (intro exI [of _ "take k args # gs"] exI [of _ p])
        (simp, metis append_take_drop_id)
  qed
qed

lemma collapse_args_raises:
  "collapse_args args = Inl IndexError \<longleftrightarrow>
     (\<exists>gs p. args = concat gs @ p \<and> list_all balanced_group gs \<and> pending_pieces p \<and> p \<noteq> [])"
  using groups_exist [of args] collapse_groups by (auto split: if_splits) metis

section \<open>The checks keep their promise\<close>

lemma construct_reports_ok:
  "linenum < NumLines c \<Longrightarrow> reports_ok f (NumLines c) (construct_reports f c linenum)"
  unfolding construct_reports_def Let_def by (intro outcome_intros) auto

lemma constructor_reports_ok:
  "linenum < n \<Longrightarrow> reports_ok f n (constructor_reports f linenum name ex args)"
  unfolding constructor_reports_def Let_def by (intro outcome_intros) auto

lemma collapse_args_error: "collapse_args args = Inl e \<Longrightarrow> e = IndexError"
  using groups_exist [of args] collapse_groups by (auto split: if_splits)

lemma CheckForNonStandardConstructs_ok:
  "linenum < NumLines c \<Longrightarrow>
   outcome_may {IndexError} f (NumLines c) (CheckForNonStandardConstructs f c linenum s)"
  unfolding CheckForNonStandardConstructs_def check_constructor_def Let_def
  by (auto intro!: outcome_intros construct_reports_ok constructor_reports_ok dest: collapse_args_error
      split: option.split block_kind.split)

lemma Check_ok: "l < n \<Longrightarrow> reports_ok f n (Check v f (int l) s)"
  unfolding Check_def Let_def by (auto intro!: outcome_intros)

lemma CheckForFunctionLengths_ok:
  "linenum < NumLines c \<Longrightarrow>
   reports_ok f (NumLines c) (snd (CheckForFunctionLengths v f c linenum s))"
  unfolding CheckForFunctionLengths_def Let_def
  by (auto intro!: outcome_intros Check_ok split: option.split)

lemma CheckForNamespaceIndentation_ok:
  "linenum < NumLines c \<Longrightarrow> reports_ok f (NumLines c) (CheckForNamespaceIndentation f s c linenum)"
  unfolding CheckForNamespaceIndentation_def CheckItemIndentationInNamespace_def
  by (intro outcome_intros) auto

lemma CheckMakePairUsesDeduction_ok:
  "linenum < NumLines c \<Longrightarrow> reports_ok f (NumLines c) (CheckMakePairUsesDeduction f c linenum)"
  unfolding CheckMakePairUsesDeduction_def by (intro outcome_intros) auto

lemma redundant_virtual_ok:
  "linenum < n \<Longrightarrow> reports_ok f n (redundant_virtual f linenum c end_col is)"
  by (induction f linenum c end_col "is" rule: redundant_virtual.induct)
    (auto simp: Let_def reports_ok_def intro!: report_ok_mk split: option.split)

lemma parameter_list_end_Inr:
  assumes "lines_ok c" and "\<forall>l\<in>set ls. l < NumLines c"
  shows "parameter_list_end c start_col ls \<noteq> Inl e"
  using assms(2)
proof (induction ls arbitrary: start_col)
  case (Cons l ls)
  show ?case
  proof (cases "Match parameter_list_re (drop start_col (elided c ! l))")
    case (Some m)
    from head_group_length [OF this [unfolded parameter_list_re_def]]
    have "length (grp m 1) < length (drop start_col (elided c ! l))"
      by (simp add: Seqs.simps Ch_def)
    then have "CloseExpression c l (start_col + length (grp m 1)) \<noteq> Inl e" for e
      using Cons.prems assms(1) by (intro CloseExpression_Inr) (auto simp: lines_ok_def)
    with Some show ?thesis by (auto split: sum.split simp: map_sum_def)
  qed (use Cons in auto)
qed simp

lemma CheckRedundantVirtual_ok:
  assumes "lines_ok c" and "linenum < NumLines c"
  shows "outcome_ok f (NumLines c) (CheckRedundantVirtual f c linenum)"
proof -
  have "parameter_list_end c k [linenum..<min (linenum + 3) (NumLines c)] \<noteq> Inl e" for k e
    using assms by (intro parameter_list_end_Inr) auto
  then show ?thesis using assms(2) unfolding CheckRedundantVirtual_def Let_def
    by (auto intro!: outcome_intros redundant_virtual_ok split: option.split)
qed

lemma CheckRedundantOverrideOrFinal_ok:
  "linenum < NumLines c \<Longrightarrow> reports_ok f (NumLines c) (CheckRedundantOverrideOrFinal f c linenum)"
  unfolding CheckRedundantOverrideOrFinal_def Let_def by (intro outcome_intros) auto

section \<open>When the check of a constructor raises\<close>

text \<open>C12: On a line with a constructor of the class being read, \<open>CheckForNonStandardConstructs\<close>
  raises \<open>IndexError\<close> exactly when the argument list, split at its commas, does not divide
  into groups of pieces with balanced brackets: after some balanced groups there are pieces
  left, and no joined prefix of them is balanced.\<close>

theorem constructor_arguments_raise:
  assumes "InnermostClass s = Some b" and "seen_open_brace b" and "b_kind b = ClassInfo classinfo"
    and m: "Match (constructor_re (last_component (c_name classinfo))) (elided c ! linenum) = Some m"
    and "grp m 2 \<noteq> []"
  shows "snd (CheckForNonStandardConstructs f c linenum s) =
    (if \<exists>gs p. str_split CHR '','' (grp m 2) = concat gs @ p \<and> list_all balanced_group gs \<and>
         pending_pieces p \<and> p \<noteq> []
     then Some IndexError else None)"
proof -
  let ?args = "str_split CHR '','' (grp m 2)"
  have "snd (CheckForNonStandardConstructs f c linenum s) =
      (case collapse_args ?args of Inl e \<Rightarrow> Some e | Inr _ \<Rightarrow> None)"
    using assms by (cases "collapse_args ?args")
      (auto simp: CheckForNonStandardConstructs_def check_constructor_def followed_by_def reporting_def)
  moreover have "(\<exists>as. collapse_args ?args = Inr as) \<or> collapse_args ?args = Inl IndexError"
    using collapse_args_error by (cases "collapse_args ?args") auto
  ultimately show ?thesis by (auto simp: collapse_args_raises [symmetric])
qed

definition sample_class :: cleansed_lines where
  "sample_class = (let ls = [''class Foo {'', ''  Foo(bool a = 1 < 2, int b);''] in
     \<lparr>elided = ls, cl_lines = ls, raw_lines = ls, num_lines = 2, lines_without_raw_strings = ls\<rparr>)"

definition in_sample_class :: nesting_state where
  "in_sample_class = init_nesting_state\<lparr>stack :=
     [(new_ClassInfo 0 ''Foo'' ''class'' sample_class 0)\<lparr>seen_open_brace := True\<rparr>]\<rparr>"

lemma constructor_arguments_raise_witness:
  "CheckForNonStandardConstructs ''a.cc'' sample_class 1 in_sample_class = ([], Some IndexError) \<and>
   (\<exists>gs p. [''bool a = 1 < 2'', '' int b''] = concat gs @ p \<and> list_all balanced_group gs \<and>
      pending_pieces p \<and> p \<noteq> [])"
proof -
  let ?b = "(new_ClassInfo 0 ''Foo'' ''class'' sample_class 0)\<lparr>seen_open_brace := True\<rparr>"
  let ?m = "Match (constructor_re ''Foo'') (elided sample_class ! 1)"
  have b: "InnermostClass in_sample_class = Some ?b" "seen_open_brace ?b"
    by (simp_all add: InnermostClass_def in_sample_class_def is_class_def new_ClassInfo_def)
  obtain ci where ci: "b_kind ?b = ClassInfo ci" "last_component (c_name ci) = ''Foo''"
    by (auto simp: new_ClassInfo_def last_component.simps [of "''Foo''"])
  have "map_option (\<lambda>m. str_split CHR '','' (grp m 2)) ?m = Some [''bool a = 1 < 2'', '' int b'']"
    by code_simp
  then obtain m where m: "?m = Some m" "str_split CHR '','' (grp m 2) = [''bool a = 1 < 2'', '' int b'']"
    by auto
  then have "grp m 2 \<noteq> []" by auto
  have raised: "CheckForNonStandardConstructs ''a.cc'' sample_class 1 in_sample_class = ([], Some IndexError)"
    by code_simp
  with constructor_arguments_raise [OF b ci(1), unfolded ci(2), OF m(1) \<open>grp m 2 \<noteq> []\<close>,
      of "''a.cc''"] m(2)
  show ?thesis by (metis option.distinct(1) snd_conv)
qed

end
