(* ===== verification/References.thy ===== *)
theory References
  imports Reporting
begin

text \<open>
  \<open>CheckForNonConstReference\<close> of \<open>build_support/cpplint.py\<close>, with the searches backwards for the
  function the line belongs to.
\<close>

section \<open>The function around a line\<close>

text \<open>
  \<open>^([^()]*\w+)\(\<close>,
  \<open>^[^()]*\w+::\w+\(\<close>,
  \<open>\boverride\b\<close>
\<close>

definition function_open_re :: re where
  "function_open_re = Seqs [Bol, Grp 1 (Seq (Star (NoneOf ''()'')) (Plus Word)), Ch CHR ''('']"

definition method_open_re :: re where
  "method_open_re = Seqs [Bol, Star (NoneOf ''()''), Plus Word, Lit ''::'', Plus Word, Ch CHR ''('']"

definition override_word_re :: re where
  "override_word_re = Seqs [Wb, Lit ''override'', Wb]"

text \<open>\<open>xrange(linenum, max(-1, linenum - 10), -1)\<close>\<close>

definition scan_back :: "nat \<Rightarrow> nat list" where
  "scan_back linenum = rev [linenum - 9..<Suc linenum]"

definition function_start :: "cleansed_lines \<Rightarrow> nat \<Rightarrow> nat option" where
  "function_start clean_lines linenum =
     find (\<lambda>i. matches function_open_re (elided clean_lines ! i)) (scan_back linenum)"

definition IsDerivedFunction :: "cleansed_lines \<Rightarrow> nat \<Rightarrow> py_error + bool" where
  "IsDerivedFunction clean_lines linenum =
     (case function_start clean_lines linenum of
        None \<Rightarrow> Inr False
      | Some i \<Rightarrow>
          (case Match function_open_re (elided clean_lines ! i) of
             None \<Rightarrow> Inr False
           | Some m \<Rightarrow>
               map_sum id (\<lambda>(line, _, closing_paren).
                   closing_paren \<ge> 0 \<and> found override_word_re (drop (nat closing_paren) line))
                 (CloseExpression clean_lines i (length (grp m 1)))))"

definition IsOutOfLineMethodDefinition :: "cleansed_lines \<Rightarrow> nat \<Rightarrow> bool" where
  "IsOutOfLineMethodDefinition clean_lines linenum \<longleftrightarrow>
     (case function_start clean_lines linenum of
        None \<Rightarrow> False | Some i \<Rightarrow> matches method_open_re (elided clean_lines ! i))"

text \<open>
  \<open>^(.*)\{\s*$\<close>,
  \<open>\s:\s*\w+[({]\<close>,
  \<open>\}\s*,\s*$\<close>,
  \<open>[{};]\s*$\<close>
\<close>

definition function_body_re :: re where
  "function_body_re = Seqs [Bol, Grp 1 (Star Any), Ch CHR ''{'', Star Space, Eol]"

definition lone_colon_re :: re where
  "lone_colon_re = Seqs [Space, Ch CHR '':'', Star Space, Plus Word, OneOf ''({'']"

definition member_brace_re :: re where
  "member_brace_re = Seqs [Ch CHR ''}'', Star Space, Ch CHR '','', Star Space, Eol]"

definition statement_end_re :: re where
  "statement_end_re = Seqs [OneOf ''{};'', Star Space, Eol]"

text \<open>The loop over the lines backwards, the current line (without the start of a body) first.\<close>

fun initializer_scan :: "string list \<Rightarrow> bool" where
  "initializer_scan [] = False"
| "initializer_scan (line # lines) =
     (if found lone_colon_re line \<or> found member_brace_re line then True
      else if found statement_end_re line then False
      else initializer_scan lines)"

definition IsInitializerList :: "cleansed_lines \<Rightarrow> nat \<Rightarrow> bool" where
  "IsInitializerList clean_lines linenum =
     (case map ((!) (elided clean_lines)) (rev [2..<Suc linenum]) of
        [] \<Rightarrow> False
      | line # lines \<Rightarrow> initializer_scan
          ((case Match function_body_re line of Some m \<Rightarrow> grp m 1 | None \<Rightarrow> line) # lines))"

section \<open>\<open>CheckForNonConstReference\<close>\<close>

text \<open>
  \<open>\s*::(?:[\w<>]|::)+\s*&\s*\S\<close>,
  \<open>\b((?:const\s*)?(?:[\w<>]|::)+[\w<>])\s*$\<close>,
  \<open>\s*[a-zA-Z_]([\w<>]|::)+\s*&\s*\S\<close>,
  \<open>\b((?:const\s*)?(?:[\w<>]|::)+::)\s*$\<close>
\<close>

definition continued_type_re :: re where
  "continued_type_re = Seqs [Star Space, Lit ''::'',
     Plus (Alt (Cls (\<lambda>c. is_word c \<or> c \<in> set ''<>'')) (Lit ''::'')), Star Space,
     Ch CHR ''&'', Star Space, NonSpace]"

definition type_start_re :: re where
  "type_start_re = Seqs [Wb, Grp 1 (Seqs [Opt (Seq (Lit ''const'') (Star Space)),
     Plus (Alt (Cls (\<lambda>c. is_word c \<or> c \<in> set ''<>'')) (Lit ''::'')),
     Cls (\<lambda>c. is_word c \<or> c \<in> set ''<>'')]), Star Space, Eol]"

definition qualified_type_re :: re where
  "qualified_type_re = Seqs [Star Space,
     Cls (\<lambda>c. is_lower_ascii c \<or> is_upper_ascii c \<or> c = CHR ''_''),
     Plus (Grp 1 (Alt (Cls (\<lambda>c. is_word c \<or> c \<in> set ''<>'')) (Lit ''::''))), Star Space,
     Ch CHR ''&'', Star Space, NonSpace]"

definition qualifier_re :: re where
  "qualifier_re = Seqs [Wb, Grp 1 (Seqs [Opt (Seq (Lit ''const'') (Star Space)),
     Plus (Alt (Cls (\<lambda>c. is_word c \<or> c \<in> set ''<>'')) (Lit ''::'')), Lit ''::'']),
     Star Space, Eol]"

text \<open>The line, joined to the lines before it where a type is broken across them.\<close>

definition joined_type :: "cleansed_lines \<Rightarrow> nat \<Rightarrow> py_error + string" where
  "joined_type clean_lines linenum =
     (let line = elided clean_lines ! linenum;
          preceding = elided clean_lines ! (linenum - 1)
      in if linenum \<le> 1 then Inr line
         else case (if matches continued_type_re line then Search type_start_re preceding
                    else if matches qualified_type_re line then Search qualifier_re preceding
                    else None) of
             Some previous \<Rightarrow> Inr (grp previous 1 @ lstrip line)
           | None \<Rightarrow>
               (case str_rfind line CHR ''>'' of
                  None \<Rightarrow> Inr line
                | Some endpos \<Rightarrow>
                    map_sum id (\<lambda>(_, startline, startpos).
                        if startpos > -1 \<and> startline < linenum
                        then concat (map (\<lambda>i. strip (elided clean_lines ! i)) [startline..<linenum + 1])
                        else line)
                      (ReverseCloseExpression clean_lines linenum endpos)))"

text \<open>Inside a block that is neither a class nor a namespace.\<close>

definition inside_function :: "nesting_state \<Rightarrow> bool" where
  "inside_function nesting_state \<longleftrightarrow>
     (case previous_stack_top nesting_state of
        None \<Rightarrow> False | Some b \<Rightarrow> \<not> is_class b \<and> \<not> is_namespace b)"

text \<open>
  \<open>[),]\s*$\<close>,
  \<open>^\s*:\s+\S\<close>
\<close>

definition list_continued_re :: re where
  "list_continued_re = Seqs [OneOf ''),'', Star Space, Eol]"

definition initializer_start_re :: re where
  "initializer_start_re = Seqs [Bol, Star Space, Ch CHR '':'', Plus Space, NonSpace]"

fun after_initializer_start :: "string list \<Rightarrow> bool" where
  "after_initializer_start [] = False"
| "after_initializer_start (previous_line # lines) =
     (found list_continued_re previous_line \<and>
      (matches initializer_start_re previous_line \<or> after_initializer_start lines))"

text \<open>
  \<open>\\\s*$\<close>,
  \<open>(?:[sS]wap(?:<\w:+>)?|operator\s*[<>][<>]|static_assert|COMPILE_ASSERT)\s*\(\<close>,
  \<open>\S+\([^)]*$\<close>
\<close>

definition backslash_end_re :: re where
  "backslash_end_re = Seqs [Ch bs, Star Space, Eol]"

definition whitelisted_functions_re :: re where
  "whitelisted_functions_re = Seqs [Alts [Seqs [OneOf ''sS'', Lit ''wap'', Opt (Seqs [Ch CHR ''<'', Word,
     Plus (Ch CHR '':''), Ch CHR ''>''])], Seqs [Lit ''operator'', Star Space, OneOf ''<>'',
     OneOf ''<>''], Lit ''static_assert'', Lit ''COMPILE_ASSERT''], Star Space, Ch CHR ''('']"

definition call_open_re :: re where
  "call_open_re = Seqs [Plus NonSpace, Ch CHR ''('', Star (NoneOf '')''), Eol]"

definition whitelisted :: "cleansed_lines \<Rightarrow> nat \<Rightarrow> string \<Rightarrow> bool" where
  "whitelisted clean_lines linenum line \<longleftrightarrow>
     found whitelisted_functions_re line \<or>
     \<not> found call_open_re line \<and>
       (\<exists>i\<in>set [0..<2]. linenum > i \<and>
          found whitelisted_functions_re (elided clean_lines ! (linenum - i - 1)))"

text \<open>
  \<open>_RE_PATTERN_IDENT\<close> is \<open>[_a-zA-Z]\w*\<close> and \<open>_RE_PATTERN_TYPE\<close> is
  \<open>(?:const\s+)?(?:typename\s+|class\s+|struct\s+|union\s+|enum\s+)?\<close>
  \<open>(?:\w|\s*<(?:<(?:<[^<>]*>|[^<>])*>|[^<>])*>|::)+\<close>.
\<close>

definition ident_re :: re where
  "ident_re = Seq (Cls (\<lambda>c. is_lower_ascii c \<or> is_upper_ascii c \<or> c = CHR ''_'')) (Star Word)"

definition nested_re :: "re \<Rightarrow> re" where
  "nested_re r = Seqs [Ch CHR ''<'', Star r, Ch CHR ''>'']"

definition type_re :: re where
  "type_re =
     (let nest = (\<lambda>r. Alt (nested_re r) (NoneOf ''<>'')) in
      Seqs [Opt (Seq (Lit ''const'') (Plus Space)),
        Opt (Alts [Seq (Lit ''typename'') (Plus Space), Seq (Lit ''class'') (Plus Space),
          Seq (Lit ''struct'') (Plus Space), Seq (Lit ''union'') (Plus Space),
          Seq (Lit ''enum'') (Plus Space)]),
        Plus (Alts [Word, Seq (Star Space) (nested_re (nest (nest (NoneOf ''<>'')))), Lit ''::''])])"

text \<open>
  \<open>(\<close>, the type, \<open>(?:\s*(?:\bconst\b|[*]))*\s*&\s*\<close>, the identifier, \<open>)\s*(?:=[^,()]+)?[,)]\<close>;
  \<open>(?:.*\s*\bconst\s*&\s*\<close>, the identifier, \<open>|const\s+\<close>, the type, \<open>\s*&\s*\<close>, the identifier, \<open>)\<close>;
  \<open>(?:.*stream\s*&\s*\<close> and the identifier, \<open>)\<close>
\<close>

definition ref_param_re :: re where
  "ref_param_re = Seqs
     [Grp 1 (Seqs [type_re, Star (Seq (Star Space) (Alt (Seqs [Wb, Lit ''const'', Wb]) (Ch CHR ''*''))),
        Star Space, Ch CHR ''&'', Star Space, ident_re]),
      Star Space, Opt (Seq (Ch CHR ''='') (Plus (NoneOf '',()''))), OneOf '',)'']"

definition const_ref_param_re :: re where
  "const_ref_param_re = Alt
     (Seqs [Star Any, Star Space, Wb, Lit ''const'', Star Space, Ch CHR ''&'', Star Space, ident_re])
     (Seqs [Lit ''const'', Plus Space, type_re, Star Space, Ch CHR ''&'', Star Space, ident_re])"

definition ref_stream_param_re :: re where
  "ref_stream_param_re = Seqs [Star Any, Lit ''stream'', Star Space, Ch CHR ''&'', Star Space, ident_re]"

text \<open>
  \<open>{[^}]*}\<close>,
  \<open> *<\<close>
\<close>

definition function_braces_re :: re where
  "function_braces_re = Seqs [Ch CHR ''{'', Star (NoneOf ''}''), Ch CHR ''}'']"

definition spaces_bracket_re :: re where
  "spaces_bracket_re = Seq (Star (Ch CHR '' '')) (Ch CHR ''<'')"

definition reference_reports :: "string \<Rightarrow> nat \<Rightarrow> string \<Rightarrow> report list" where
  "reference_reports filename linenum line =
     (let decls = ReplaceAll function_braces_re '' '' line in
      concat (map (\<lambda>m. let parameter = grp m 1 in
          if \<not> matches const_ref_param_re parameter \<and> \<not> matches ref_stream_param_re parameter
          then [mk_report filename (int linenum) ''runtime/references'' 2
            (''Is this a non-const reference? '' @ ''If so, make const or use a pointer: '' @
             ReplaceAll spaces_bracket_re ''<'' parameter)]
          else []) (re_finditer ref_param_re decls)))"

definition CheckForNonConstReference :: "string \<Rightarrow> cleansed_lines \<Rightarrow> nat \<Rightarrow> nesting_state \<Rightarrow> outcome" where
  "CheckForNonConstReference filename clean_lines linenum nesting_state =
     (if CHR ''&'' \<notin> set (elided clean_lines ! linenum) then reporting []
      else attempt (IsDerivedFunction clean_lines linenum) (\<lambda>derived.
        if derived \<or> IsOutOfLineMethodDefinition clean_lines linenum then reporting []
        else attempt (joined_type clean_lines linenum) (\<lambda>line. reporting
          (if inside_function nesting_state \<or>
              after_initializer_start
                (map ((!) (elided clean_lines)) (rev [Suc (linenum - 10)..<linenum])) \<or>
              found backslash_end_re line \<or> IsInitializerList clean_lines linenum \<or>
              whitelisted clean_lines linenum line
           then [] else reference_reports filename linenum line))))"

section \<open>The check keeps its promise\<close>

lemma reference_reports_ok: "linenum < n \<Longrightarrow> reports_ok f n (reference_reports f linenum line)"
  unfolding reference_reports_def Let_def by (rule reports_ok_concat_map) (intro outcome_intros, auto)

lemma joined_type_Inr:
  assumes "lines_ok c" and "linenum < NumLines c"
  shows "joined_type c linenum \<noteq> Inl e"
proof -
  have "ReverseCloseExpression c linenum p \<noteq> Inl e" if "str_rfind (elided c ! linenum) ch = Some p" for p ch
    using assms str_rfind_less [OF that] by (intro ReverseCloseExpression_Inr) (simp_all add: lines_ok_def)
  then show ?thesis
    by (auto simp: joined_type_def Let_def split: option.split)
qed

lemma IsDerivedFunction_Inr:
  assumes "lines_ok c" and "linenum < NumLines c"
  shows "IsDerivedFunction c linenum \<noteq> Inl e"
proof -
  have "CloseExpression c i (length (grp m 1)) \<noteq> Inl e"
    if "Match function_open_re (elided c ! i) = Some m" "i < NumLines c" for i m
    using that(1) unfolding function_open_re_def
    by (rule close_at_group) (use assms that(2) in \<open>simp_all add: Seqs.simps Ch_def\<close>)
  moreover have "i < NumLines c" if "function_start c linenum = Some i" for i
    using find_in_set [OF that [unfolded function_start_def]] assms(2) by (auto simp: scan_back_def)
  ultimately show ?thesis
    by (auto simp: IsDerivedFunction_def split: option.split)
qed

lemma CheckForNonConstReference_ok:
  assumes "lines_ok c" and "linenum < NumLines c"
  shows "outcome_ok f (NumLines c) (CheckForNonConstReference f c linenum s)"
  unfolding CheckForNonConstReference_def
  by (intro outcome_intros)
    (use assms joined_type_Inr IsDerivedFunction_Inr reference_reports_ok in \<open>auto simp: reports_ok_def\<close>)

end
