(* ===== verification/IncludeLines.thy ===== *)
theory IncludeLines
  imports Includes Reporting
begin

text \<open>
  The lines with \<open>#include\<close> in \<open>build_support/cpplint.py\<close>: \<open>_DropCommonSuffixes\<close>,
  \<open>_ClassifyInclude\<close> and \<open>CheckIncludeLine\<close>, which moves the state of \<open>Includes\<close>.
\<close>

section \<open>What kind of header an include is\<close>

definition test_suffixes :: "string list" where
  "test_suffixes = [''_test'', ''_regtest'', ''_unittest'']"

text \<open>The suffixes in the order in which they are tried.\<close>

definition common_suffixes :: "lint_globals \<Rightarrow> string list" where
  "common_suffixes g =
     [dropWhile (\<lambda>c. c = CHR ''_'') test_suffix @ ''.'' @ ext.
        test_suffix \<leftarrow> test_suffixes, ext \<leftarrow> GetNonHeaderExtensions g] @
     [sfx @ ''.'' @ ext.
        sfx \<leftarrow> [''inl'', ''imp'', ''internal''], ext \<leftarrow> GetHeaderExtensions g]"

definition has_common_suffix :: "string \<Rightarrow> string \<Rightarrow> bool" where
  "has_common_suffix filename sfx \<longleftrightarrow>
     endswith filename sfx \<and> length filename > length sfx \<and>
     filename ! (length filename - length sfx - 1) \<in> set ''-_''"

definition DropCommonSuffixes :: "lint_globals \<Rightarrow> string \<Rightarrow> string" where
  "DropCommonSuffixes g filename =
     (case find (has_common_suffix filename) (common_suffixes g) of
        Some sfx \<Rightarrow> take (length filename - length sfx - 1) filename
      | None \<Rightarrow> fst (os_splitext filename))"

text \<open>
  \<open>^[^-_.]+\<close>
\<close>

definition first_component_re :: re where
  "first_component_re = Seq Bol (Plus (NoneOf ''-_.''))"

definition ClassifyInclude ::
  "lint_globals \<Rightarrow> os_env \<Rightarrow> string \<Rightarrow> string \<Rightarrow> bool \<Rightarrow> py_error + header_type" where
  "ClassifyInclude g env filename include is_system =
     (if is_system \<and> snd (os_splitext include) \<notin> set [''.hpp'', ''.hxx'', ''.h++'']
      then Inr (if include \<in> set cpp_headers then CPP_SYS_HEADER else C_SYS_HEADER)
      else bind_result (returned (RepositoryName env (repository_flag g) filename)) (\<lambda>name.
        case (os_split (DropCommonSuffixes g name), os_split (DropCommonSuffixes g include)) of
          ((target_dir, target_base), (include_dir, include_base)) \<Rightarrow>
            let target_dir_pub =
                  str_replace (os_normpath (target_dir @ [slash] @ ''..'' @ [slash] @ ''public'')) [bs] [slash]
            in Inr
              (if target_base = include_base \<and> (include_dir = target_dir \<or> include_dir = target_dir_pub)
               then LIKELY_MY_HEADER
               else case (Match first_component_re target_base, Match first_component_re include_base) of
                   (Some target_first_component, Some include_first_component) \<Rightarrow>
                     if grp target_first_component 0 = grp include_first_component 0
                     then POSSIBLE_MY_HEADER else OTHER_HEADER
                 | _ \<Rightarrow> OTHER_HEADER)))"

section \<open>\<open>CheckIncludeLine\<close>\<close>

text \<open>
  \<open>#include\s*"([^/]+\.h)"\<close>
\<close>

definition quoted_include_re :: re where
  "quoted_include_re = Seqs [Lit ''#include'', Star Space, Ch dq,
     Grp 1 (Seq (Plus (NoneOf ''/'')) (Lit ''.h'')), Ch dq]"

definition subdir_reports :: "string \<Rightarrow> nat \<Rightarrow> string \<Rightarrow> report list" where
  "subdir_reports filename linenum line =
     (case Match quoted_include_re line of
        None \<Rightarrow> []
      | Some m \<Rightarrow>
          if \<not> matches third_party_headers_re (grp m 1)
          then [mk_report filename (int linenum) ''build/include_subdir'' 4
                 ''Include the directory when naming .h files'']
          else [])"

text \<open>The extension of an included source file of another package.\<close>

definition foreign_source ::
  "lint_globals \<Rightarrow> os_env \<Rightarrow> string \<Rightarrow> string \<Rightarrow> py_error + string option" where
  "foreign_source g env filename include =
     (case find (\<lambda>extension. endswith include (''.'' @ extension)) (GetNonHeaderExtensions g) of
        None \<Rightarrow> Inr None
      | Some extension \<Rightarrow>
          bind_result (returned (RepositoryName env (repository_flag g) filename)) (\<lambda>name. Inr
            (if os_dirname name \<noteq> os_dirname include then Some extension else None)))"

text \<open>Whether the include is a header of this file, for one of the header extensions.\<close>

fun third_src_header :: "lint_globals \<Rightarrow> os_env \<Rightarrow> string \<Rightarrow> string \<Rightarrow> string list \<Rightarrow> py_error + bool" where
  "third_src_header g env filename include [] = Inr False"
| "third_src_header g env filename include (ext # exts) =
     bind_result (returned (Extension env (repository_flag g) filename)) (\<lambda>extension.
     let basefilename = str_upto filename (int (length filename) - int (length extension));
         headerfile = basefilename @ ''.'' @ ext
     in bind_result (returned (RepositoryName env (repository_flag g) headerfile)) (\<lambda>headername.
       if str_find include headername \<noteq> None \<or> str_find headername include \<noteq> None then Inr True
       else third_src_header g env filename include exts))"

definition add_include :: "string \<Rightarrow> nat \<Rightarrow> include_state \<Rightarrow> include_state" where
  "add_include include linenum s =
     s\<lparr>include_list := butlast (include_list s) @ [last (include_list s) @ [(include, int linenum)]]\<rparr>"

text \<open>The include is recorded, and its place among the includes is checked.\<close>

definition place_include ::
  "lint_globals \<Rightarrow> os_env \<Rightarrow> string \<Rightarrow> string list \<Rightarrow> nat \<Rightarrow> string \<Rightarrow> bool \<Rightarrow> include_state \<Rightarrow>
   py_error + include_state \<times> report list" where
  "place_include g env filename elided_lines linenum include is_system s =
     bind_result (ClassifyInclude g env filename include is_system) (\<lambda>header_type.
     case CheckNextIncludeOrder header_type (add_include include linenum s) of
       (error_message, s') \<Rightarrow>
         bind_result (if error_message = [] then Inr []
                      else returned (BaseName env (repository_flag g) filename)) (\<lambda>base.
         let canonical_include = CanonicalizeAlphabeticalOrder include in Inr
           (SetLastHeader canonical_include s',
            (if error_message \<noteq> []
             then [mk_report filename (int linenum) ''build/include_order'' 4
               (error_message @ ''. Should be: '' @ base @ ''.h, c system, c++ system, other.'')]
             else []) @
            (if \<not> IsInAlphabeticalOrder s' elided_lines linenum canonical_include
             then [mk_report filename (int linenum) ''build/include_alpha'' 4
               (''Include '' @ [dq] @ include @ [dq] @ '' not in alphabetical order'')]
             else []))))"

text \<open>The include of a line; a line that includes a file again is only reported.\<close>

definition new_include ::
  "lint_globals \<Rightarrow> os_env \<Rightarrow> string \<Rightarrow> string list \<Rightarrow> nat \<Rightarrow> string \<Rightarrow> bool \<Rightarrow> include_state \<Rightarrow>
   py_error + include_state \<times> report list" where
  "new_include g env filename elided_lines linenum include is_system s =
     (let duplicate_line = FindHeader s include in
      if duplicate_line \<ge> 0
      then Inr (s, [mk_report filename (int linenum) ''build/include'' 4
        ([dq] @ include @ [dq] @ '' already included at '' @ filename @ '':'' @ int_str duplicate_line)])
      else bind_result (foreign_source g env filename include) (\<lambda>foreign.
        case foreign of
          Some extension \<Rightarrow> Inr (s, [mk_report filename (int linenum) ''build/include'' 4
            (''Do not include .'' @ extension @ '' files from other packages'')])
        | None \<Rightarrow>
            bind_result (third_src_header g env filename include (GetHeaderExtensions g)) (\<lambda>third_src.
            if third_src \<or> \<not> matches third_party_headers_re include
            then place_include g env filename elided_lines linenum include is_system s
            else Inr (s, []))))"

definition CheckIncludeLine ::
  "lint_globals \<Rightarrow> os_env \<Rightarrow> string \<Rightarrow> cleansed_lines \<Rightarrow> nat \<Rightarrow> include_state \<Rightarrow> include_state \<times> outcome" where
  "CheckIncludeLine g env filename clean_lines linenum include_state =
     (let line = cl_lines clean_lines ! linenum;
          subdir = subdir_reports filename linenum line
      in case Search include_re line of
          None \<Rightarrow> (include_state, reporting subdir)
        | Some m \<Rightarrow>
            (case new_include g env filename (elided clean_lines) linenum (grp m 2)
                    (grp m 1 = ''<'') include_state of
               Inl e \<Rightarrow> (include_state, (subdir, Some e))
             | Inr (include_state', rs) \<Rightarrow> (include_state', reporting (subdir @ rs))))"

section \<open>The check keeps its promise\<close>

lemma subdir_reports_ok: "linenum < n \<Longrightarrow> reports_ok f n (subdir_reports f linenum line)"
  unfolding subdir_reports_def by (intro outcome_intros) auto

lemma ClassifyInclude_error: "ClassifyInclude g env f inc sys = Inl e \<Longrightarrow> e = NoReturn"
  by (auto simp: ClassifyInclude_def Let_def bind_result_Inl case_prod_beta split: if_splits)

lemma foreign_source_error: "foreign_source g env f inc = Inl e \<Longrightarrow> e = NoReturn"
  by (auto simp: foreign_source_def bind_result_Inl split: option.splits)

lemma third_src_header_error: "third_src_header g env f inc exts = Inl e \<Longrightarrow> e = NoReturn"
  by (induction exts) (auto simp: bind_result_Inl Let_def split: if_splits)

lemma place_include_cases:
  assumes "linenum < n"
  shows "case place_include g env f el linenum inc sys s of
      Inl e \<Rightarrow> e = NoReturn | Inr (s', rs) \<Rightarrow> reports_ok f n rs"
  using assms ClassifyInclude_error [of g env f inc sys]
  by (auto simp: place_include_def bind_result_def returned_def Let_def reports_ok_def
      intro!: report_ok_mk split: sum.splits prod.splits option.splits if_splits)

lemma new_include_cases:
  assumes "linenum < n"
  shows "case new_include g env f el linenum inc sys s of
      Inl e \<Rightarrow> e = NoReturn | Inr (s', rs) \<Rightarrow> reports_ok f n rs"
proof -
  note place = place_include_cases [OF assms, of f g env el inc sys s]
  show ?thesis using assms place foreign_source_error [of g env f inc]
      third_src_header_error [of g env f inc "GetHeaderExtensions g"]
    by (auto simp: new_include_def bind_result_def Let_def intro!: outcome_intros
        split: sum.splits option.splits if_splits)
qed

lemma CheckIncludeLine_ok:
  assumes "linenum < NumLines c"
  shows "outcome_may {NoReturn} f (NumLines c) (snd (CheckIncludeLine g env f c linenum s))"
proof (cases "Search include_re (cl_lines c ! linenum)")
  case None
  then show ?thesis
    by (auto simp: CheckIncludeLine_def intro!: outcome_intros subdir_reports_ok [OF assms])
next
  case (Some m)
  let ?new = "new_include g env f (elided c) linenum (grp m 2) (grp m 1 = ''<'') s"
  from new_include_cases [OF assms, of f g env "elided c" "grp m 2" "grp m 1 = ''<''" s] show ?thesis
    using Some subdir_reports_ok [OF assms, of f]
    by (cases ?new) (auto simp: CheckIncludeLine_def outcome_may_def reporting_def reports_ok_append)
qed

section \<open>The includes that are recorded\<close>

text \<open>The includes recorded before a line: there is an innermost list, no file is recorded twice, and
  the lines are those of the file before the line.\<close>

definition includes_ok :: "nat \<Rightarrow> include_state \<Rightarrow> bool" where
  "includes_ok linenum s \<longleftrightarrow> include_list s \<noteq> [] \<and> distinct (map fst (concat (include_list s))) \<and>
     (\<forall>(h, l)\<in>set (concat (include_list s)). 0 \<le> l \<and> l < int linenum)"

lemma includes_ok_mono: "includes_ok l s \<Longrightarrow> l \<le> l' \<Longrightarrow> includes_ok l' s"
  by (fastforce simp: includes_ok_def)

lemma includes_ok_cong: "include_list s' = include_list s \<Longrightarrow> includes_ok l s' \<longleftrightarrow> includes_ok l s"
  by (simp add: includes_ok_def)

lemma find_header_absent:
  assumes "includes_ok l s" and "FindHeader s h < 0"
  shows "h \<notin> fst ` set (concat (include_list s))"
proof (cases "find (\<lambda>f. fst f = h) (concat (include_list s))")
  case None
  then show ?thesis by (auto simp: find_None_iff)
next
  case (Some f)
  then have "f \<in> set (concat (include_list s))" by (rule find_in_set)
  with assms(1) have "0 \<le> snd f" unfolding includes_ok_def by fastforce
  with Some assms(2) show ?thesis by (simp add: FindHeader_def)
qed

lemma add_include_ok:
  assumes "includes_ok n s" and "FindHeader s h < 0" and "l < n"
  shows "includes_ok n (add_include h l s)"
proof -
  obtain front b where b: "include_list s = front @ [b]"
    using assms(1) by (cases "include_list s" rule: rev_cases) (auto simp: includes_ok_def)
  from find_header_absent [OF assms(1,2)] assms(1,3) b show ?thesis
    by (auto simp: includes_ok_def add_include_def)
qed

lemma CheckNextIncludeOrder_list: "include_list (snd (CheckNextIncludeOrder t s)) = include_list s"
  by (cases t) (simp_all add: CheckNextIncludeOrder_def Let_def)

lemma place_include_list:
  assumes "place_include g env f el l h sys s = Inr (s', rs)"
  shows "include_list s' = include_list (add_include h l s)"
proof -
  from assms obtain t where t: "ClassifyInclude g env f h sys = Inr t"
    by (cases "ClassifyInclude g env f h sys") (auto simp: place_include_def)
  obtain m s1 where s1: "CheckNextIncludeOrder t (add_include h l s) = (m, s1)" by fastforce
  let ?base = "if m = [] then Inr [] else returned (BaseName env (repository_flag g) f)"
  from assms t s1 obtain b where "?base = Inr b"
    by (cases ?base) (auto simp: place_include_def)
  with assms t s1 have "s' = SetLastHeader (CanonicalizeAlphabeticalOrder h) s1"
    by (simp add: place_include_def Let_def)
  then show ?thesis
    using CheckNextIncludeOrder_list [of t "add_include h l s"] s1 by (simp add: SetLastHeader_def)
qed

lemma new_include_list:
  assumes "includes_ok n s" and "l < n" and "new_include g env f el l h sys s = Inr (s', rs)"
  shows "includes_ok n s'"
proof -
  have "s' = s \<or> FindHeader s h < 0 \<and> place_include g env f el l h sys s = Inr (s', rs)"
    using assms(3) by (cases "foreign_source g env f h";
        cases "third_src_header g env f h (GetHeaderExtensions g)")
      (simp_all add: new_include_def Let_def not_le split: option.split_asm if_split_asm)
  then consider "s' = s" | "FindHeader s h < 0" "include_list s' = include_list (add_include h l s)"
    using place_include_list by blast
  then show ?thesis
  proof cases
    case 2
    from add_include_ok [OF assms(1) 2(1) assms(2)] includes_ok_cong [OF 2(2)] show ?thesis by blast
  qed (use assms(1) in simp)
qed

lemma ResetSection_list:
  "includes_ok l s \<Longrightarrow> includes_ok l (ResetSection d s)"
  by (cases "include_list s" rule: rev_cases) (simp_all add: includes_ok_def ResetSection_def Let_def ball_Un)

lemma CheckIncludeLine_list:
  assumes "includes_ok n s" and "linenum < n"
  shows "includes_ok n (fst (CheckIncludeLine g env f c linenum s))"
  using assms(1) new_include_list [OF assms]
  by (simp add: CheckIncludeLine_def Let_def split: option.split sum.split prod.split)

text \<open>C21: \<open>CheckIncludeLine\<close> keeps the record of the includes: no file is recorded twice, every
  recorded line is one before the next line, and there is always a list for the innermost
  conditional; \<open>ResetSection\<close> keeps it too.\<close>

theorem includes_recorded_once:
  assumes "includes_ok linenum s"
  shows "includes_ok (Suc linenum) (fst (CheckIncludeLine g env f c linenum s)) \<and>
    includes_ok linenum (ResetSection directive s)"
  using CheckIncludeLine_list [OF includes_ok_mono [OF assms, of "Suc linenum"], of linenum]
    ResetSection_list [OF assms] by simp

lemma includes_recorded_once_witness:
  "includes_ok 0 init_include_state \<and>
   includes_ok 1 (fst (CheckIncludeLine init_globals sample_env ''/a.cc'' 
     \<lparr>elided = [''#include <map>''], cl_lines = [''#include <map>''], raw_lines = [''#include <map>''],
      num_lines = 1, lines_without_raw_strings = [''#include <map>'']\<rparr> 0 init_include_state))"
proof -
  have "includes_ok 0 init_include_state"
    by (simp add: includes_ok_def init_include_state_def ResetSection_def)
  from this includes_recorded_once [OF this] show ?thesis by simp
qed

end
