(* ===== verification/Casts.thy ===== *)
theory Casts
  imports Reporting
begin

text \<open>
  Checks of \<open>build_support/cpplint.py\<close> on expressions: \<open>CheckCasts\<close> with \<open>CheckCStyleCast\<close> and
  \<open>ExpectingFunctionArgs\<close>, \<open>CheckGlobalStatic\<close> and \<open>CheckPrintf\<close>.
\<close>

section \<open>Static objects and \<open>printf\<close>\<close>

text \<open>
  \<open>[;({]\<close>,
  \<open>((?:|static +)(?:|const +))(?::*std::)?string( +const)? +([a-zA-Z0-9_:]+)\b(.*)\<close>,
  \<open>\bstring\b(\s+const)?\s*[\*\&]\s*(const\s+)?\w\<close>,
  \<open>\boperator\W\<close>,
  \<open>\s*(<.*>)?(::[a-zA-Z0-9_]+)*\s*\(([^"]|$)\<close>,
  \<open>\bconst\b\<close>,
  \<open>\b([A-Za-z0-9_]*_)\(\1\)\<close>,
  \<open>\b([A-Za-z0-9_]*_)\(CHECK_NOTNULL\(\1\)\)\<close>
\<close>

definition statement_re :: re where
  "statement_re = OneOf '';({''"

definition static_string_re :: re where
  "static_string_re = Seqs [Grp 1 (Seq (Alt Eps (Seq (Lit ''static'') (Plus (Ch CHR '' '')))) (Alt Eps (Seq
     (Lit ''const'') (Plus (Ch CHR '' ''))))), Opt (Seq (Star (Ch CHR '':'')) (Lit ''std::'')),
     Lit ''string'', Opt (Grp 2 (Seq (Plus (Ch CHR '' '')) (Lit ''const''))), Plus (Ch CHR '' ''),
     Grp 3 (Plus (Cls (\<lambda>c. is_lower_ascii c \<or> is_upper_ascii c \<or> is_digit c \<or> c
     \<in> set ''_:''))), Wb, Grp 4 (Star Any)]"

definition string_pointer_re :: re where
  "string_pointer_re = Seqs [Wb, Lit ''string'', Wb, Opt (Grp 1 (Seq (Plus Space) (Lit ''const''))),
     Star Space, OneOf ''*&'', Star Space, Opt (Grp 2 (Seq (Lit ''const'') (Plus Space))), Word]"

definition operator_name_re :: re where
  "operator_name_re = Seqs [Wb, Lit ''operator'', NonWord]"

definition function_or_template_re :: re where
  "function_or_template_re = Seqs [Star Space, Opt (Grp 1 (Seqs [Ch CHR ''<'', Star Any, Ch CHR ''>''])),
     Star (Grp 2 (Seq (Lit ''::'') (Plus (Cls (\<lambda>c. is_lower_ascii c \<or> is_upper_ascii c \<or>
     is_digit c \<or> c = CHR ''_''))))), Star Space, Ch CHR ''('', Grp 3 (Alt (NoneOf [dq]) Eol)]"

definition const_word_re :: re where
  "const_word_re = Seqs [Wb, Lit ''const'', Wb]"

definition self_init_re :: re where
  "self_init_re = Seqs [Wb,
     Grp 1 (Seq (Star (Cls (\<lambda>c. is_upper_ascii c \<or> is_lower_ascii c \<or> is_digit c \<or> c
     = CHR ''_''))) (Ch CHR ''_'')), Ch CHR ''('', Back 1, Ch CHR '')'']"

definition self_init_notnull_re :: re where
  "self_init_notnull_re = Seqs [Wb,
     Grp 1 (Seq (Star (Cls (\<lambda>c. is_upper_ascii c \<or> is_lower_ascii c \<or> is_digit c \<or> c
     = CHR ''_''))) (Ch CHR ''_'')), Lit ''(CHECK_NOTNULL('', Back 1, Lit ''))'']"

text \<open>Two lines at a time, where the first has no statement on it.\<close>

definition declaration_line :: "cleansed_lines \<Rightarrow> nat \<Rightarrow> string" where
  "declaration_line clean_lines linenum =
     (let line = elided clean_lines ! linenum in
      if linenum + 1 < NumLines clean_lines \<and> \<not> found statement_re line
      then line @ strip (elided clean_lines ! (linenum + 1)) else line)"

definition CheckGlobalStatic :: "string \<Rightarrow> cleansed_lines \<Rightarrow> nat \<Rightarrow> report list" where
  "CheckGlobalStatic filename clean_lines linenum =
     (let line = declaration_line clean_lines linenum in
      (case Match static_string_re line of
         None \<Rightarrow> []
       | Some m \<Rightarrow>
           if \<not> found string_pointer_re line \<and> \<not> found operator_name_re line \<and>
              \<not> matches function_or_template_re (grp m 4)
           then if found const_word_re line
             then [mk_report filename (int linenum) ''runtime/string'' 4
               (''For a static/global string constant, use a C style string instead: '' @ [dq] @ grp m 1 @
                ''char'' @ grp m 2 @ '' '' @ grp m 3 @ ''[]'' @ [dq] @ ''.'')]
             else [mk_report filename (int linenum) ''runtime/string'' 4
               ''Static/global string variables are not permitted.'']
           else []) @
      (if found self_init_re line \<or> found self_init_notnull_re line
       then [mk_report filename (int linenum) ''runtime/init'' 4
         ''You seem to be initializing a member variable with itself.'']
       else []))"

text \<open>
  \<open>snprintf\s*\(([^,]*),\s*([0-9]*)\s*,\<close>,
  \<open>\bsprintf\s*\(\<close>,
  \<open>\b(strcpy|strcat)\s*\(\<close>
\<close>

definition snprintf_re :: re where
  "snprintf_re = Seqs [Lit ''snprintf'', Star Space, Ch CHR ''('', Grp 1 (Star (NoneOf '','')),
     Ch CHR '','', Star Space, Grp 2 (Star Digit), Star Space, Ch CHR '','']"

definition sprintf_re :: re where
  "sprintf_re = Seqs [Wb, Lit ''sprintf'', Star Space, Ch CHR ''('']"

definition strcpy_re :: re where
  "strcpy_re = Seqs [Wb, Grp 1 (Seq (Lit ''strc'') (Alt (Lit ''py'') (Lit ''at''))), Star Space,
     Ch CHR ''('']"

definition CheckPrintf :: "string \<Rightarrow> cleansed_lines \<Rightarrow> nat \<Rightarrow> report list" where
  "CheckPrintf filename clean_lines linenum =
     (let line = elided clean_lines ! linenum in
      (case Search snprintf_re line of
         None \<Rightarrow> []
       | Some m \<Rightarrow> if grp m 2 \<noteq> ''0''
           then [mk_report filename (int linenum) ''runtime/printf'' 3
             (''If you can, use sizeof('' @ grp m 1 @ '') instead of '' @ grp m 2 @
              '' as the 2nd arg to snprintf.'')]
           else []) @
      (if found sprintf_re line
       then [mk_report filename (int linenum) ''runtime/printf'' 5
         ''Never use sprintf. Use snprintf instead.'']
       else []) @
      (case Search strcpy_re line of
         None \<Rightarrow> []
       | Some m \<Rightarrow> [mk_report filename (int linenum) ''runtime/printf'' 4
           (''Almost always, snprintf is better than '' @ grp m 1)]))"

section \<open>Casts in the style of C\<close>

text \<open>
  \<open>.*\b(?:sizeof|alignof|alignas|[_A-Z][_A-Z0-9]*)\s*$\<close>,
  \<open>.*\b[_A-Z][_A-Z0-9]*\s*\((?:\([^()]*\)|[^()])*$\<close>,
  \<open>^\s*(?:;|const\b|throw\b|final\b|override\b|[=>{),]|->)\<close>
\<close>

definition sizeof_context_re :: re where
  "sizeof_context_re = Seqs [Star Any, Wb, Alts [Lit ''sizeof'', Lit ''alignof'', Lit ''alignas'',
     Seq (Cls (\<lambda>c. is_upper_ascii c \<or> c = CHR ''_'')) (Star (Cls (\<lambda>c. is_upper_ascii
     c \<or> is_digit c \<or> c = CHR ''_'')))], Star Space, Eol]"

definition macro_context_re :: re where
  "macro_context_re = Seqs [Star Any, Wb, Cls (\<lambda>c. is_upper_ascii c \<or> c = CHR ''_''),
     Star (Cls (\<lambda>c. is_upper_ascii c \<or> is_digit c \<or> c = CHR ''_'')), Star Space,
     Ch CHR ''('', Star (Alt (Seqs [Ch CHR ''('', Star (NoneOf ''()''), Ch CHR '')'']) (NoneOf ''()'')),
     Eol]"

definition unnamed_argument_re :: re where
  "unnamed_argument_re = Seqs [Bol, Star Space, Alts [Ch CHR '';'', Seq (Lit ''const'') Wb,
     Seq (Lit ''throw'') Wb, Seq (Lit ''final'') Wb, Seq (Lit ''override'') Wb, OneOf ''=>{),'',
     Lit ''->'']]"

text \<open>\<open>m.start(k)\<close> of a group that took part in the match.\<close>

definition grp_start :: "pymatch \<Rightarrow> nat \<Rightarrow> nat" where
  "grp_start m k = (case map_of (m_caps m) k of Some (i, _) \<Rightarrow> i | None \<Rightarrow> 0)"

text \<open>The group of every pattern follows a parenthesis: \<open>match.start(1) - 1\<close> is not negative.\<close>

definition CheckCStyleCast ::
  "string \<Rightarrow> cleansed_lines \<Rightarrow> nat \<Rightarrow> string \<Rightarrow> re \<Rightarrow> bool \<times> report list" where
  "CheckCStyleCast filename clean_lines linenum cast_type pattern =
     (let line = elided clean_lines ! linenum in
      case Search pattern line of
        None \<Rightarrow> (False, [])
      | Some m \<Rightarrow>
          let context = take (grp_start m 1 - 1) line;
              preceding = concat (map ((!) (elided clean_lines)) [Suc (linenum - 5)..<linenum]);
              context' = preceding @ context;
              remainder = drop (m_end m) line
          in if matches sizeof_context_re context \<or> matches macro_context_re context' \<or>
               endswith context' '' operator++'' \<or> endswith context' '' operator--'' \<or>
               matches unnamed_argument_re remainder
             then (False, [])
             else (True, [mk_report filename (int linenum) ''readability/casting'' 4
               (''Using C-style cast.  Use '' @ cast_type @ ''<'' @ grp m 1 @ ''>(...) instead'')]))"

text \<open>
  \<open>^\s*MOCK_(CONST_)?METHOD\d+(_T)?\(\<close>,
  \<open>^\s*MOCK_(?:CONST_)?METHOD\d+(?:_T)?\((?:\S+,)?\s*$\<close>,
  \<open>^\s*MOCK_(?:CONST_)?METHOD\d+(?:_T)?\(\s*$\<close>,
  \<open>\bstd::m?function\s*<\s*$\<close>
\<close>

definition mock_method_re :: re where
  "mock_method_re = Seqs [Bol, Star Space, Lit ''MOCK_'', Opt (Grp 1 (Lit ''CONST_'')), Lit ''METHOD'',
     Plus Digit, Opt (Grp 2 (Lit ''_T'')), Ch CHR ''('']"

definition mock_first_arg_re :: re where
  "mock_first_arg_re = Seqs [Bol, Star Space, Lit ''MOCK_'', Opt (Lit ''CONST_''), Lit ''METHOD'',
     Plus Digit, Opt (Lit ''_T''), Ch CHR ''('', Opt (Seq (Plus NonSpace) (Ch CHR '','')), Star Space,
     Eol]"

definition mock_open_re :: re where
  "mock_open_re = Seqs [Bol, Star Space, Lit ''MOCK_'', Opt (Lit ''CONST_''), Lit ''METHOD'', Plus Digit,
     Opt (Lit ''_T''), Ch CHR ''('', Star Space, Eol]"

definition std_function_re :: re where
  "std_function_re = Seqs [Wb, Lit ''std::'', Opt (Ch CHR ''m''), Lit ''function'', Star Space,
     Ch CHR ''<'', Star Space, Eol]"

definition ExpectingFunctionArgs :: "cleansed_lines \<Rightarrow> nat \<Rightarrow> bool" where
  "ExpectingFunctionArgs clean_lines linenum \<longleftrightarrow>
     matches mock_method_re (elided clean_lines ! linenum) \<or>
     linenum \<ge> 2 \<and>
       (matches mock_first_arg_re (elided clean_lines ! (linenum - 1)) \<or>
        matches mock_open_re (elided clean_lines ! (linenum - 2)) \<or>
        found std_function_re (elided clean_lines ! (linenum - 1)))"

section \<open>\<open>CheckCasts\<close>\<close>

text \<open>
  \<open>(\bnew\s+(?:const\s+)?|\S<\s*(?:const\s+)?)?\b(int|float|double|bool|char|int32|uint32|int64|uint64)(\([^)].*)\<close>,
  \<open>\([^()]+\)\s*\[\<close>,
  \<open>\((?:[^() ]+::\s*\*\s*)?[^() ]+\)\s*\(\<close>
\<close>

definition conversion_re :: re where
  "conversion_re = Seqs [Opt (Grp 1 (Alt (Seqs [Wb, Lit ''new'', Plus Space,
     Opt (Seq (Lit ''const'') (Plus Space))]) (Seqs [NonSpace, Ch CHR ''<'', Star Space,
     Opt (Seq (Lit ''const'') (Plus Space))]))), Wb, Grp 2 (Alts [Lit ''int'', Lit ''float'',
     Lit ''double'', Lit ''bool'', Lit ''char'', Lit ''int32'', Lit ''uint32'', Lit ''int64'',
     Lit ''uint64'']), Grp 3 (Seqs [Ch CHR ''('', NoneOf '')'', Star Any])]"

definition array_type_re :: re where
  "array_type_re = Seqs [Ch CHR ''('', Plus (NoneOf ''()''), Ch CHR '')'', Star Space, Ch CHR ''['']"

definition function_pointer_re :: re where
  "function_pointer_re = Seqs [Ch CHR ''('', Opt (Seqs [Plus (NoneOf ''() ''), Lit ''::'', Star Space,
     Ch CHR ''*'', Star Space]), Plus (NoneOf ''() ''), Ch CHR '')'', Star Space, Ch CHR ''('']"

text \<open>\<open>\s*using\s+\S+\s*=\s*\<close> and \<open>new\(\S+\)\s*\<close>, each with the matched type\<close>

definition using_type_re :: "string \<Rightarrow> re" where
  "using_type_re matched_type = Seqs [Star Space, Lit ''using'', Plus Space, Plus NonSpace, Star Space,
     Ch CHR ''='', Star Space, Lit matched_type]"

definition placement_new_re :: "string \<Rightarrow> re" where
  "placement_new_re matched_type = Seqs [Lit ''new('', Plus NonSpace, Ch CHR '')'', Star Space,
     Lit matched_type]"

text \<open>The check of function-like casts: \<open>None\<close> where it makes \<open>CheckCasts\<close> return.\<close>

definition conversion_cast :: "string \<Rightarrow> nat \<Rightarrow> string \<Rightarrow> report list option" where
  "conversion_cast filename linenum line =
     (case Search conversion_re line of
        None \<Rightarrow> Some []
      | Some m \<Rightarrow>
          let matched_type = grp m 2; matched_funcptr = grp m 3 in
          if matches array_type_re matched_funcptr then None
          else if group m 1 = None \<and>
              \<not> (matched_funcptr \<noteq> [] \<and>
                 (matches function_pointer_re matched_funcptr \<or> startswith matched_funcptr ''(*)'')) \<and>
              \<not> matches (using_type_re matched_type) line \<and>
              \<not> found (placement_new_re matched_type) line
          then Some [mk_report filename (int linenum) ''readability/casting'' 4
            (''Using deprecated casting style.  Use static_cast<'' @ matched_type @ ''>(...) instead'')]
          else Some [])"

text \<open>
  \<open>\((int|float|double|bool|char|u?int(16|32|64))\)\<close>,
  \<open>\((char\s?\*+\s?)\)\s*"\<close>,
  \<open>\((\w+\s?\*+\s?)\)\<close>,
  \<open>(?:[^\w]&\(([^)*][^)]*)\)[\w(])|(?:[^\w]&(static|dynamic|down|reinterpret)_cast\b)\<close>,
  \<open>^(.*&(?:static|dynamic|down|reinterpret)_cast\b)<\<close>,
  \<open>\s*(?:->|\[)\<close>
\<close>

definition static_cast_pattern :: re where
  "static_cast_pattern = Seqs [Ch CHR ''('', Grp 1 (Alts [Lit ''int'', Lit ''float'', Lit ''double'',
     Lit ''bool'', Lit ''char'', Seqs [Opt (Ch CHR ''u''), Lit ''int'', Grp 2 (Alts [Lit ''16'',
     Lit ''32'', Lit ''64''])]]), Ch CHR '')'']"

definition const_cast_pattern :: re where
  "const_cast_pattern = Seqs [Ch CHR ''('', Grp 1 (Seqs [Lit ''char'', Opt Space, Plus (Ch CHR ''*''),
     Opt Space]), Ch CHR '')'', Star Space, Ch dq]"

definition reinterpret_cast_pattern :: re where
  "reinterpret_cast_pattern = Seqs [Ch CHR ''('', Grp 1 (Seqs [Plus Word, Opt Space, Plus (Ch CHR ''*''),
     Opt Space]), Ch CHR '')'']"

definition address_of_cast_re :: re where
  "address_of_cast_re = Seqs [NonWord, Ch CHR ''&'', Alt (Seqs [Ch CHR ''('',
     Grp 1 (Seq (NoneOf '')*'') (Star (NoneOf '')''))), Ch CHR '')'',
     Cls (\<lambda>c. is_word c \<or> c = CHR ''('')]) (Seqs [Grp 2 (Alts [Lit ''static'',
     Lit ''dynamic'', Lit ''down'', Lit ''reinterpret'']), Lit ''_cast'', Wb])]"

definition named_cast_re :: re where
  "named_cast_re = Seqs [Bol, Grp 1 (Seqs [Star Any, Ch CHR ''&'', Alts [Lit ''static'', Lit ''dynamic'',
     Lit ''down'', Lit ''reinterpret''], Lit ''_cast'', Wb]), Ch CHR ''<'']"

definition dereferenced_re :: re where
  "dereferenced_re = Seq (Star Space) (Alt (Lit ''->'') (Ch CHR ''[''))"

text \<open>
  Whether the \<open>&\<close> is bound to something dereferenced from the cast.  The character at the end of
  the template argument is read without asking whether the line goes on.
\<close>

definition parenthesis_error :: "cleansed_lines \<Rightarrow> nat \<Rightarrow> py_error + bool" where
  "parenthesis_error clean_lines linenum =
     (case Match named_cast_re (elided clean_lines ! linenum) of
        None \<Rightarrow> Inr False
      | Some m \<Rightarrow>
          (case CloseExpression clean_lines linenum (length (grp m 1)) of
             Inl e \<Rightarrow> Inl e
           | Inr (_, y1, x1) \<Rightarrow>
               if x1 < 0 then Inr False
               else if length (elided clean_lines ! y1) \<le> nat x1 then Inl IndexError
               else if elided clean_lines ! y1 ! nat x1 \<noteq> CHR ''('' then Inr False
               else (case CloseExpression clean_lines y1 (nat x1) of
                   Inl e \<Rightarrow> Inl e
                 | Inr (_, y2, x2) \<Rightarrow>
                     if x2 < 0 then Inr False
                     else Inr (matches dereferenced_re (drop (nat x2) (elided clean_lines ! y2) @
                       (if y2 < NumLines clean_lines - 1 then elided clean_lines ! (y2 + 1) else []))))))"

definition address_of_cast :: "string \<Rightarrow> cleansed_lines \<Rightarrow> nat \<Rightarrow> outcome" where
  "address_of_cast filename clean_lines linenum =
     (if \<not> found address_of_cast_re (elided clean_lines ! linenum) then reporting []
      else attempt (parenthesis_error clean_lines linenum) (\<lambda>wrong. reporting
        (if wrong
         then [mk_report filename (int linenum) ''readability/casting'' 4
           (''Are you taking an address of something dereferenced '' @
            ''from a cast?  Wrapping the dereferenced expression in '' @
            ''parentheses will make the binding more obvious'')]
         else [mk_report filename (int linenum) ''runtime/casting'' 4
           (''Are you taking an address of a cast?  This is dangerous: could be a temp var.  '' @
            ''Take the address before doing the cast, rather than after'')])))"

definition CheckCasts :: "string \<Rightarrow> cleansed_lines \<Rightarrow> nat \<Rightarrow> outcome" where
  "CheckCasts filename clean_lines linenum =
     (let expecting_function = ExpectingFunctionArgs clean_lines linenum;
          c_style = CheckCStyleCast filename clean_lines linenum
      in case (if expecting_function then Some []
               else conversion_cast filename linenum (elided clean_lines ! linenum)) of
          None \<Rightarrow> reporting []
        | Some rs \<Rightarrow>
            followed_by
              (reporting (rs @
                (if expecting_function then [] else snd (c_style ''static_cast'' static_cast_pattern)) @
                (case c_style ''const_cast'' const_cast_pattern of (emitted, rs') \<Rightarrow>
                   rs' @ (if emitted then []
                          else snd (c_style ''reinterpret_cast'' reinterpret_cast_pattern)))))
              (address_of_cast filename clean_lines linenum))"

section \<open>The checks keep their promise\<close>

lemma CheckGlobalStatic_ok:
  "linenum < NumLines c \<Longrightarrow> reports_ok f (NumLines c) (CheckGlobalStatic f c linenum)"
  unfolding CheckGlobalStatic_def Let_def by (intro outcome_intros) auto

lemma CheckPrintf_ok:
  "linenum < NumLines c \<Longrightarrow> reports_ok f (NumLines c) (CheckPrintf f c linenum)"
  unfolding CheckPrintf_def Let_def by (intro outcome_intros) auto

lemma CheckCStyleCast_ok:
  "linenum < NumLines c \<Longrightarrow> reports_ok f (NumLines c) (snd (CheckCStyleCast f c linenum t p))"
  unfolding CheckCStyleCast_def Let_def by (auto intro!: outcome_intros split: option.split)

lemma CheckCStyleCast_reports:
  "\<lbrakk>CheckCStyleCast f c linenum t p = (b, rs); linenum < NumLines c\<rbrakk> \<Longrightarrow> reports_ok f (NumLines c) rs"
  using CheckCStyleCast_ok [of linenum c f t p] by simp

lemma conversion_cast_ok:
  "\<lbrakk>conversion_cast f linenum line = Some rs; linenum < n\<rbrakk> \<Longrightarrow> reports_ok f n rs"
  unfolding conversion_cast_def Let_def
  by (auto intro!: outcome_intros split: option.split_asm if_split_asm)

text \<open>\<open>CheckCasts\<close> raises nothing but the \<open>IndexError\<close> of \<open>parenthesis_error\<close>.\<close>

lemma parenthesis_error_IndexError: "parenthesis_error c linenum = Inl e \<Longrightarrow> e = IndexError"
  by (auto simp: parenthesis_error_def CloseExpression_def split: option.splits sum.splits if_splits)

lemma CheckCasts_ok:
  assumes "linenum < NumLines c"
  shows "outcome_may {IndexError} f (NumLines c) (CheckCasts f c linenum)"
proof -
  have "outcome_may {IndexError} f (NumLines c) (address_of_cast f c linenum)"
    using assms unfolding address_of_cast_def
    by (auto intro!: outcome_intros dest: parenthesis_error_IndexError)
  then show ?thesis using assms unfolding CheckCasts_def Let_def
    by (auto intro!: outcome_intros CheckCStyleCast_ok 
        dest: conversion_cast_ok CheckCStyleCast_reports split: option.split)
qed

end
