(* ===== verification/Language.thy ===== *)
theory Language
  imports IncludeLines Casts
begin

text \<open>
  \<open>CheckLanguage\<close> of \<open>build_support/cpplint.py\<close> with \<open>_GetTextInside\<close>: the dispatch of a line to the
  checks of includes, casts, statics and \<open>printf\<close>, and the checks of types, operators, formats,
  \<open>memset\<close>, namespaces and arrays.
\<close>

section \<open>\<open>_GetTextInside\<close>\<close>

definition matching_punctuation :: "char \<Rightarrow> char option" where
  "matching_punctuation = map_of [(CHR ''('', CHR '')''), (CHR ''{'', CHR ''}''), (CHR ''['', CHR '']'')]"

text \<open>
  The text up to the character that closes the last punctuation of the stack (the innermost one
  first); \<open>None\<close> where a closing character does not match or the text ends.
\<close>

fun text_inside :: "string \<Rightarrow> string \<Rightarrow> string option" where
  "text_inside cs [] = Some []"
| "text_inside [] (p # ps) = None"
| "text_inside (c # cs) (p # ps) =
     (if c = p then if ps = [] then Some [] else map_option ((#) c) (text_inside cs ps)
      else if c \<in> set '')}]'' then None
      else case matching_punctuation c of
          Some q \<Rightarrow> map_option ((#) c) (text_inside cs (q # p # ps))
        | None \<Rightarrow> map_option ((#) c) (text_inside cs (p # ps)))"

definition GetTextInside :: "string \<Rightarrow> re \<Rightarrow> py_error + string option" where
  "GetTextInside line start_pattern =
     (case Search start_pattern line of
        None \<Rightarrow> Inr None
      | Some m \<Rightarrow>
          let start_position = m_end m in
          if start_position = 0 then Inl AssertionError
          else case matching_punctuation (line ! (start_position - 1)) of
              None \<Rightarrow> Inl AssertionError
            | Some punctuation \<Rightarrow> Inr (text_inside (drop start_position line) [punctuation]))"

section \<open>The checks of a line\<close>

text \<open>
  \<open>\bshort port\b\<close>,
  \<open>\bunsigned short port\b\<close>,
  \<open>\b(short|long(?! +double)|long long)\b\<close>,
  \<open>\boperator\s*&\s*\(\s*\)\<close>,
  \<open>\}\s*if\s*\(\<close>
\<close>

definition short_port_re :: re where
  "short_port_re = Seqs [Wb, Lit ''short port'', Wb]"

definition unsigned_short_port_re :: re where
  "unsigned_short_port_re = Seqs [Wb, Lit ''unsigned short port'', Wb]"

definition c_integer_re :: re where
  "c_integer_re = Seqs [Wb, Grp 1 (Alts [Lit ''short'',
     Seq (Lit ''long'') (NLook (Seq (Plus (Ch CHR '' '')) (Lit ''double''))), Lit ''long long'']), Wb]"

definition unary_operator_re :: re where
  "unary_operator_re = Seqs [Wb, Lit ''operator'', Star Space, Ch CHR ''&'', Star Space, Ch CHR ''('',
     Star Space, Ch CHR '')'']"

definition brace_if_re :: re where
  "brace_if_re = Seqs [Ch CHR ''}'', Star Space, Lit ''if'', Star Space, Ch CHR ''('']"

definition integer_reports :: "string \<Rightarrow> nat \<Rightarrow> string \<Rightarrow> report list" where
  "integer_reports filename linenum line =
     (if found short_port_re line
      then if \<not> found unsigned_short_port_re line
        then [mk_report filename (int linenum) ''runtime/int'' 4
               (''Use '' @ [dq] @ ''unsigned short'' @ [dq] @ '' for ports, not '' @ [dq] @ ''short'' @ [dq])]
        else []
      else case Search c_integer_re line of
          None \<Rightarrow> []
        | Some m \<Rightarrow> [mk_report filename (int linenum) ''runtime/int'' 4
            (''Use int16/int64/etc, rather than the C type '' @ grp m 1)]) @
     (if found unary_operator_re line
      then [mk_report filename (int linenum) ''runtime/operator'' 4
             ''Unary operator& is dangerous.  Do not use it.'']
      else []) @
     (if found brace_if_re line
      then [mk_report filename (int linenum) ''readability/braces'' 4
             (''Did you mean '' @ [dq] @ ''else if'' @ [dq] @ ''? If not, start a new line for '' @
              [dq] @ ''if'' @ [dq] @ ''.'')]
      else [])"

text \<open>\<open>(?i)\b(string)?printf\s*\(\<close>, and \<open>\b((?:string)?printf)\s*\(\<close> with \<open>re.I\<close>\<close>

definition printf_call_re :: re where
  "printf_call_re = Seqs [Wb, Opt (Grp 1 (LitI ''string'')), LitI ''printf'', Star Space, Ch CHR ''('']"

definition printf_name_re :: re where
  "printf_name_re =
     Seqs [Wb, Grp 1 (Seq (Opt (LitI ''string'')) (LitI ''printf'')), Star Space, Ch CHR ''('']"

text \<open>
  \<open>([\w.\->()]+)$\<close>
\<close>

definition plain_argument_re :: re where
  "plain_argument_re = Seq (Grp 1 (Plus (Cls (\<lambda>c. is_word c \<or> c \<in> set ''.->()'')))) Eol"

definition format_bug :: "string \<Rightarrow> nat \<Rightarrow> string \<Rightarrow> outcome" where
  "format_bug filename linenum line =
     attempt (GetTextInside line printf_call_re) (\<lambda>printf_args.
       if printf_args = None \<or> printf_args = Some [] then reporting []
       else case Match plain_argument_re (the printf_args) of
           None \<Rightarrow> reporting []
         | Some m \<Rightarrow>
             if grp m 1 = ''__VA_ARGS__'' then reporting []
             else attempt (case Search printf_name_re line of None \<Rightarrow> Inl AttributeError | Some f \<Rightarrow> Inr (grp f 1))
               (\<lambda>function_name. reporting [mk_report filename (int linenum) ''runtime/printf'' 4
                 (''Potential format string bug. Do '' @ function_name @ ''('' @ [dq] @ ''%s'' @ [dq] @ '', '' @
                  grp m 1 @ '') instead.'')]))"

text \<open>
  \<open>memset\s*\(([^,]*),\s*([^,]*),\s*0\s*\)\<close>,
  \<open>^''|-?[0-9]+|0x[0-9A-Fa-f]$\<close>,
  \<open>\busing namespace\b\<close>,
  \<open>\bliterals\b\<close>
\<close>

definition memset_re :: re where
  "memset_re = Seqs [Lit ''memset'', Star Space, Ch CHR ''('', Grp 1 (Star (NoneOf '','')), Ch CHR '','',
     Star Space, Grp 2 (Star (NoneOf '','')), Ch CHR '','', Star Space, Ch CHR ''0'', Star Space,
     Ch CHR '')'']"

definition memset_value_re :: re where
  "memset_value_re = Alts [Seqs [Bol, Ch sq, Ch sq], Seq (Opt (Ch CHR ''-'')) (Plus Digit),
     Seqs [Lit ''0x'', Cls (\<lambda>c. is_digit c \<or> c \<in> set ''ABCDEFabcdef''), Eol]]"

definition using_namespace_re :: re where
  "using_namespace_re = Seqs [Wb, Lit ''using namespace'', Wb]"

definition literals_re :: re where
  "literals_re = Seqs [Wb, Lit ''literals'', Wb]"

definition memset_reports :: "string \<Rightarrow> nat \<Rightarrow> string \<Rightarrow> report list" where
  "memset_reports filename linenum line =
     (case Search memset_re line of
        None \<Rightarrow> []
      | Some m \<Rightarrow>
          if \<not> matches memset_value_re (grp m 2)
          then [mk_report filename (int linenum) ''runtime/memset'' 4
            (''Did you mean '' @ [dq] @ ''memset('' @ grp m 1 @ '', 0, '' @ grp m 2 @ '')'' @ [dq] @ ''?'')]
          else []) @
     (if found using_namespace_re line
      then [mk_report filename (int linenum)
        (if found literals_re line then ''build/namespaces_literals'' else ''build/namespaces'') 5
        (''Do not use namespace using-directives.  '' @ ''Use using-declarations instead.'')]
      else [])"

section \<open>Arrays whose size is not constant\<close>

text \<open>
  \<open>\s*(.+::)?(\w+) [a-z]\w*\[(.+)];\<close>,
  \<open>\s|\+|\-|\*|\/|<<|>>]\<close>,
  \<open>sizeof\(.+\)\<close>,
  \<open>arraysize\(\w+\)\<close>,
  \<open>\d+\<close>,
  \<open>0[xX][0-9a-fA-F]+\<close>,
  \<open>k[A-Z0-9]\w*\<close>,
  \<open>(.+::)?k[A-Z0-9]\w*\<close>,
  \<open>(.+::)?[A-Z][A-Z0-9_]*\<close>
\<close>

definition array_re :: re where
  "array_re = Seqs [Star Space, Opt (Grp 1 (Seq (Plus Any) (Lit ''::''))), Grp 2 (Plus Word), Ch CHR '' '',
     Cls is_lower_ascii, Star Word, Ch CHR ''['', Grp 3 (Plus Any), Lit ''];'']"

definition size_delimiter_re :: re where
  "size_delimiter_re = Alts [Space, Ch CHR ''+'', Ch CHR ''-'', Ch CHR ''*'', Ch CHR ''/'', Lit ''<<'',
     Lit ''>>]'']"

definition sizeof_call_re :: re where
  "sizeof_call_re = Seqs [Lit ''sizeof('', Plus Any, Ch CHR '')'']"

definition arraysize_re :: re where
  "arraysize_re = Seqs [Lit ''arraysize('', Plus Word, Ch CHR '')'']"

definition digits_re :: re where
  "digits_re = Plus Digit"

definition hex_digits_re :: re where
  "hex_digits_re = Seqs [Ch CHR ''0'', OneOf ''xX'',
     Plus (Cls (\<lambda>c. is_digit c \<or> c \<in> set ''abcdefABCDEF''))]"

definition k_constant_re :: re where
  "k_constant_re = Seqs [Ch CHR ''k'', Cls (\<lambda>c. is_upper_ascii c \<or> is_digit c), Star Word]"

definition qualified_k_constant_re :: re where
  "qualified_k_constant_re = Seqs [Opt (Grp 1 (Seq (Plus Any) (Lit ''::''))), Ch CHR ''k'',
     Cls (\<lambda>c. is_upper_ascii c \<or> is_digit c), Star Word]"

definition macro_constant_re :: re where
  "macro_constant_re = Seqs [Opt (Grp 1 (Seq (Plus Any) (Lit ''::''))), Cls is_upper_ascii,
     Star (Cls (\<lambda>c. is_upper_ascii c \<or> is_digit c \<or> c = CHR ''_''))]"

text \<open>The loop over the tokens; the flag is \<open>skip_next\<close>.\<close>

fun constant_tokens :: "bool \<Rightarrow> string list \<Rightarrow> bool" where
  "constant_tokens skip_next [] = True"
| "constant_tokens skip_next (token # tokens) =
     (if skip_next then constant_tokens False tokens
      else if found sizeof_call_re token \<or> found arraysize_re token then constant_tokens False tokens
      else let tok = rev (dropWhile (\<lambda>c. c = CHR '')'')
                 (rev (dropWhile (\<lambda>c. c = CHR ''('') token)))
        in if tok = [] \<or> matches digits_re tok \<or> matches hex_digits_re tok \<or> matches k_constant_re tok \<or>
              matches qualified_k_constant_re tok \<or> matches macro_constant_re tok
           then constant_tokens False tokens
           else if startswith tok ''sizeof'' then constant_tokens True tokens
           else False)"

definition array_reports :: "string \<Rightarrow> nat \<Rightarrow> string \<Rightarrow> report list" where
  "array_reports filename linenum line =
     (case Match array_re line of
        None \<Rightarrow> []
      | Some m \<Rightarrow>
          if grp m 2 \<noteq> ''return'' \<and> grp m 2 \<noteq> ''delete'' \<and> CHR '']'' \<notin> set (grp m 3) \<and>
             \<not> constant_tokens False (re_split size_delimiter_re (grp m 3))
          then [mk_report filename (int linenum) ''runtime/arrays'' 1
            (''Do not use variable-length arrays.  Use an appropriately named '' @
             ''('' @ [sq] @ ''k'' @ [sq] @ '' followed by CamelCase) compile-time constant for the size.'')]
          else [])"

text \<open>
  \<open>\bnamespace\s*{\<close>
\<close>

definition unnamed_namespace_re :: re where
  "unnamed_namespace_re = Seqs [Wb, Lit ''namespace'', Star Space, Ch CHR ''{'']"

definition namespace_reports :: "lint_globals \<Rightarrow> string \<Rightarrow> nat \<Rightarrow> string \<Rightarrow> string \<Rightarrow> report list" where
  "namespace_reports g filename linenum file_extension line =
     (if IsHeaderExtension g file_extension \<and> found unnamed_namespace_re line \<and> last line \<noteq> bs
      then [mk_report filename (int linenum) ''build/namespaces'' 4
        (''Do not use unnamed namespaces in header files.  See '' @
         ''https://google-styleguide.googlecode.com/svn/trunk/cppguide.xml#Namespaces'' @
         '' for more information.'')]
      else [])"

section \<open>\<open>CheckLanguage\<close>\<close>

text \<open>
  \<open>^\s*#\s*(if|ifdef|ifndef|elif|else|endif)\b\<close>
\<close>

definition conditional_re :: re where
  "conditional_re = Seqs [Bol, Star Space, Ch CHR ''#'', Star Space, Grp 1 (Alts [Lit ''if'',
     Lit ''ifdef'', Lit ''ifndef'', Lit ''elif'', Lit ''else'', Lit ''endif'']), Wb]"

definition CheckLanguage ::
  "lint_globals \<Rightarrow> os_env \<Rightarrow> string \<Rightarrow> cleansed_lines \<Rightarrow> nat \<Rightarrow> string \<Rightarrow> include_state \<Rightarrow>
   include_state \<times> outcome" where
  "CheckLanguage g env filename clean_lines linenum file_extension include_state =
     (let line = elided clean_lines ! linenum in
      if line = [] then (include_state, reporting [])
      else if found include_re line
      then CheckIncludeLine g env filename clean_lines linenum include_state
      else ((case Match conditional_re line of
               Some m \<Rightarrow> ResetSection (grp m 1) include_state
             | None \<Rightarrow> include_state),
            in_order
             [CheckCasts filename clean_lines linenum,
              reporting (CheckGlobalStatic filename clean_lines linenum @
                CheckPrintf filename clean_lines linenum @ integer_reports filename linenum line),
              format_bug filename linenum line,
              reporting (memset_reports filename linenum line @ array_reports filename linenum line @
                namespace_reports g filename linenum file_extension line)]))"

section \<open>The text inside is balanced\<close>

lemma matching_punctuation_iff: "matching_punctuation l = Some r \<longleftrightarrow> bracket_pair l r"
  by (auto simp: matching_punctuation_def bracket_pair_def)

lemma matching_punctuation_None: "matching_punctuation c = None \<longleftrightarrow> \<not> is_open c"
  by (auto simp: matching_punctuation_def is_open_def)

lemma bracket_pair_unique: "bracket_pair l r \<Longrightarrow> bracket_pair l' r \<longleftrightarrow> l' = l"
  by (auto simp: bracket_pair_def)

text \<open>The stack of closing characters is the stack of open brackets of \<open>read\<close>.\<close>

lemma text_inside_read:
  "\<lbrakk>list_all2 bracket_pair st ps; st \<noteq> []\<rbrakk> \<Longrightarrow>
   text_inside cs ps = (case read cs st of Closes n \<Rightarrow> Some (take (n - 1) cs) | _ \<Rightarrow> None)"
proof (induction cs st arbitrary: ps rule: read.induct)
  case (1 st)
  then show ?case by (cases ps) auto
next
  case (2 c cs st)
  from "2.prems" obtain l st' p ps' where st: "st = l # st'" "ps = p # ps'" "bracket_pair l p"
    "list_all2 bracket_pair st' ps'" by (auto simp: neq_Nil_conv list_all2_Cons1)
  have p: "is_close p" using st(3) by simp
  have cons: "map_option ((#) c) (case x of Closes n \<Rightarrow> Some (take (n - 1) cs) | _ \<Rightarrow> None) =
      (case shift 1 x of Closes n \<Rightarrow> Some (take (n - 1) (c # cs)) | _ \<Rightarrow> None)"
    if "x \<noteq> Closes 0" for x using that by (cases x) (auto simp: take_Cons')
  have pos: "read cs s \<noteq> Closes 0" if "s \<noteq> []" for s
    using read_closes [of cs s 0] that by (cases s) auto
  consider (left) "is_open c" | (right) "is_close c" | (char) "\<not> is_open c" "\<not> is_close c" by blast
  then show ?case
  proof cases
    case left
    then obtain q where q: "bracket_pair c q" "matching_punctuation c = Some q"
      by (metis matching_punctuation_None matching_punctuation_iff option.exhaust)
    then have "text_inside cs (q # ps) = (case read cs (c # st) of Closes n \<Rightarrow> Some (take (n - 1) cs) | _ \<Rightarrow> None)"
      using 2(1) [OF left, of "q # ps"] "2.prems"(1) by simp
    moreover have "c \<noteq> p" "c \<notin> set '')}]''" using left p open_not_close by (auto simp: is_close_def)
    ultimately show ?thesis using left q st(2) cons [OF pos] by simp
  next
    case right
    then have "\<not> is_open c" "c \<in> set '')}]''" using open_not_close by (auto simp: is_close_def)
    moreover have "bracket_pair l c \<longleftrightarrow> c = p" using st(3) by (auto simp: bracket_pair_def)
    moreover have "text_inside cs ps' = (case read cs st' of Closes n \<Rightarrow> Some (take (n - 1) cs) | _ \<Rightarrow> None)"
      if "c = p" "st' \<noteq> []"
      using 2(2) [OF calculation(1) right st(1) _ that(2) st(4)] that st(3) by simp
    moreover have "ps' = [] \<longleftrightarrow> st' = []" using st(4) by auto
    ultimately show ?thesis using right st cons [OF pos] by auto
  next
    case char
    then have "c \<noteq> p" "c \<notin> set '')}]''" "matching_punctuation c = None"
      using p matching_punctuation_None by (auto simp: is_close_def)
    with 2(3) [OF char "2.prems"] char st cons [OF pos] show ?thesis by simp
  qed
qed

lemma bracketed_prefix:
  "(\<exists>n\<le>length s. bracketed (a # take n s) \<and> t = take (n - 1) s) \<longleftrightarrow>
   (\<exists>l r rest. a # s = l # t @ r # rest \<and> bracket_pair l r \<and> balanced t)" (is "?L \<longleftrightarrow> ?R")
proof
  assume ?L
  then obtain n r w where n: "n \<le> length s" "t = take (n - 1) s" "take n s = w @ [r]"
    "bracket_pair a r" "balanced w" by (auto simp: bracketed.simps)
  then have "length w = n - 1" by (metis diff_Suc_1 length_append_singleton length_take min.absorb2)
  then have "w = t" using n(2,3) by (metis append_eq_conv_conj min_def take_take diff_le_self)
  moreover have "s = w @ r # drop n s" using n(3) by (metis append_Cons append_assoc append_Nil append_take_drop_id)
  ultimately show ?R using n(4,5) by metis
next
  assume ?R
  then obtain r rest where "s = t @ r # rest" "bracket_pair a r" "balanced t" by auto
  then show ?L by (intro exI [of _ "Suc (length t)"]) (auto intro: bracketedI)
qed

text \<open>C20: \<open>_GetTextInside\<close> returns a text exactly when the match of the start pattern ends in an
  opening bracket that is closed in the line, and then it returns the balanced text between
  that bracket and the closing one.\<close>

theorem text_inside_balanced:
  assumes "Search start_pattern line = Some m" and "0 < m_end m" and "is_open (line ! (m_end m - 1))"
  shows "GetTextInside line start_pattern = Inr (Some t) \<longleftrightarrow>
    (\<exists>l r rest. drop (m_end m - 1) line = l # t @ r # rest \<and> bracket_pair l r \<and> balanced t)"
proof -
  let ?l = "line ! (m_end m - 1)" and ?s = "drop (m_end m) line"
  have "m_end m \<le> length line" using Search_end [OF assms(1)] by simp
  then have s: "drop (m_end m - 1) line = ?l # ?s"
    using assms(2) by (metis Cons_nth_drop_Suc Suc_diff_1 diff_less less_le_trans zero_less_one)
  from assms(3) obtain q where q: "bracket_pair ?l q" "matching_punctuation ?l = Some q"
    by (metis matching_punctuation_None matching_punctuation_iff option.exhaust)
  then have "GetTextInside line start_pattern = Inr (text_inside ?s [q])"
    using assms by (simp add: GetTextInside_def Let_def)
  also have "text_inside ?s [q] = (case read ?s [?l] of Closes n \<Rightarrow> Some (take (n - 1) ?s) | _ \<Rightarrow> None)"
    using q by (intro text_inside_read) simp_all
  finally have "GetTextInside line start_pattern = Inr (Some t) \<longleftrightarrow>
      (\<exists>n. read ?s [?l] = Closes n \<and> t = take (n - 1) ?s)"
    by (auto split: scan.split)
  also have "\<dots> \<longleftrightarrow> (\<exists>n. read (?l # ?s) [] = Closes (Suc n) \<and> t = take (n - 1) ?s)"
    using assms(3) by (auto elim: shift.elims split: scan.split)
  also have "\<dots> \<longleftrightarrow> (\<exists>n\<le>length ?s. bracketed (?l # take n ?s) \<and> t = take (n - 1) ?s)"
    using read_closes_iff [OF assms(3)] by auto
  also have "\<dots> \<longleftrightarrow> (\<exists>l r rest. ?l # ?s = l # t @ r # rest \<and> bracket_pair l r \<and> balanced t)"
    by (rule bracketed_prefix)
  finally show ?thesis by (simp only: s)
qed

lemma text_inside_balanced_witness:
  "GetTextInside ''printf(b[1]);'' printf_call_re = Inr (Some ''b[1]'') \<and>
   (\<exists>l r rest. drop 6 ''printf(b[1]);'' = l # ''b[1]'' @ r # rest \<and>
     bracket_pair l r \<and> balanced ''b[1]'')"
proof -
  let ?line = "''printf(b[1]);''"
  have "map_option m_end (Search printf_call_re ?line) = Some 7" by code_simp
  then obtain m where m: "Search printf_call_re ?line = Some m" "m_end m = 7" by auto
  then have o: "0 < m_end m" "is_open (?line ! (m_end m - 1))" by (simp_all add: is_open_def)
  have v: "GetTextInside ?line printf_call_re = Inr (Some ''b[1]'')" by code_simp
  with text_inside_balanced [OF m(1) o, of "''b[1]''"] m(2) show ?thesis by simp
qed

section \<open>The checks keep their promise\<close>

lemma GetTextInside_printf: "GetTextInside line printf_call_re \<noteq> Inl e"
proof (cases "Search printf_call_re line")
  case (Some m)
  have "printf_call_re = Seqs ([Wb, Opt (Grp 1 (LitI ''string'')), LitI ''printf'', Star Space] @ [Ch CHR ''(''])"
    by (simp add: printf_call_re_def)
  from Search_last_char [OF Some [unfolded this]] Some show ?thesis
    by (auto simp: GetTextInside_def matching_punctuation_def Let_def)
qed (simp add: GetTextInside_def)

lemma printf_name_found: "found printf_call_re line \<Longrightarrow> found printf_name_re line"
proof -
  have "rm (Seqs (a # b # cs)) line = rm (Seqs (Seq a b # cs)) line" for a b cs
    using rm_Seqs_append [of "[a, b]" cs line] rm_Seqs_append [of "[Seq a b]" cs line]
    by (simp add: Seqs.simps fun_eq_iff)
  then have "rm (Seqs (r # a # b # cs)) line st = rm (Seqs (r # Seq a b # cs)) line st" for r a b cs st
    using rm_Seqs_Cons [of r "a # b # cs" line st] rm_Seqs_Cons [of r "Seq a b # cs" line st] by metis
  then have "rm (erase printf_call_re) line = rm (erase printf_name_re) line"
    by (simp add: printf_call_re_def printf_name_re_def Opt_def fun_eq_iff del: rm.simps)
  then have "found (erase printf_call_re) line \<longleftrightarrow> found (erase printf_name_re) line"
    unfolding found_iff by simp
  moreover have "no_back printf_call_re" "no_back printf_name_re"
    by (simp_all add: printf_call_re_def printf_name_re_def Opt_def Ch_def)
  ultimately show "found printf_call_re line \<Longrightarrow> found printf_name_re line"
    using found_erase by blast
qed

lemma format_bug_ok:
  assumes "linenum < n"
  shows "outcome_ok f n (format_bug f linenum line)"
proof -
  have "found printf_name_re line" if "GetTextInside line printf_call_re = Inr (Some t)" for t
    using that printf_name_found by (cases "Search printf_call_re line") (auto simp: GetTextInside_def)
  then show ?thesis using assms GetTextInside_printf unfolding format_bug_def
    by (auto intro!: outcome_intros split: option.split option.split_asm)
qed

lemma integer_reports_ok: "linenum < n \<Longrightarrow> reports_ok f n (integer_reports f linenum line)"
  unfolding integer_reports_def by (intro outcome_intros) auto

lemma memset_reports_ok: "linenum < n \<Longrightarrow> reports_ok f n (memset_reports f linenum line)"
  unfolding memset_reports_def by (intro outcome_intros) auto

lemma array_reports_ok: "linenum < n \<Longrightarrow> reports_ok f n (array_reports f linenum line)"
  unfolding array_reports_def by (intro outcome_intros) auto

lemma namespace_reports_ok: "linenum < n \<Longrightarrow> reports_ok f n (namespace_reports g f linenum ext line)"
  unfolding namespace_reports_def by (intro outcome_intros) auto

lemma CheckLanguage_ok:
  assumes "linenum < NumLines c"
  shows "outcome_may {IndexError, NoReturn} f (NumLines c) (snd (CheckLanguage g env f c linenum ext s))"
proof -
  note may = outcome_may_mono [OF CheckCasts_ok [OF assms]] outcome_may_mono [OF format_bug_ok [OF assms]]
    outcome_may_mono [OF CheckIncludeLine_ok [OF assms]]
  show ?thesis
    by (auto simp: CheckLanguage_def Let_def intro!: outcome_intros may CheckGlobalStatic_ok CheckPrintf_ok
        integer_reports_ok memset_reports_ok array_reports_ok namespace_reports_ok assms)
qed

lemma CheckLanguage_includes:
  "\<lbrakk>includes_ok n s; linenum < n\<rbrakk> \<Longrightarrow> includes_ok n (fst (CheckLanguage g env f c linenum ext s))"
  by (auto simp: CheckLanguage_def Let_def intro: CheckIncludeLine_list ResetSection_list split: option.split)

end
