(* ===== verification/IncludeUse.thy ===== *)
theory IncludeUse
  imports IncludeLines "HOL-Library.AList" "HOL-Library.Product_Lexorder"
begin

text \<open>
  \<open>CheckForIncludeWhatYouUse\<close> of \<open>build_support/cpplint.py\<close>: the headers of the standard library that
  a file uses, the files that belong to its module (\<open>FilesBelongToSameModule\<close>), and the includes
  read from them (\<open>UpdateIncludeState\<close>).  The files are a parameter: \<open>read_file\<close> gives the lines of a
  file with their ends, as iterating over it does, or \<open>None\<close> where opening it fails.
\<close>

section \<open>Templates and their headers\<close>

definition headers_containing_templates :: "(string \<times> string list) list" where
  "headers_containing_templates =
     [(''<deque>'', [''deque'']),
      (''<functional>'', [''unary_function'', ''binary_function'', ''plus'', ''minus'', ''multiplies'',
        ''divides'', ''modulus'', ''negate'', ''equal_to'', ''not_equal_to'', ''greater'', ''less'',
        ''greater_equal'', ''less_equal'', ''logical_and'', ''logical_or'', ''logical_not'', ''unary_negate'',
        ''not1'', ''binary_negate'', ''not2'', ''bind1st'', ''bind2nd'', ''pointer_to_unary_function'',
        ''pointer_to_binary_function'', ''ptr_fun'', ''mem_fun_t'', ''mem_fun'', ''mem_fun1_t'',
        ''mem_fun1_ref_t'', ''mem_fun_ref_t'', ''const_mem_fun_t'', ''const_mem_fun1_t'',
        ''const_mem_fun_ref_t'', ''const_mem_fun1_ref_t'', ''mem_fun_ref'']),
      (''<limits>'', [''numeric_limits'']),
      (''<list>'', [''list'']),
      (''<map>'', [''multimap'']),
      (''<memory>'', [''allocator'', ''make_shared'', ''make_unique'', ''shared_ptr'', ''unique_ptr'', ''weak_ptr'']),
      (''<queue>'', [''queue'', ''priority_queue'']),
      (''<set>'', [''multiset'']),
      (''<stack>'', [''stack'']),
      (''<string>'', [''char_traits'', ''basic_string'']),
      (''<tuple>'', [''tuple'']),
      (''<unordered_map>'', [''unordered_map'', ''unordered_multimap'']),
      (''<unordered_set>'', [''unordered_set'', ''unordered_multiset'']),
      (''<utility>'', [''pair'']),
      (''<vector>'', [''vector'']),
      (''<hash_map>'', [''hash_map'', ''hash_multimap'']),
      (''<hash_set>'', [''hash_set'', ''hash_multiset'']),
      (''<slist>'', [''slist''])]"

definition headers_maybe_templates :: "(string \<times> string list) list" where
  "headers_maybe_templates =
     [(''<algorithm>'', [''copy'', ''max'', ''min'', ''min_element'', ''sort'', ''transform'']),
      (''<utility>'', [''forward'', ''make_pair'', ''move'', ''swap''])]"

text \<open>
  \<open>[^>.]\b\<close>, the template, \<open>(<.*?>)?\([^\)]\<close>; \<open>[^>.]\bset\s*<\<close>;
  \<open>(std\b::\bmap\s*<)|(^(std\b::\b)map\b\(\s*<)\<close>; \<open>(<|\b)\<close>, the template, \<open>\s*<\<close>; \<open>\bstring\b\<close>
\<close>

definition function_template_re :: "string \<Rightarrow> re" where
  "function_template_re template = Seqs [NoneOf ''>.'', Wb, Lit template,
     Opt (Grp 1 (Seqs [Ch CHR ''<'', LStar Any, Ch CHR ''>''])), Ch CHR ''('', NoneOf '')'']"

definition set_template_re :: re where
  "set_template_re = Seqs [NoneOf ''>.'', Wb, Lit ''set'', Star Space, Ch CHR ''<'']"

definition map_template_re :: re where
  "map_template_re = Alt
     (Grp 1 (Seqs [Lit ''std'', Wb, Lit ''::'', Wb, Lit ''map'', Star Space, Ch CHR ''<'']))
     (Grp 2 (Seqs [Bol, Grp 3 (Seqs [Lit ''std'', Wb, Lit ''::'', Wb]), Lit ''map'', Wb, Ch CHR ''('',
        Star Space, Ch CHR ''<'']))"

definition class_template_re :: "string \<Rightarrow> re" where
  "class_template_re template =
     Seqs [Grp 1 (Alt (Ch CHR ''<'') Wb), Lit template, Star Space, Ch CHR ''<'']"

definition string_re :: re where
  "string_re = Seqs [Wb, Lit ''string'', Wb]"

definition maybe_template_patterns :: "(re \<times> string \<times> string) list" where
  "maybe_template_patterns =
     [(function_template_re template, template, header).
        (header, templates) \<leftarrow> headers_maybe_templates, template \<leftarrow> templates] @
     [(set_template_re, ''set<>'', ''<set>''), (map_template_re, ''map<>'', ''<map>'')]"

definition template_patterns :: "(re \<times> string \<times> string) list" where
  "template_patterns =
     [(class_template_re template, template @ ''<>'', header).
        (header, templates) \<leftarrow> headers_containing_templates, template \<leftarrow> templates]"

section \<open>The headers that the lines require\<close>

text \<open>Only the first match counts, when it is not in a namespace other than \<open>std\<close>.\<close>

definition std_match :: "re \<Rightarrow> string \<Rightarrow> bool" where
  "std_match pattern line \<longleftrightarrow>
     (case Search pattern line of
        None \<Rightarrow> False
      | Some matched \<Rightarrow>
          let preceding = take (m_start matched) line
          in endswith preceding ''std::'' \<or> \<not> endswith preceding ''::'')"

text \<open>The headers that a line requires and the templates that need them, in the order in which the
  code sets the entries of \<open>required\<close>.\<close>

definition line_uses :: "string \<Rightarrow> (string \<times> string) list" where
  "line_uses line =
     (if line = [] \<or> hd line = CHR ''#'' then []
      else (if std_match string_re line then [(''<string>'', ''string'')] else []) @
        map (\<lambda>(_, template, header). (header, template))
          (filter (\<lambda>(pattern, _). found pattern line) maybe_template_patterns) @
        (if CHR ''<'' \<notin> set line then []
         else map (\<lambda>(_, template, header). (header, template))
           (filter (\<lambda>(pattern, _). std_match pattern line) template_patterns)))"

type_synonym required = "(string \<times> nat \<times> string) list"

fun require :: "nat \<Rightarrow> (string \<times> string) list \<Rightarrow> required \<Rightarrow> required" where
  "require linenum [] required = required"
| "require linenum ((header, template) # uses) required =
     require linenum uses (AList.update header (linenum, template) required)"

fun require_lines :: "nat \<Rightarrow> string list \<Rightarrow> required \<Rightarrow> required" where
  "require_lines linenum [] required = required"
| "require_lines linenum (line # lines) required =
     require_lines (Suc linenum) lines (require linenum (line_uses line) required)"

section \<open>Files of one module\<close>

definition lstrip_dots :: "string \<Rightarrow> string" where
  "lstrip_dots = dropWhile (\<lambda>c. c = CHR ''.'')"

definition drop_module_dirs :: "string \<Rightarrow> string" where
  "drop_module_dirs f = str_replace
     (str_replace f ([slash] @ ''public'' @ [slash]) [slash]) ([slash] @ ''internal'' @ [slash]) [slash]"

definition FilesBelongToSameModule ::
  "lint_globals \<Rightarrow> os_env \<Rightarrow> string \<Rightarrow> string \<Rightarrow> py_error + bool \<times> string" where
  "FilesBelongToSameModule g env filename_cc filename_h =
     bind_result (returned (FileInfo_Split env (repository_flag g) filename_cc)) (\<lambda>(_, base_cc, ext_cc).
     if lstrip_dots ext_cc \<notin> set (GetNonHeaderExtensions g) then Inr (False, [])
     else bind_result (returned (Extension env (repository_flag g) filename_h)) (\<lambda>ext_h.
       if \<not> IsHeaderExtension g (lstrip_dots ext_h) then Inr (False, [])
       else let cc = str_upto filename_cc (- int (length ext_cc));
                cc' = drop_module_dirs (case Search test_file_suffix_re base_cc of
                    Some m \<Rightarrow> str_upto cc (- int (length (grp m 1))) | None \<Rightarrow> cc);
                h = str_upto filename_h (- int (length ext_h));
                h' = drop_module_dirs (if endswith h ''-inl'' then str_upto h (-4) else h);
                files_belong_to_same_module = endswith cc' h'
         in Inr (files_belong_to_same_module,
              if files_belong_to_same_module then str_upto cc' (- int (length h')) else [])))"

section \<open>The includes of the module\<close>

type_synonym include_dict = "(string \<times> linenum) list"

definition set_default :: "string \<Rightarrow> linenum \<Rightarrow> include_dict \<Rightarrow> include_dict" where
  "set_default key value d = (if key \<in> fst ` set d then d else d @ [(key, value)])"

fun included_in :: "linenum \<Rightarrow> string list \<Rightarrow> include_dict \<Rightarrow> include_dict" where
  "included_in linenum [] d = d"
| "included_in linenum (line # lines) d =
     included_in (linenum + 1) lines
       (case Search include_re (CleanseComments line) of
          Some m \<Rightarrow> set_default (grp m 2) (linenum + 1) d
        | None \<Rightarrow> d)"

definition UpdateIncludeState ::
  "(string \<Rightarrow> string list option) \<Rightarrow> string \<Rightarrow> include_dict \<Rightarrow> bool \<times> include_dict" where
  "UpdateIncludeState read_file filename d =
     (case read_file filename of None \<Rightarrow> (False, d) | Some lines \<Rightarrow> (True, included_in 0 lines d))"

text \<open>The loop over the headers included: whether a header of the module was read, and the includes.\<close>

fun module_includes ::
  "lint_globals \<Rightarrow> os_env \<Rightarrow> (string \<Rightarrow> string list option) \<Rightarrow> string \<Rightarrow> string list \<Rightarrow> bool \<Rightarrow>
   include_dict \<Rightarrow> py_error + bool \<times> include_dict" where
  "module_includes g env read_file abs_filename [] header_found d = Inr (header_found, d)"
| "module_includes g env read_file abs_filename (header # headers) header_found d =
     bind_result (FilesBelongToSameModule g env abs_filename header) (\<lambda>(same_module, common_path).
       case (if same_module then UpdateIncludeState read_file (common_path @ header) d else (False, d)) of
         (updated, d') \<Rightarrow>
           module_includes g env read_file abs_filename headers (header_found \<or> updated) d')"

section \<open>\<open>CheckForIncludeWhatYouUse\<close>\<close>

definition flymake_cc_re :: re where
  "flymake_cc_re = Seq (Lit ''_flymake.cc'') Eol"

definition strip_brackets :: "string \<Rightarrow> string" where
  "strip_brackets s =
     (let bracket = (\<lambda>c. c \<in> set (''<>'' @ [dq]))
      in rev (dropWhile bracket (rev (dropWhile bracket s))))"

definition missing_includes :: "string \<Rightarrow> required \<Rightarrow> include_dict \<Rightarrow> report list" where
  "missing_includes filename required d =
     map (\<lambda>(header, linenum, template). mk_report filename (int linenum) ''build/include_what_you_use'' 4
          (''Add #include '' @ header @ '' for '' @ template))
       (filter (\<lambda>(header, _). strip_brackets header \<notin> fst ` set d) (sort_key snd required))"

definition include_dict_of :: "include_state \<Rightarrow> include_dict" where
  "include_dict_of s = foldl (\<lambda>d (header, linenum). AList.update header linenum d) [] (concat (include_list s))"

definition CheckForIncludeWhatYouUse ::
  "lint_globals \<Rightarrow> os_env \<Rightarrow> (string \<Rightarrow> string list option) \<Rightarrow> string \<Rightarrow> cleansed_lines \<Rightarrow> include_state \<Rightarrow>
   outcome" where
  "CheckForIncludeWhatYouUse g env read_file filename clean_lines include_state =
     (let required = require_lines 0 (take (NumLines clean_lines) (elided clean_lines)) [];
          include_dict = include_dict_of include_state;
          abs_filename = re_sub flymake_cc_re ''.cc'' (FullName env filename)
      in attempt (module_includes g env read_file abs_filename (map fst include_dict) False include_dict)
           (\<lambda>(header_found, d). reporting
             (if \<not> header_found \<and>
                 (\<exists>extension\<in>set (GetNonHeaderExtensions g). endswith filename (''.'' @ extension))
              then [] else missing_includes filename required d)))"

section \<open>The last line that uses a header\<close>

text \<open>Line \<open>l\<close> uses the header \<open>h\<close> for the template \<open>t\<close>, and nothing after that uses \<open>h\<close>.\<close>

definition last_use :: "string list \<Rightarrow> string \<Rightarrow> nat \<Rightarrow> string \<Rightarrow> bool" where
  "last_use lines h l t \<longleftrightarrow> l < length lines \<and>
     (\<exists>us vs. line_uses (lines ! l) = us @ (h, t) # vs \<and> h \<notin> fst ` set vs) \<and>
     (\<forall>j. l < j \<and> j < length lines \<longrightarrow> h \<notin> fst ` set (line_uses (lines ! j)))"

lemma require_append: "require l (us @ vs) r = require l vs (require l us r)"
  by (induction us arbitrary: r) auto

lemma require_lines_snoc:
  "require_lines k (ls @ [x]) r = require (k + length ls) (line_uses x) (require_lines k ls r)"
  by (induction ls arbitrary: k r) simp_all

lemma require_distinct: "distinct (map fst r) \<Longrightarrow> distinct (map fst (require l us r))"
  by (induction us arbitrary: r) (auto simp: distinct_update)

lemma require_other: "h \<notin> fst ` set us \<Longrightarrow> map_of (require l us r) h = map_of r h"
  by (induction us arbitrary: r) (auto simp: update_conv')

lemma require_used:
  assumes "h \<in> fst ` set us"
  obtains vs t ws where "us = vs @ (h, t) # ws" "h \<notin> fst ` set ws" "map_of (require l us r) h = Some (l, t)"
proof -
  from assms obtain p where "\<exists>x\<in>set us. fst x = h" by force
  then obtain vs x ws where "us = vs @ x # ws" "fst x = h" "\<forall>y\<in>set ws. fst y \<noteq> h"
    by (rule split_list_last_propE)
  then have "us = vs @ (h, snd x) # ws" "h \<notin> fst ` set ws" by (auto simp: prod_eq_iff)
  moreover from this have "map_of (require l us r) h = Some (l, snd x)"
    by (simp add: require_append require_other update_conv')
  ultimately show thesis by (rule that)
qed

lemma require_lines_distinct: "distinct (map fst (require_lines 0 ls []))"
  by (induction ls rule: rev_induct) (simp_all add: require_lines_snoc require_distinct)

lemma last_use_snoc_other:
  "h \<notin> fst ` set (line_uses x) \<Longrightarrow> last_use (ls @ [x]) h l t \<longleftrightarrow> last_use ls h l t"
  by (auto simp: last_use_def nth_append less_Suc_eq image_iff)

lemma last_pair: "us = vs @ (h, t) # ws \<Longrightarrow> h \<notin> fst ` set ws \<Longrightarrow> map_of (rev us) h = Some t"
  by (auto simp: map_add_Some_iff map_of_eq_None_iff)

lemma last_use_snoc:
  assumes "line_uses x = vs @ (h, t) # ws" and "h \<notin> fst ` set ws"
  shows "last_use (ls @ [x]) h l t' \<longleftrightarrow> l = length ls \<and> t' = t"
proof
  assume u: "last_use (ls @ [x]) h l t'"
  then have "l \<le> length ls" by (auto simp: last_use_def)
  moreover have "\<not> l < length ls" using u assms by (force simp: last_use_def nth_append)
  ultimately have l: "l = length ls" by simp
  with u obtain us' vs' where "line_uses x = us' @ (h, t') # vs'" "h \<notin> fst ` set vs'"
    by (auto simp: last_use_def nth_append)
  with assms l show "l = length ls \<and> t' = t"
    using last_pair [of "line_uses x" us' h t' vs'] last_pair [of "line_uses x" vs h t ws] by simp
next
  assume "l = length ls \<and> t' = t"
  with assms show "last_use (ls @ [x]) h l t'" by (auto simp: last_use_def nth_append less_Suc_eq)
qed

lemma required_last_use: "map_of (require_lines 0 ls []) h = Some (l, t) \<longleftrightarrow> last_use ls h l t"
proof (induction ls arbitrary: l t rule: rev_induct)
  case Nil
  show ?case by (simp add: last_use_def)
next
  case (snoc x ls)
  show ?case
  proof (cases "h \<in> fst ` set (line_uses x)")
    case True
    from require_used [OF this, of "length ls" "require_lines 0 ls []"]
    obtain vs t0 ws where u: "line_uses x = vs @ (h, t0) # ws" "h \<notin> fst ` set ws"
      "map_of (require (length ls) (line_uses x) (require_lines 0 ls [])) h = Some (length ls, t0)" .
    from u(3) have "map_of (require_lines 0 (ls @ [x]) []) h = Some (length ls, t0)"
      by (simp add: require_lines_snoc)
    with last_use_snoc [OF u(1,2), of ls l t] show ?thesis by auto
  next
    case False
    with snoc last_use_snoc_other show ?thesis by (simp add: require_lines_snoc require_other)
  qed
qed

lemma required_entry: "(h, l, t) \<in> set (require_lines 0 ls []) \<longleftrightarrow> last_use ls h l t"
  using required_last_use [of ls h l t] map_of_eq_Some_iff [OF require_lines_distinct, of ls h "(l, t)"] by simp

section \<open>The check keeps its promise\<close>

lemma missing_includes_ok:
  assumes "length ls \<le> n"
  shows "reports_ok f n (missing_includes f (require_lines 0 ls []) d)"
proof -
  have "l < n" if "(h, l, t) \<in> set (require_lines 0 ls [])" for h l t
    using that assms unfolding required_entry by (simp add: last_use_def)
  then show ?thesis
    by (auto simp: missing_includes_def reports_ok_def list_all_iff intro!: report_ok_mk)
qed

lemma FilesBelongToSameModule_error: "FilesBelongToSameModule g env cc h = Inl e \<Longrightarrow> e = NoReturn"
  by (auto simp: FilesBelongToSameModule_def bind_result_Inl Let_def split: prod.splits if_splits)

lemma module_includes_error: "module_includes g env rf a hs b d = Inl e \<Longrightarrow> e = NoReturn"
  by (induction hs arbitrary: b d)
    (auto simp: bind_result_Inl case_prod_beta dest: FilesBelongToSameModule_error)

lemma CheckForIncludeWhatYouUse_ok:
  "outcome_may {NoReturn} f (NumLines c) (CheckForIncludeWhatYouUse g env rf f c s)"
  unfolding CheckForIncludeWhatYouUse_def Let_def
  by (auto intro!: outcome_intros missing_includes_ok dest: module_includes_error)

section \<open>What is reported\<close>

lemma triples_image: "(\<lambda>(x, y, z). k x y z) ` A = {k x y z | x y z. (x, y, z) \<in> A}"
  by force

text \<open>C11: Let \<open>d\<close> be what the file and the headers of its module that can be read include, where the
  search for those headers returns.  If no such header was found and the file is a source file, the check gives
  up and reports nothing.  Otherwise it reports each header of the standard library that some
  line uses and that is not in \<open>d\<close>, exactly once, at the
  last line that uses it and for the last template on it, in the order of the lines.\<close>

theorem missing_includes_exact:
  assumes "module_includes g env rf (re_sub flymake_cc_re ''.cc'' (FullName env f))
      (map fst (include_dict_of s)) False (include_dict_of s) = Inr (header_found, d)"
    and "length (elided c) = NumLines c"
  shows "\<exists>rs. CheckForIncludeWhatYouUse g env rf f c s = (rs, None) \<and>
    (if \<not> header_found \<and> (\<exists>ext\<in>set (GetNonHeaderExtensions g). endswith f (''.'' @ ext)) then rs = []
     else (\<lambda>r. (r_linenum r, r_message r)) ` set rs =
        {(int l, ''Add #include '' @ h @ '' for '' @ t) | h l t.
           last_use (elided c) h l t \<and> strip_brackets h \<notin> fst ` set d} \<and>
      length rs = card {h. \<exists>l t. last_use (elided c) h l t \<and> strip_brackets h \<notin> fst ` set d} \<and>
      sorted (map r_linenum rs))"
proof -
  let ?up = "\<not> header_found \<and> (\<exists>ext\<in>set (GetNonHeaderExtensions g). endswith f (''.'' @ ext))"
  let ?req = "require_lines 0 (elided c) []"
  let ?new = "filter (\<lambda>(h, _). strip_brackets h \<notin> fst ` set d) (sort_key snd ?req)"
  let ?rs = "missing_includes f ?req d"
  have new: "(h, l, t) \<in> set ?new \<longleftrightarrow> last_use (elided c) h l t \<and> strip_brackets h \<notin> fst ` set d" for h l t
    by (auto simp: required_entry)
  have "CheckForIncludeWhatYouUse g env rf f c s = (if ?up then [] else ?rs, None)"
    using assms by (simp add: CheckForIncludeWhatYouUse_def reporting_def)
  moreover have "(\<lambda>r. (r_linenum r, r_message r)) ` set ?rs =
      {(int l, ''Add #include '' @ h @ '' for '' @ t) | h l t. (h, l, t) \<in> set ?new}"
    unfolding triples_image [symmetric]
    by (simp add: missing_includes_def mk_report_def image_image case_prod_beta)
  moreover have "length ?rs = card (fst ` set ?new)"
  proof -
    have "distinct (map fst (sort_key snd ?req))"
      using require_lines_distinct [of "elided c"] by (simp add: distinct_map)
    then have "distinct (map fst ?new)" by (rule distinct_map_filter)
    from distinct_card [OF this] show ?thesis by (simp add: missing_includes_def)
  qed
  moreover have "sorted (map r_linenum ?rs)"
  proof -
    have "sorted (map snd (sort_key snd ?req))" by (rule sorted_sort_key)
    then have "sorted (map snd ?new)" by (rule sorted_filter)
    then have "sorted_wrt (\<lambda>x y. fst (snd x) \<le> fst (snd y)) ?new"
      unfolding sorted_map by (rule sorted_wrt_mono_rel [rotated]) (auto simp: less_eq_prod_def)
    moreover have "map r_linenum ?rs = map (\<lambda>x. int (fst (snd x))) ?new"
      by (simp add: missing_includes_def mk_report_def comp_def case_prod_beta)
    ultimately show ?thesis by (simp add: sorted_map)
  qed
  moreover have "fst ` set ?new = {h. \<exists>l t. (h, l, t) \<in> set ?new}" by force
  ultimately show ?thesis unfolding new by (intro exI [of _ "if ?up then [] else ?rs"]) simp
qed

definition sample_use :: cleansed_lines where
  "sample_use = (let ls = [''std::vector<int> v;''] in
     \<lparr>elided = ls, cl_lines = ls, raw_lines = ls, num_lines = 1, lines_without_raw_strings = ls\<rparr>)"

lemma missing_includes_exact_witness:
  "\<exists>rs. CheckForIncludeWhatYouUse init_globals sample_env (\<lambda>_. None) ''/a.h'' sample_use init_include_state =
      (rs, None) \<and> sorted (map r_linenum rs) \<and>
    (\<lambda>r. (r_linenum r, r_message r)) ` set rs =
      {(int l, ''Add #include '' @ h @ '' for '' @ t) | h l t. last_use [''std::vector<int> v;''] h l t}"
proof -
  have "module_includes init_globals sample_env (\<lambda>_. None) (re_sub flymake_cc_re ''.cc'' (FullName sample_env ''/a.h''))
      (map fst (include_dict_of init_include_state)) False (include_dict_of init_include_state) = Inr (False, [])"
    by (simp add: init_include_state_def ResetSection_def include_dict_of_def)
  moreover have "\<not> (\<exists>ext\<in>set (GetNonHeaderExtensions init_globals). endswith ''/a.h'' (''.'' @ ext))"
    by code_simp
  moreover have "length (elided sample_use) = NumLines sample_use" by (simp add: sample_use_def NumLines_def Let_def)
  ultimately show ?thesis using missing_includes_exact [of init_globals sample_env "\<lambda>_. None" "''/a.h''"
      init_include_state False "[]" sample_use] by (auto simp: sample_use_def Let_def)
qed

end
