(* ===== verification/Driver.thy ===== *)
theory Driver
  imports Constructs References Language IncludeUse
begin

text \<open>
  The driver of \<open>build_support/cpplint.py\<close>: \<open>ProcessLine\<close> with the checks of a line in their order,
  the flags of C++11 and C++14, and \<open>ProcessFileData\<close>.  No extra check functions are passed, as
  \<open>main\<close> passes none.
\<close>

section \<open>Features of C++11 and C++14\<close>

text \<open>
  \<open>\s*#\s*include\s+[<"]([^<"]+)[">]\<close>,
  \<open>\s*#\<close>,
  \<open>\s*#\s*define\b\<close>
\<close>

definition any_include_re :: re where
  "any_include_re = Seqs [Star Space, Ch CHR ''#'', Star Space, Lit ''include'', Plus Space,
     OneOf (''<'' @ [dq]), Grp 1 (Plus (NoneOf (''<'' @ [dq]))), OneOf (''>'' @ [dq])]"

definition directive_re :: re where
  "directive_re = Seq (Star Space) (Ch CHR ''#'')"

definition define_directive_re :: re where
  "define_directive_re = Seqs [Star Space, Ch CHR ''#'', Star Space, Lit ''define'', Wb]"

text \<open>\<open>\bstd::%s\b\<close>\<close>

definition std_name_re :: "string \<Rightarrow> re" where
  "std_name_re top_name = Seqs [Wb, Lit ''std::'', Lit top_name, Wb]"

definition included_header :: "string \<Rightarrow> string option" where
  "included_header line = map_option (\<lambda>m. grp m 1) (Match any_include_re line)"

definition FlagCxx11Features :: "string \<Rightarrow> cleansed_lines \<Rightarrow> nat \<Rightarrow> report list" where
  "FlagCxx11Features filename clean_lines linenum =
     (let line = elided clean_lines ! linenum;
          error = (\<lambda>category message. [mk_report filename (int linenum) category 5 message])
      in (case included_header line of
            None \<Rightarrow> []
          | Some header \<Rightarrow>
              (if startswith header ''tr1/''
               then error ''build/c++tr1'' (''C++ TR1 headers such as <'' @ header @ ''> are unapproved.'')
               else []) @
              (if header \<in> set [''cfenv'', ''condition_variable'', ''fenv.h'', ''future'', ''mutex'', ''thread'',
                   ''chrono'', ''ratio'', ''regex'', ''system_error'']
               then error ''build/c++11'' (''<'' @ header @ ''> is an unapproved C++11 header.'')
               else [])) @
         (if matches directive_re line \<and> \<not> matches define_directive_re line then []
          else concat (map (\<lambda>top_name.
            if found (std_name_re top_name) line
            then error ''build/c++11''
              (''std::'' @ top_name @ '' is an unapproved C++11 class or function.  Send c-style '' @
               ''an example of where it would make your code more readable, and '' @
               ''they may let you use it.'')
            else []) [''alignment_of'', ''aligned_union''])))"

definition FlagCxx14Features :: "string \<Rightarrow> cleansed_lines \<Rightarrow> nat \<Rightarrow> report list" where
  "FlagCxx14Features filename clean_lines linenum =
     (case included_header (elided clean_lines ! linenum) of
        None \<Rightarrow> []
      | Some header \<Rightarrow>
          if header \<in> set [''scoped_allocator'', ''shared_mutex'']
          then [mk_report filename (int linenum) ''build/c++14'' 5
                 (''<'' @ header @ ''> is an unapproved C++14 header.'')]
          else [])"

section \<open>The state while a file is read\<close>

record file_state =
  fs_include :: include_state
  fs_function :: function_state
  fs_nesting :: nesting_state
  fs_globals :: lint_globals

definition on_globals :: "lint_globals action \<Rightarrow> file_state action" where
  "on_globals a s = (case a (fs_globals s) of (g, e) \<Rightarrow> (s\<lparr>fs_globals := g\<rparr>, e))"

text \<open>A check whose reports depend on the state.\<close>

definition check_with :: "lint_globals handler \<Rightarrow> (file_state \<Rightarrow> outcome) \<Rightarrow> file_state action" where
  "check_with error oc s = on_globals (run_outcome error (oc s)) s"

definition update_nesting ::
  "lint_globals handler \<Rightarrow> string \<Rightarrow> cleansed_lines \<Rightarrow> nat \<Rightarrow> file_state action" where
  "update_nesting error filename clean_lines line s =
     (case Update filename clean_lines line (fs_nesting s) of
        Inl e \<Rightarrow> (s, Some e)
      | Inr (nesting, rs) \<Rightarrow>
          (s\<lparr>fs_nesting := nesting, fs_globals := emit error rs (fs_globals s)\<rparr>, None))"

definition function_lengths ::
  "lint_globals handler \<Rightarrow> string \<Rightarrow> cleansed_lines \<Rightarrow> nat \<Rightarrow> file_state action" where
  "function_lengths error filename clean_lines line s =
     (case CheckForFunctionLengths (VerboseLevel (fs_globals s)) filename clean_lines line (fs_function s) of
        (function_state, rs) \<Rightarrow>
          (s\<lparr>fs_function := function_state, fs_globals := emit error rs (fs_globals s)\<rparr>, None))"

definition language ::
  "lint_globals handler \<Rightarrow> os_env \<Rightarrow> string \<Rightarrow> string \<Rightarrow> cleansed_lines \<Rightarrow> nat \<Rightarrow> file_state action" where
  "language error env filename file_extension clean_lines line s =
     (case CheckLanguage (fs_globals s) env filename clean_lines line file_extension (fs_include s) of
        (include_state, oc) \<Rightarrow> on_globals (run_outcome error oc) (s\<lparr>fs_include := include_state\<rparr>))"

section \<open>\<open>ProcessLine\<close>\<close>

text \<open>What precedes the test for an inline assembler block, and what follows it.\<close>

definition begin_line ::
  "lint_globals handler \<Rightarrow> string \<Rightarrow> cleansed_lines \<Rightarrow> nat \<Rightarrow> file_state action" where
  "begin_line error filename clean_lines line = perform
     [on_globals (\<lambda>g. (ParseNolintSuppressions error filename (raw_lines clean_lines ! line) (int line) g, None)),
      update_nesting error filename clean_lines line,
      check_with error (\<lambda>s. reporting
        (CheckForNamespaceIndentation filename (fs_nesting s) clean_lines line))]"

definition check_line ::
  "lint_globals handler \<Rightarrow> os_env \<Rightarrow> string \<Rightarrow> string \<Rightarrow> cleansed_lines \<Rightarrow> nat \<Rightarrow> file_state action" where
  "check_line error env filename file_extension clean_lines line = perform
     [function_lengths error filename clean_lines line,
      check_with error (\<lambda>_. reporting (CheckForMultilineCommentsAndStrings filename clean_lines line)),
      \<lambda>s. on_globals (CheckStyle error env filename clean_lines line file_extension (fs_nesting s)) s,
      language error env filename file_extension clean_lines line,
      check_with error (\<lambda>s. CheckForNonConstReference filename clean_lines line (fs_nesting s)),
      check_with error (\<lambda>s. CheckForNonStandardConstructs filename clean_lines line (fs_nesting s)),
      check_with error (\<lambda>_. reporting
        (CheckVlogArguments filename clean_lines line @ CheckPosixThreading filename clean_lines line @
         CheckInvalidIncrement filename clean_lines line @
         CheckMakePairUsesDeduction filename clean_lines line)),
      check_with error (\<lambda>_. CheckRedundantVirtual filename clean_lines line),
      check_with error (\<lambda>_. reporting (CheckRedundantOverrideOrFinal filename clean_lines line))]"

definition ProcessLine ::
  "lint_globals handler \<Rightarrow> os_env \<Rightarrow> string \<Rightarrow> string \<Rightarrow> cleansed_lines \<Rightarrow> nat \<Rightarrow> file_state action" where
  "ProcessLine error env filename file_extension clean_lines line =
     and_then (begin_line error filename clean_lines line)
       (\<lambda>s. if InAsmBlock (fs_nesting s) then (s, None)
            else check_line error env filename file_extension clean_lines line s)"

section \<open>\<open>ProcessFileData\<close>\<close>

definition process_lines ::
  "lint_globals handler \<Rightarrow> os_env \<Rightarrow> string \<Rightarrow> string \<Rightarrow> cleansed_lines \<Rightarrow> file_state action" where
  "process_lines error env filename file_extension clean_lines = perform
     (map (\<lambda>line. and_then (ProcessLine error env filename file_extension clean_lines line)
         (check_with error (\<lambda>_. reporting (FlagCxx11Features filename clean_lines line))))
       [0..<NumLines clean_lines])"

text \<open>The line \<open>None\<close> of a report is the number \<open>no_line\<close>.\<close>

definition header_included ::
  "os_env \<Rightarrow> string \<Rightarrow> file_state \<Rightarrow> outcome" where
  "header_included env filename s =
     attempt (returned (CheckHeaderFileIncluded (fs_globals s) env filename (fs_include s))) (\<lambda>rs. reporting
       (map (\<lambda>(l, m). mk_report filename (case l of None \<Rightarrow> no_line | Some n \<Rightarrow> n) ''build/include'' 5 m) rs))"

definition finish_file ::
  "lint_globals handler \<Rightarrow> os_env \<Rightarrow> (string \<Rightarrow> string list option) \<Rightarrow> string \<Rightarrow> string \<Rightarrow> string list \<Rightarrow>
   cleansed_lines \<Rightarrow> file_state action" where
  "finish_file error env header_lines filename file_extension lines clean_lines = perform
     [check_with error (\<lambda>s. reporting (CheckCompletedBlocks filename (fs_nesting s))),
      check_with error (\<lambda>s. CheckForIncludeWhatYouUse (fs_globals s) env header_lines filename clean_lines
        (fs_include s)),
      \<lambda>s. if IsSourceExtension (fs_globals s) file_extension
          then check_with error (header_included env filename) s else (s, None),
      check_with error (\<lambda>_. reporting
        (CheckForBadCharacters filename (map (map of_char) lines) @ CheckForNewlineAtEOF filename lines))]"

definition header_guard ::
  "lint_globals handler \<Rightarrow> os_env \<Rightarrow> string \<Rightarrow> string \<Rightarrow> cleansed_lines \<Rightarrow> lint_globals action" where
  "header_guard error env filename file_extension clean_lines g =
     (if IsHeaderExtension g file_extension
      then case CheckForHeaderGuard error env filename clean_lines g of
          None \<Rightarrow> (g, Some NoReturn) | Some g' \<Rightarrow> (g', None)
      else (g, None))"

definition first_marker :: string where
  "first_marker = ''// marker so line numbers and indices both start at 1''"

definition last_marker :: string where
  "last_marker = ''// marker so line numbers end in a known way''"

text \<open>The state before the lines are cleansed, and the lines without comments over several lines.\<close>

definition start_file ::
  "lint_globals handler \<Rightarrow> string \<Rightarrow> string list \<Rightarrow> lint_globals \<Rightarrow> string list \<times> lint_globals" where
  "start_file error filename lines g =
     (let g1 = ResetNolintSuppressions g;
          g2 = ProcessGlobalSuppresions lines (emit error (CheckForCopyright filename lines) g1)
      in case RemoveMultiLineComments filename lines of
           (lines', rs) \<Rightarrow> (lines', emit error rs g2))"

definition ProcessFileData ::
  "lint_globals handler \<Rightarrow> os_env \<Rightarrow> (string \<Rightarrow> string list option) \<Rightarrow> string \<Rightarrow> string \<Rightarrow> string list \<Rightarrow>
   lint_globals action" where
  "ProcessFileData error env header_lines filename file_extension lines0 g =
     (case start_file error filename ([first_marker] @ lines0 @ [last_marker]) g of
        (lines, g1) \<Rightarrow>
          (case CleansedLines lines of
             Inl e \<Rightarrow> (g1, Some e)
           | Inr clean_lines \<Rightarrow>
               (case perform
                   [on_globals (header_guard error env filename file_extension clean_lines),
                    process_lines error env filename file_extension clean_lines,
                    finish_file error env header_lines filename file_extension lines clean_lines]
                   \<lparr>fs_include = init_include_state, fs_function = init_function_state,
                    fs_nesting = init_nesting_state, fs_globals = g1\<rparr> of
                  (s, e) \<Rightarrow> (fs_globals s, e))))"

section \<open>The reports of a line\<close>

lemma FlagCxx11Features_ok:
  "linenum < NumLines c \<Longrightarrow> reports_ok f (NumLines c) (FlagCxx11Features f c linenum)"
  unfolding FlagCxx11Features_def Let_def
  by (intro outcome_intros reports_ok_concat_map) auto

lemma CheckForMultilineCommentsAndStrings_ok:
  "linenum < NumLines c \<Longrightarrow> reports_ok f (NumLines c) (CheckForMultilineCommentsAndStrings f c linenum)"
  unfolding CheckForMultilineCommentsAndStrings_def Let_def by (intro outcome_intros) auto

lemma CheckPosixThreading_ok:
  "linenum < NumLines c \<Longrightarrow> reports_ok f (NumLines c) (CheckPosixThreading f c linenum)"
  unfolding CheckPosixThreading_def Let_def by (intro outcome_intros reports_ok_concat_map) auto

lemma CheckVlogArguments_ok:
  "linenum < NumLines c \<Longrightarrow> reports_ok f (NumLines c) (CheckVlogArguments f c linenum)"
  unfolding CheckVlogArguments_def by (intro outcome_intros) auto

lemma CheckInvalidIncrement_ok:
  "linenum < NumLines c \<Longrightarrow> reports_ok f (NumLines c) (CheckInvalidIncrement f c linenum)"
  unfolding CheckInvalidIncrement_def by (intro outcome_intros) auto

lemma disallow_loop_ok: "\<forall>i\<in>set is. i < n \<Longrightarrow> reports_ok f n (disallow_loop f name els is seen)"
  by (induction "is" arbitrary: seen) (auto intro!: outcome_intros split: option.split)

lemma CheckEnd_ok:
  assumes "linenum < NumLines c"
  shows "reports_ok f (NumLines c) (CheckEnd f c linenum b)"
proof -
  have "reports_ok f (NumLines c) (class_check_end f c linenum k ci)" for k ci
    using assms unfolding class_check_end_def
    by (intro outcome_intros disallow_loop_ok) auto
  moreover have "reports_ok f (NumLines c) (namespace_check_end f c linenum k name)" for k name
    using assms unfolding namespace_check_end_def Let_def by (intro outcome_intros) auto
  ultimately show ?thesis by (simp add: CheckEnd_def split: block_kind.split)
qed

lemma brace_loop_reports:
  "linenum < NumLines c \<Longrightarrow> reports_ok f (NumLines c) (snd (brace_loop f c linenum line s))"
proof (induction f c linenum line s rule: brace_loop.induct)
  case (1 f c linenum line s)
  show ?case
  proof (cases "Match brace_re line")
    case (Some m)
    obtain s1 rs where t: "brace_token f c linenum (grp m 1) line s = (s1, rs)" by fastforce
    then have "reports_ok f (NumLines c) rs"
      using CheckEnd_ok [OF 1(2)] by (auto simp: brace_token_def split: if_splits)
    with 1(1) [OF Some t [symmetric] 1(2)] Some t show ?thesis
      by (subst brace_loop.simps) (auto split: prod.split intro: reports_ok_append)
  qed (subst brace_loop.simps, simp)
qed

lemma Update_reports:
  assumes "Update f c linenum s = Inr (s', rs)" and "linenum < NumLines c"
  shows "reports_ok f (NumLines c) rs"
proof -
  have "reports_ok f (NumLines c) (snd (access_step f linenum line s))" for line s
    using assms(2) by (auto simp: access_step_def intro!: outcome_intros
        split: list.split block_kind.split option.split)
  moreover from assms(1) obtain line1 s1 line2 s2 rs1 rs2 where
    "rs1 = snd (access_step f linenum line1 s1)" "rs2 = snd (brace_loop f c linenum line2 s2)" "rs = rs1 @ rs2"
    by (auto simp: Update_def Let_def split: prod.splits sum.splits) (metis snd_conv)
  ultimately show ?thesis using brace_loop_reports [OF assms(2)] by (simp add: reports_ok_append)
qed

section \<open>The guard of a header\<close>

lemma guard_scan_bounds:
  "\<lbrakk>gs_ifndef_linenum s < N; gs_endif_linenum s < N; k + length ls \<le> N\<rbrakk> \<Longrightarrow>
   gs_ifndef_linenum (guard_scan_lines k ls s) < N \<and> gs_endif_linenum (guard_scan_lines k ls s) < N"
proof (induction k ls s rule: guard_scan_lines.induct)
  case (2 k l ls s)
  then show ?case by (auto simp: guard_step_def Let_def)
qed simp

lemma check_endif_ok:
  "gs_endif_linenum s < n \<Longrightarrow> reports_ok f n (check_endif f raw v s)"
  unfolding check_endif_def Let_def by (auto intro!: outcome_intros split: option.split)

section \<open>Comments over several lines\<close>

lemma comment_start_opens:
  "FindNextMultiLineCommentStart lines i < length lines \<Longrightarrow>
   opens_comment (lines ! FindNextMultiLineCommentStart lines i)"
proof (induction lines i rule: FindNextMultiLineCommentStart.induct)
  case (1 lines i)
  then show ?case
    by (subst (asm) (2) FindNextMultiLineCommentStart.simps, subst FindNextMultiLineCommentStart.simps)
      (auto split: if_splits)
qed

lemma remove_comments_keeps:
  "\<lbrakk>j < length lines; j < i \<or> j = i \<and> \<not> opens_comment (lines ! j)\<rbrakk> \<Longrightarrow>
   fst (remove_comments_from f lines i) ! j = lines ! j"
proof (induction f lines i rule: remove_comments_from.induct)
  case (1 f lines i)
  define b where "b = FindNextMultiLineCommentStart lines i"
  define e where "e = FindNextMultiLineCommentEnd lines b"
  show ?case
  proof (cases "i < length lines \<and> b < length lines \<and> e < length lines")
    case True
    have "i \<le> b" "b \<le> e" using True comment_start_ge [of i lines] comment_end_ge [of b lines]
      by (simp_all add: b_def e_def)
    moreover have "opens_comment (lines ! b)" using comment_start_opens [of lines i] True by (simp add: b_def)
    ultimately have "j < b" using "1.prems"(2) le_neq_implies_less by (cases "b = i") auto
    let ?l = "RemoveMultiLineCommentsFromRange lines b (e + 1)"
    have "fst (remove_comments_from f ?l (e + 1)) ! j = ?l ! j"
      using "1.IH" [OF _ b_def _ e_def] True \<open>j < b\<close> \<open>b \<le> e\<close> "1.prems"(1) by simp
    also have "\<dots> = lines ! j" using RemoveRange_nth [OF "1.prems"(1)] \<open>j < b\<close> by simp
    finally show ?thesis using True
      by (subst remove_comments_from.simps) (simp add: Let_def b_def [symmetric] e_def [symmetric])
  next
    case False
    then show ?thesis
      by (subst remove_comments_from.simps) (auto simp: Let_def b_def e_def)
  qed
qed

lemma remove_comments_reports:
  "\<lbrakk>length lines = n; 0 < n; \<not> opens_comment (lines ! (n - 1))\<rbrakk> \<Longrightarrow>
   length (fst (remove_comments_from f lines i)) = n \<and>
   reports_ok f n (snd (remove_comments_from f lines i))"
proof (induction f lines i rule: remove_comments_from.induct)
  case (1 f lines i)
  define b where "b = FindNextMultiLineCommentStart lines i"
  define e where "e = FindNextMultiLineCommentEnd lines b"
  consider "\<not> i < length lines \<or> \<not> b < length lines" | "i < length lines" "b < length lines" "\<not> e < length lines"
    | "i < length lines" "b < length lines" "e < length lines" by blast
  then show ?case
  proof cases
    case 2
    have "b \<noteq> n - 1" using comment_start_opens [of lines i] 2(2) "1.prems"(3) by (auto simp: b_def)
    then have "Suc b < n" using 2 "1.prems" by linarith
    from report_ok_mk [OF this] show ?thesis using 2 "1.prems"
      by (subst (1 2) remove_comments_from.simps)
        (simp add: Let_def b_def [symmetric] e_def [symmetric] reports_ok_def add.commute [of _ 1])
  next
    case 3
    let ?l = "RemoveMultiLineCommentsFromRange lines b (e + 1)"
    have "\<not> opens_comment (?l ! (n - 1))"
      using RemoveRange_nth [of "n - 1" lines] "1.prems" dummy_comment by simp
    with "1.IH" [OF _ b_def _ e_def] 3 "1.prems" show ?thesis
      by (subst (1 2) remove_comments_from.simps) (simp add: Let_def b_def [symmetric] e_def [symmetric])
  qed (use "1.prems" in \<open>subst (1 2) remove_comments_from.simps, auto simp: Let_def b_def\<close>)
qed

text \<open>The first marker is no code: the checks see an empty line.\<close>

lemma marker_elided:
  assumes "CleansedLines (first_marker # rest) = Inr c"
  shows "elided c ! 0 = []"
proof -
  have m: "raw_starts first_marker = (first_marker, None)"
    "CleanseComments (CollapseStrings first_marker) = []" by code_simp+
  with assms show ?thesis
    by (cases "cleanse_raw None rest") (auto simp: CleansedLines_def CleanseRawStrings_def)
qed

lemma perform_range:
  assumes "\<And>i. \<lbrakk>m \<le> i; i < k\<rbrakk> \<Longrightarrow> steady E (P i) (f i)"
    and "\<And>i j s. \<lbrakk>i \<le> j; P i s\<rbrakk> \<Longrightarrow> P j s" and "m \<le> k" and "P m s"
  shows "P k (fst (perform (map f [m..<k]) s)) \<and> set_option (snd (perform (map f [m..<k]) s)) \<subseteq> E"
  using assms(3,4,1)
proof (induction "k - m" arbitrary: m s)
  case 0
  then show ?case by simp
next
  case (Suc d)
  then have m: "m < k" by simp
  from steadyD [OF Suc.prems(3) [OF order_refl m] Suc.prems(2)]
  have step: "P m (fst (f m s))" "set_option (snd (f m s)) \<subseteq> E" by auto
  show ?case
  proof (cases "snd (f m s)")
    case None
    have "P (Suc m) (fst (f m s))" using assms(2) [OF le_SucI [OF order_refl] step(1)] .
    with Suc.hyps(1) [of "Suc m" "fst (f m s)"] Suc.hyps(2) Suc.prems(3) m None show ?thesis
      by (cases "f m s") (simp add: upt_conv_Cons and_then_def)
  next
    case (Some e)
    with step assms(2) [of m k] m show ?thesis
      by (cases "f m s") (simp add: upt_conv_Cons and_then_def)
  qed
qed

section \<open>The checks of a whole file\<close>

lemma CheckCompletedBlocks_ok:
  assumes "nesting_ok k s" and "k < n"
  shows "reports_ok f n (CheckCompletedBlocks f s)"
proof -
  have "starting_linenum b < n" if "b \<in> set (stack s)" for b
    using assms that by (auto simp: nesting_ok_def stack_ok_def list_all_iff)
  then show ?thesis unfolding CheckCompletedBlocks_def
    by (intro reports_ok_concat_map) (auto intro!: outcome_intros split: block_kind.split)
qed

lemma bad_characters_ok: "k + length ls \<le> n \<Longrightarrow> reports_ok f n (bad_characters_from f k ls)"
  by (induction ls arbitrary: k) (auto simp: reports_ok_def intro!: report_ok_mk)

lemma CheckForNewlineAtEOF_ok: "2 \<le> length ls \<Longrightarrow> reports_ok f (length ls) (CheckForNewlineAtEOF f ls)"
  by (auto simp: CheckForNewlineAtEOF_def reports_ok_def report_ok_def mk_report_def)

lemma CheckForCopyright_ok: "0 < n \<Longrightarrow> reports_ok f n (CheckForCopyright f ls)"
  by (auto simp: CheckForCopyright_def reports_ok_def report_ok_def mk_report_def)

lemma first_include_of_line:
  "first_include_of h fs first = Some r \<Longrightarrow> r = first \<or> (\<exists>l\<in>snd ` set fs. r = Some l)"
  by (induction h fs first rule: first_include_of.induct) (auto split: if_splits)

lemma check_header_exts_lines:
  "\<lbrakk>check_header_exts env repo f base incs exts = Some rs; (l, m) \<in> set rs\<rbrakk> \<Longrightarrow>
   l = None \<or> (\<exists>k\<in>snd ` set incs. l = Some k)"
proof (induction exts arbitrary: rs)
  case (Cons ext exts)
  show ?case
    using Cons.prems Cons.IH first_include_of_line
    by (fastforce simp: Let_def split: if_splits option.splits)
qed simp

text \<open>A report on a line of the file, or on no line.\<close>

lemma header_included_reports:
  assumes "includes_ok n (fs_include s)" and "r \<in> set (fst (header_included env f s))"
  shows "report_ok f n r \<or> (\<exists>m. r = mk_report f no_line ''build/include'' 5 m)"
proof -
  from assms(2) obtain rs l m where r: "CheckHeaderFileIncluded (fs_globals s) env f (fs_include s) = Some rs"
    "(l, m) \<in> set rs" "r = mk_report f (case l of None \<Rightarrow> no_line | Some n \<Rightarrow> n) ''build/include'' 5 m"
    by (cases "CheckHeaderFileIncluded (fs_globals s) env f (fs_include s)")
      (auto simp: header_included_def reporting_def)
  let ?incs = "concat (include_list (fs_include s))"
  from r(1,2) obtain repo base exts where "check_header_exts env repo f base ?incs exts = Some rs"
    by (auto simp: CheckHeaderFileIncluded_def split: option.splits if_splits)
  from check_header_exts_lines [OF this r(2)]
  have "l = None \<or> (\<exists>k\<in>snd ` set ?incs. l = Some k)" .
  moreover have "report_ok f n (mk_report f k ''build/include'' 5 m)"
    if "k \<in> snd ` set (concat (include_list (fs_include s)))" for k
    using assms(1) that by (fastforce simp: includes_ok_def report_ok_def mk_report_def)
  ultimately show ?thesis using r(3) by (cases l) auto
qed

lemma header_included_error: "set_option (snd (header_included env f s)) \<subseteq> {NoReturn}"
  by (cases "CheckHeaderFileIncluded (fs_globals s) env f (fs_include s)")
    (simp_all add: header_included_def reporting_def)

section \<open>What a callback has to keep while a file is read\<close>

text \<open>The invariant of the state of a file, up to line \<open>l\<close>.\<close>

definition file_ok :: "(lint_globals \<Rightarrow> bool) \<Rightarrow> nat \<Rightarrow> nat \<Rightarrow> file_state \<Rightarrow> bool" where
  "file_ok I n l s \<longleftrightarrow> I (fs_globals s) \<and> includes_ok n (fs_include s) \<and>
     (\<exists>k\<le>l. nesting_ok k (fs_nesting s))"

lemma file_ok_mono: "file_ok I n l s \<Longrightarrow> l \<le> l' \<Longrightarrow> file_ok I n l' s"
  by (meson file_ok_def order_trans)

locale file_callback = lint_callback error inv filename n
  for error :: "lint_globals handler" and inv :: "lint_globals \<Rightarrow> bool" and filename :: string and n :: nat +
  assumes inv_no_line: "inv g \<Longrightarrow> inv (error (mk_report filename no_line ''build/include'' 5 m) g)"
    and inv_global: "inv g \<Longrightarrow> inv (ProcessGlobalSuppresions lines g)"
    and inv_reset: "inv g \<Longrightarrow> inv (ResetNolintSuppressions g)"
begin

lemma on_globals_steady:
  assumes "\<And>s. file_ok inv n l s \<Longrightarrow> steady E inv (a s)"
  shows "steady E (file_ok inv n l) (\<lambda>s. on_globals (a s) s)"
  using assms by (fastforce simp: steady_def file_ok_def on_globals_def split: prod.split)

lemma check_steady:
  assumes "\<And>s. file_ok inv n l s \<Longrightarrow> outcome_may E filename n (oc s)"
  shows "steady E (file_ok inv n l) (check_with error oc)"
proof -
  have "steady E (file_ok inv n l) (\<lambda>s. on_globals (run_outcome error (oc s)) s)"
    by (rule on_globals_steady) (rule run_steady [OF assms])
  then show ?thesis by (simp add: check_with_def [abs_def])
qed

lemma update_steady:
  assumes c: "lines_ok c" "NumLines c = n" and l: "l < n"
  shows "steady E (file_ok inv n l) (update_nesting error filename c l)"
proof (rule steadyI)
  fix s assume s: "file_ok inv n l s"
  then obtain k where k: "k \<le> l" "nesting_ok k (fs_nesting s)" by (auto simp: file_ok_def)
  from update_keeps_nesting [OF k(2,1), of c filename] c(1)
  obtain nesting rs where u: "Update filename c l (fs_nesting s) = Inr (nesting, rs)" "nesting_ok l nesting"
    by (auto simp: lines_ok_def split: sum.splits)
  from Update_reports [OF u(1)] c l have "reports_ok filename n rs" by simp
  with emit_inv s u show "file_ok inv n l (fst (update_nesting error filename c l s)) \<and>
      set_option (snd (update_nesting error filename c l s)) \<subseteq> E"
    by (auto simp: update_nesting_def file_ok_def)
qed

lemma function_lengths_steady:
  assumes "NumLines c = n" and "l < n"
  shows "steady E (file_ok inv n l) (function_lengths error filename c l)"
proof (rule steadyI)
  fix s assume s: "file_ok inv n l s"
  obtain fs rs where r: "CheckForFunctionLengths (VerboseLevel (fs_globals s)) filename c l (fs_function s) = (fs, rs)"
    by (rule prod.exhaust)
  with CheckForFunctionLengths_ok [of l c filename "VerboseLevel (fs_globals s)" "fs_function s"] assms
  have "reports_ok filename n rs" by simp
  with s show "file_ok inv n l (fst (function_lengths error filename c l s)) \<and>
      set_option (snd (function_lengths error filename c l s)) \<subseteq> E"
    by (auto simp: function_lengths_def r file_ok_def intro!: emit_inv)
qed

lemma language_steady:
  assumes "NumLines c = n" and "l < n"
  shows "steady {IndexError, NoReturn} (file_ok inv n l) (language error env filename ext c l)"
proof (rule steadyI)
  fix s assume s: "file_ok inv n l s"
  obtain inc oc where r: "CheckLanguage (fs_globals s) env filename c l ext (fs_include s) = (inc, oc)"
    by (rule prod.exhaust)
  then have "includes_ok n inc" "outcome_may {IndexError, NoReturn} filename n oc"
    using CheckLanguage_includes [of n "fs_include s" l "fs_globals s" env filename c ext]
      CheckLanguage_ok [of l c filename "fs_globals s" env ext "fs_include s"] assms s
    by (auto simp: file_ok_def)
  then have "steady {IndexError, NoReturn} (file_ok inv n l) (\<lambda>s. on_globals (run_outcome error oc) s)"
    "file_ok inv n l (s\<lparr>fs_include := inc\<rparr>)"
    using s by (auto intro: on_globals_steady run_steady simp: file_ok_def)
  then show "file_ok inv n l (fst (language error env filename ext c l s)) \<and>
      set_option (snd (language error env filename ext c l s)) \<subseteq> {IndexError, NoReturn}"
    using steadyD by (fastforce simp: language_def r)
qed

lemma ProcessLine_steady:
  assumes c: "lines_ok c" "NumLines c = n" and l: "l < n" "0 < l \<or> elided c ! l = []"
  shows "steady {IndexError, NoReturn} (file_ok inv n l) (ProcessLine error env filename ext c l)"
proof -
  let ?E = "{IndexError, NoReturn}"
  note l' = l(1) [folded c(2)]
  have nolint: "steady ?E inv (\<lambda>g. (ParseNolintSuppressions error filename raw (int l) g, None))" for raw
    using nolint_inv l(1) by (simp add: steady_def)
  have "steady ?E (file_ok inv n l) (begin_line error filename c l)"
    unfolding begin_line_def
    by (rule steady_perform)
      (use update_steady [OF c l(1)] on_globals_steady [OF nolint]
        check_steady [OF outcome_may_reporting [OF CheckForNamespaceIndentation_ok [OF l', unfolded c(2)]]] in auto)
  moreover have "steady ?E (file_ok inv n l) (check_line error env filename ext c l)"
  proof -
    have style: "steady ?E (file_ok inv n l) (\<lambda>s. on_globals (CheckStyle error env filename c l ext (fs_nesting s)) s)"
      by (rule on_globals_steady) (rule CheckStyle_steady [OF c(1) c(2) [symmetric] l(2,1)], simp)
    have rep: "steady ?E (file_ok inv n l) (check_with error (\<lambda>_. reporting rs))"
      if "reports_ok filename (NumLines c) rs" for rs
      using that c(2) by (intro check_steady outcome_may_reporting) simp
    have may: "steady ?E (file_ok inv n l) (check_with error oc)"
      if "\<And>s. outcome_may E filename (NumLines c) (oc s)" "E \<subseteq> ?E" for oc E
      using that c(2) by (intro check_steady) (auto intro: outcome_may_mono)
    note checks = function_lengths_steady [OF c(2) l(1)] style language_steady [OF c(2) l(1)]
      rep [OF CheckForMultilineCommentsAndStrings_ok [OF l']]
      may [OF CheckForNonConstReference_ok [OF c(1) l']] may [OF CheckForNonStandardConstructs_ok [OF l']]
      rep [OF reports_ok_append [OF CheckVlogArguments_ok [OF l'] reports_ok_append [OF CheckPosixThreading_ok [OF l']
        reports_ok_append [OF CheckInvalidIncrement_ok [OF l'] CheckMakePairUsesDeduction_ok [OF l']]]]]
      may [OF CheckRedundantVirtual_ok [OF c(1) l']] rep [OF CheckRedundantOverrideOrFinal_ok [OF l']]
    show ?thesis unfolding check_line_def by (rule steady_perform) (use checks in auto)
  qed
  then have "steady ?E (file_ok inv n l) (\<lambda>s. if InAsmBlock (fs_nesting s) then (s, None)
      else check_line error env filename ext c l s)"
    by (simp add: steady_def)
  ultimately show ?thesis unfolding ProcessLine_def [abs_def] by (rule steady_and_then)
qed

lemma process_lines_keep:
  assumes c: "lines_ok c" "NumLines c = n" and n: "0 < n" and l0: "elided c ! 0 = []" and s: "file_ok inv n 0 s"
  shows "file_ok inv n (n - 1) (fst (process_lines error env filename ext c s)) \<and>
    set_option (snd (process_lines error env filename ext c s)) \<subseteq> {IndexError, NoReturn}"
proof -
  let ?E = "{IndexError, NoReturn}"
  let ?f = "\<lambda>l. and_then (ProcessLine error env filename ext c l)
    (check_with error (\<lambda>_. reporting (FlagCxx11Features filename c l)))"
  let ?P = "\<lambda>l. file_ok inv n (min l (n - 1))"
  have "steady ?E (?P l) (?f l)" if "l < n" for l
  proof -
    have "0 < l \<or> elided c ! l = []" using l0 by (cases l) auto
    moreover have "reports_ok filename n (FlagCxx11Features filename c l)"
      using FlagCxx11Features_ok [of l c filename] that c(2) by simp
    ultimately have "steady ?E (file_ok inv n l) (?f l)"
      by (intro steady_and_then ProcessLine_steady [OF c that] check_steady outcome_may_reporting)
    with that show ?thesis by (simp add: min_absorb1)
  qed
  then have "?P n (fst (perform (map ?f [0..<n]) s)) \<and> set_option (snd (perform (map ?f [0..<n]) s)) \<subseteq> ?E"
    by (intro perform_range) (use s in \<open>auto elim: file_ok_mono\<close>)
  then show ?thesis using c(2) n by (simp add: process_lines_def min_absorb2)
qed

lemma header_guard_steady:
  assumes c: "lines_ok c" "NumLines c = n" and n: "0 < n"
  shows "steady {NoReturn} inv (header_guard error env filename ext c)"
proof (rule steadyI)
  fix g assume g: "inv g"
  let ?raw = "lines_without_raw_strings c"
  define scan where "scan = guard_scan_lines 0 ?raw init_guard_scan"
  have b: "gs_ifndef_linenum scan < n" "gs_endif_linenum scan < n"
    using guard_scan_bounds [of init_guard_scan n 0 ?raw] c n
    by (simp_all add: scan_def init_guard_scan_def lines_ok_def)
  have "inv g'" if "CheckForHeaderGuard error env filename c g = Some g'" for g'
    using that g b n report_ok_mk [of 0 n]
    by (auto simp: CheckForHeaderGuard_def Let_def scan_def [symmetric] split: if_splits
        intro!: emit_inv inv_error nolint_inv check_endif_ok report_ok_mk)
  with g show "inv (fst (header_guard error env filename ext c g)) \<and>
      set_option (snd (header_guard error env filename ext c g)) \<subseteq> {NoReturn}"
    by (auto simp: header_guard_def split: option.split)
qed

lemma emit_header_included:
  "\<lbrakk>\<forall>r\<in>set rs. report_ok filename n r \<or> (\<exists>m. r = mk_report filename no_line ''build/include'' 5 m); inv g\<rbrakk>
   \<Longrightarrow> inv (emit error rs g)"
  by (induction rs arbitrary: g) (auto intro: inv_error inv_no_line)

lemma finish_file_steady:
  assumes c: "NumLines c = n" "length ls = n" and n: "2 \<le> n"
  shows "steady {IndexError, NoReturn} (file_ok inv n (n - 1)) (finish_file error env hl filename ext ls c)"
proof -
  let ?E = "{IndexError, NoReturn}" and ?P = "file_ok inv n (n - 1)"
  have "steady ?E ?P (check_with error (\<lambda>s. reporting (CheckCompletedBlocks filename (fs_nesting s))))"
    using n by (intro check_steady outcome_may_reporting) (auto simp: file_ok_def intro!: CheckCompletedBlocks_ok)
  moreover have "steady ?E ?P (check_with error (\<lambda>s. CheckForIncludeWhatYouUse (fs_globals s) env hl filename c
      (fs_include s)))"
    by (intro check_steady outcome_may_mono [OF CheckForIncludeWhatYouUse_ok [of filename c, unfolded c(1)]]) auto
  moreover have "steady ?E ?P (\<lambda>s. if IsSourceExtension (fs_globals s) ext
      then check_with error (header_included env filename) s else (s, None))"
  proof (rule steadyI)
    fix s assume s: "?P s"
    then have "includes_ok n (fs_include s)" "inv (fs_globals s)" by (simp_all add: file_ok_def)
    then have "inv (emit error (fst (header_included env filename s)) (fs_globals s))"
      using header_included_reports by (intro emit_header_included) blast+
    with s header_included_error [of env filename s]
    show "?P (fst (if IsSourceExtension (fs_globals s) ext then check_with error (header_included env filename) s
          else (s, None))) \<and> set_option (snd (if IsSourceExtension (fs_globals s) ext
          then check_with error (header_included env filename) s else (s, None))) \<subseteq> ?E"
      by (auto simp: check_with_def on_globals_def run_outcome_def file_ok_def)
  qed
  moreover have "steady ?E ?P (check_with error (\<lambda>_. reporting
      (CheckForBadCharacters filename (map (map of_char) ls) @ CheckForNewlineAtEOF filename ls)))"
    using bad_characters_ok [of 0 "map (map of_char) ls" n filename] CheckForNewlineAtEOF_ok [of ls filename] c(2) n
    by (intro check_steady outcome_may_reporting reports_ok_append) (simp_all add: CheckForBadCharacters_def)
  ultimately show ?thesis unfolding finish_file_def by (intro steady_perform) auto
qed

lemma start_file_lines: "fst (start_file h f ls g) = fst (remove_comments_from f ls 0)"
  by (simp add: start_file_def RemoveMultiLineComments_def Let_def case_prod_beta)

lemma start_file_keeps:
  assumes "inv g" and "length ls = n" and "0 < n" and "\<not> opens_comment (ls ! (n - 1))"
  shows "inv (snd (start_file error filename ls g)) \<and> length (fst (start_file error filename ls g)) = n"
proof -
  have "inv (ProcessGlobalSuppresions ls (emit error (CheckForCopyright filename ls) (ResetNolintSuppressions g)))"
    by (intro inv_global emit_inv inv_reset CheckForCopyright_ok assms)
  with remove_comments_reports [OF assms(2-4), of filename 0] show ?thesis
    by (auto simp: start_file_def RemoveMultiLineComments_def Let_def case_prod_beta intro: emit_inv)
qed

lemma ProcessFileData_keeps:
  assumes g: "inv g" and n: "n = length ls + 2"
  shows "inv (fst (ProcessFileData error env hl filename ext ls g)) \<and>
    set_option (snd (ProcessFileData error env hl filename ext ls g)) \<subseteq> {IndexError, NoReturn}"
proof -
  let ?ls = "[first_marker] @ ls @ [last_marker]" and ?E = "{IndexError, NoReturn}"
  have len: "length ?ls = n" "?ls ! (n - 1) = last_marker" "2 \<le> n" using n by (simp_all add: nth_append)
  have markers: "\<not> opens_comment last_marker" "\<not> opens_comment first_marker" by code_simp+
  obtain ls1 g1 where st: "start_file error filename ?ls g = (ls1, g1)" by (rule prod.exhaust)
  have "\<not> opens_comment (?ls ! (n - 1))" using markers(1) len(2) by simp
  from start_file_keeps [OF g len(1) _ this] st len(3) have g1: "inv g1" "length ls1 = n" by auto
  have "fst (start_file error filename ?ls g) ! 0 = first_marker"
    unfolding start_file_lines using remove_comments_keeps [of 0 ?ls 0 filename] markers(2) by simp
  then have "ls1 ! 0 = first_marker" unfolding st by simp
  then obtain rest where ls1: "ls1 = first_marker # rest" using g1(2) len(3) by (cases ls1) auto
  from cleansed_lines_same_length [of ls1] obtain c where c: "CleansedLines ls1 = Inr c" "lines_ok c" "NumLines c = n"
    using g1(2) by (auto simp: lines_ok_def split: sum.splits)
  have l0: "elided c ! 0 = []" using marker_elided c(1) ls1 by simp
  define s0 where "s0 = \<lparr>fs_include = init_include_state, fs_function = init_function_state,
    fs_nesting = init_nesting_state, fs_globals = g1\<rparr>"
  have s0: "file_ok inv n 0 s0"
    using g1(1) by (auto simp: s0_def file_ok_def includes_ok_def init_include_state_def ResetSection_def
        nesting_ok_def stack_ok_def init_nesting_state_def)
  have guard: "steady ?E (file_ok inv n 0) (on_globals (header_guard error env filename ext c))"
    using header_guard_steady [OF c(2,3), of env ext] len(3)
    by (intro on_globals_steady) (auto intro: steady_mono)
  let ?acts = "[on_globals (header_guard error env filename ext c), process_lines error env filename ext c,
    finish_file error env hl filename ext ls1 c]"
  obtain s1 e1 where s1: "on_globals (header_guard error env filename ext c) s0 = (s1, e1)" by (rule prod.exhaust)
  with steadyD [OF guard s0] have ok1: "file_ok inv n 0 s1" "set_option e1 \<subseteq> ?E" by auto
  obtain s2 e2 where s2: "process_lines error env filename ext c s1 = (s2, e2)" by (rule prod.exhaust)
  have ok2: "file_ok inv n (n - 1) s2" "set_option e2 \<subseteq> ?E"
    using process_lines_keep [OF c(2,3) _ l0 ok1(1), of env ext] s2 len(3) by auto
  obtain s3 e3 where s3: "finish_file error env hl filename ext ls1 c s2 = (s3, e3)" by (rule prod.exhaust)
  have ok3: "file_ok inv n (n - 1) s3" "set_option e3 \<subseteq> ?E"
    using steadyD [OF finish_file_steady [OF c(3) g1(2) len(3)] ok2(1), of env hl ext] s3 by auto
  have "inv (fs_globals (fst (perform ?acts s0))) \<and> set_option (snd (perform ?acts s0)) \<subseteq> ?E"
    using s1 s2 s3 ok1 ok2 ok3 by (auto simp: and_then_def file_ok_def split: option.splits)
  then show ?thesis
    unfolding ProcessFileData_def st prod.case c(1) sum.case s0_def [symmetric]
    by (simp only: case_prod_beta fst_conv snd_conv)
qed

end

section \<open>The linter as the callback\<close>

text \<open>The state without what NOLINT comments and the text of the file suppress.\<close>

definition unsuppressed :: "lint_globals \<Rightarrow> lint_globals" where
  "unsuppressed g = g\<lparr>error_suppressions := \<lambda>_. {}, global_suppressions := \<lambda>_. False\<rparr>"

text \<open>A report that the verbosity level and the filters let pass, and a report on a file.\<close>

definition may_show :: "lint_globals \<Rightarrow> report \<Rightarrow> bool" where
  "may_show g r \<longleftrightarrow> verbose_level (lint g) \<le> r_confidence r \<and> \<not> filtered_out (Filters g) (r_category r)"

definition file_report :: "string \<Rightarrow> nat \<Rightarrow> report \<Rightarrow> bool" where
  "file_report filename n r \<longleftrightarrow> report_ok filename n r \<or>
     r = mk_report filename no_line ''build/include'' 5 (r_message r)"

text \<open>Since \<open>g0\<close>, only reports that may be shown have been written.\<close>

definition written_since :: "string \<Rightarrow> nat \<Rightarrow> lint_globals \<Rightarrow> lint_globals \<Rightarrow> bool" where
  "written_since filename n g0 g \<longleftrightarrow>
     (\<exists>rs. list_all (\<lambda>r. file_report filename n r \<and> may_show g0 r) rs \<and>
       unsuppressed g = emit write_error rs (unsuppressed g0))"

lemma unsuppressed_write_error: "unsuppressed (write_error r g) = write_error r (unsuppressed g)"
  by (simp add: unsuppressed_def write_error_def PrintError_def Let_def)

lemma unsuppressed_simps [simp]: "lint (unsuppressed g) = lint g" "filters_ok (unsuppressed g) = filters_ok g"
  by (simp_all add: unsuppressed_def filters_ok_def Filters_def)

lemma emit_write_frame [simp]:
  "filters (lint (emit write_error rs g)) = filters (lint g)"
  "verbose_level (lint (emit write_error rs g)) = verbose_level (lint g)"
  "output_format (lint (emit write_error rs g)) = output_format (lint g)"
  "error_count (lint (emit write_error rs g)) = error_count (lint g) + int (length rs)"
  by (induction rs arbitrary: g) simp_all

lemma unsuppressed_lint: "unsuppressed g = g' \<Longrightarrow> lint g = lint g'"
  by auto

lemma written_since_frame:
  assumes "written_since f n g0 g"
  shows "filters (lint g) = filters (lint g0)" "verbose_level (lint g) = verbose_level (lint g0)"
    "output_format (lint g) = output_format (lint g0)"
proof -
  from assms obtain rs where "unsuppressed g = emit write_error rs (unsuppressed g0)"
    by (auto simp: written_since_def)
  then have "lint g = lint (emit write_error rs (unsuppressed g0))" by (metis unsuppressed_simps(1))
  then show "filters (lint g) = filters (lint g0)" "verbose_level (lint g) = verbose_level (lint g0)"
    "output_format (lint g) = output_format (lint g0)" by simp_all
qed

lemma written_since_refl: "written_since f n g g"
  unfolding written_since_def by (rule exI [of _ "[]"]) simp

lemma written_since_cong: "unsuppressed g' = unsuppressed g \<Longrightarrow> written_since f n g0 g \<Longrightarrow> written_since f n g0 g'"
  by (simp add: written_since_def)

lemma written_since_Error:
  assumes "written_since f n g0 g" and ok: "filters_ok g0" and "file_report f n r"
  shows "written_since f n g0 (Error r g)"
proof -
  note frame = written_since_frame [OF assms(1)]
  have g: "filters_ok g" using ok frame by (simp add: filters_ok_def Filters_def)
  from assms(1) obtain rs where rs: "list_all (\<lambda>r. file_report f n r \<and> may_show g0 r) rs"
    "unsuppressed g = emit write_error rs (unsuppressed g0)" by (auto simp: written_since_def)
  show ?thesis
  proof (cases "accepts g r")
    case True
    then have "may_show g0 r"
      using frame by (simp add: accepts_def ShouldPrintError_eq [OF g] may_show_def Filters_def)
    with rs assms(3) True show ?thesis unfolding written_since_def
      by (intro exI [of _ "rs @ [r]"]) (simp add: Error_eq [OF g] unsuppressed_write_error)
  qed (simp add: Error_eq [OF g] assms(1))
qed

lemma unsuppressed_nolint: "unsuppressed (add_suppression k l g) = unsuppressed g"
  "unsuppressed (ResetNolintSuppressions g) = unsuppressed g"
  "unsuppressed (suppress_globally cs g) = unsuppressed g"
  by (simp_all add: unsuppressed_def add_suppression_def ResetNolintSuppressions_def suppress_globally_def)

lemma unsuppressed_global: "unsuppressed (ProcessGlobalSuppresions ls g) = unsuppressed g"
  by (induction ls arbitrary: g) (simp_all add: Let_def unsuppressed_nolint)

interpretation linter: file_callback Error "\<lambda>g. filters_ok g0 \<and> written_since filename n g0 g" filename n
  for g0 filename n
  by unfold_locales
    (auto intro: written_since_Error written_since_cong unsuppressed_nolint unsuppressed_global
      simp: file_report_def mk_report_def)

lemma ProcessFileData_unsuppressed:
  "ProcessFileData error env hl filename ext ls (unsuppressed g) = ProcessFileData error env hl filename ext ls g"
  by (simp add: ProcessFileData_def start_file_def ResetNolintSuppressions_def unsuppressed_def)

text \<open>C2: Linting the text of a file with well-formed filters never fails but for \<open>IndexError\<close> or a walk
  that does not return.  What an earlier file has suppressed has no effect on it.  Apart from the
  two tables of suppressions, all it does to the global state is to write reports, in their order:
  each names the file and either one of its lines (from 1), one of the marker lines that are put
  around them (0 and the number of lines plus 1), or, for a missing include of the own header, no
  line at all; it has a known category that the filters let pass, and a confidence between the
  verbosity level and 5.\<close>

theorem file_data_writes_reports:
  assumes "filters_ok g"
  shows "ProcessFileData Error env header_lines filename ext ls g =
      ProcessFileData Error env header_lines filename ext ls (unsuppressed g) \<and>
    (\<exists>rs. list_all (\<lambda>r. file_report filename (length ls + 2) r \<and> may_show g r) rs \<and>
      unsuppressed (fst (ProcessFileData Error env header_lines filename ext ls g)) =
        emit write_error rs (unsuppressed g) \<and>
      snd (ProcessFileData Error env header_lines filename ext ls g) \<in> {None, Some IndexError, Some NoReturn})"
proof -
  have "filters_ok g \<and> written_since filename (length ls + 2) g g" using assms written_since_refl by blast
  from linter.ProcessFileData_keeps [OF this refl, of env header_lines ext]
  show ?thesis unfolding written_since_def ProcessFileData_unsuppressed
    by (cases "snd (ProcessFileData Error env header_lines filename ext ls g)") auto
qed

definition empty_dir :: os_env where
  "empty_dir = \<lparr>cwd = ''/p'', path_exists = (\<lambda>_. False)\<rparr>"

lemma file_data_writes_reports_witness:
  "\<exists>rs. list_all (\<lambda>r. file_report ''a.cc'' 3 r \<and> may_show init_globals r) rs \<and>
     error_count (lint (fst (ProcessFileData Error empty_dir (\<lambda>_. None) ''a.cc'' ''cc'' [''int x;''] init_globals))) =
       int (length rs)"
proof -
  let ?g = "fst (ProcessFileData Error empty_dir (\<lambda>_. None) ''a.cc'' ''cc'' [''int x;''] init_globals)"
  have ok: "filters_ok init_globals" "error_count (lint init_globals) = 0" by code_simp+
  from file_data_writes_reports [OF ok(1), of empty_dir "\<lambda>_. None" "''a.cc''" "''cc''" "[''int x;'']"]
  obtain rs where rs: "list_all (\<lambda>r. file_report ''a.cc'' 3 r \<and> may_show init_globals r) rs"
    "unsuppressed ?g = emit write_error rs (unsuppressed init_globals)" by (auto simp: numeral_3_eq_3)
  have "lint ?g = lint (emit write_error rs (unsuppressed init_globals))" by (rule unsuppressed_lint [OF rs(2)])
  with rs(1) ok(2) show ?thesis by auto
qed

end
