(* ===== verification/Config.thy ===== *)
theory Config
  imports Paths
begin

text \<open>
  The configuration files of \<open>build_support/cpplint.py\<close>: \<open>ProcessConfigOverrides\<close>, which reads the
  \<open>CPPLINT.cfg\<close> files of the directories above a file.  The file system and the patterns that a
  user writes into a configuration file belong to the environment.
\<close>

section \<open>Integers and partitions of strings\<close>

text \<open>\<open>int(s)\<close>: optional white space, a sign, digits with single underscores between them;
  \<open>None\<close> where Python raises \<open>ValueError\<close>.\<close>

fun int_digits :: "nat \<Rightarrow> string \<Rightarrow> nat option" where
  "int_digits n [] = Some n"
| "int_digits n (c # cs) =
     (if is_digit c then int_digits (10 * n + (of_char c - 48)) cs
      else if c = CHR ''_'' \<and> cs \<noteq> [] \<and> is_digit (hd cs) then int_digits n cs
      else None)"

definition py_int :: "string \<Rightarrow> int option" where
  "py_int s =
     (let t = strip s;
          digits = (\<lambda>d. if d = [] \<or> \<not> is_digit (hd d) then None else map_option int (int_digits 0 d))
      in if startswith t ''-'' then map_option uminus (digits (tl t))
         else if startswith t ''+'' then digits (tl t) else digits t)"

text \<open>\<open>s.partition(c)\<close> without the separator.\<close>

definition str_partition :: "char \<Rightarrow> string \<Rightarrow> string \<times> string" where
  "str_partition c s = (takeWhile (\<lambda>x. x \<noteq> c) s, tl (dropWhile (\<lambda>x. x \<noteq> c) s))"

section \<open>\<open>ProcessConfigOverrides\<close>\<close>

text \<open>\<open>read_file\<close> gives the lines of a file, \<open>None\<close> where opening it raises \<open>IOError\<close>;
  \<open>re_match p s\<close> is \<open>re.compile(p).match(s)\<close> for a pattern from a file, which may be no
  pattern at all.\<close>

record cfg_env = os_env +
  is_file :: "string \<Rightarrow> bool"
  read_file :: "string \<Rightarrow> string list option"
  re_match :: "string \<Rightarrow> string \<Rightarrow> py_error + bool"

record cfg_state =
  keep_looking :: bool
  cfg_filters :: "string list"
  cfg_globals :: lint_globals

datatype cfg_result = Excluded lint_globals | Looked cfg_state

text \<open>A line without comments as an option and its value; \<open>None\<close> for an empty line.\<close>

definition cfg_option :: "string \<Rightarrow> (string \<times> string) option" where
  "cfg_option line0 =
     (let line = fst (str_partition CHR ''#'' line0) in
      if strip line = [] then None
      else let (name, val) = str_partition CHR ''='' line in Some (strip name, strip val))"

definition ignoring_text :: "string \<Rightarrow> string \<Rightarrow> string \<Rightarrow> string \<Rightarrow> string" where
  "ignoring_text filename cfg_file base_name val =
     (let q = [CHR 0x22] in
      ''Ignoring '' @ q @ filename @ q @ '': file excluded by '' @ q @ cfg_file @ q @
      ''. File path component '' @ q @ base_name @ q @ '' matches pattern '' @ q @ val @ q @ [CHR 0x0A])"

definition cfg_apply ::
  "'a cfg_env_scheme \<Rightarrow> string \<Rightarrow> string \<Rightarrow> string \<Rightarrow> string \<times> string \<Rightarrow> cfg_state \<Rightarrow> py_error + cfg_result" where
  "cfg_apply env filename cfg_file base_name nv st =
     (let (name, val) = nv; g = cfg_globals st;
          set = (\<lambda>g'. Inr (Looked (st\<lparr>cfg_globals := g'\<rparr>)))
      in if name = ''set noparent'' then Inr (Looked (st\<lparr>keep_looking := False\<rparr>))
         else if name = ''filter'' then Inr (Looked (st\<lparr>cfg_filters := cfg_filters st @ [val]\<rparr>))
         else if name = ''exclude_files'' then
           (if base_name = [] then Inr (Looked st)
            else case re_match env val base_name of
                Inl e \<Rightarrow> Inl e
              | Inr False \<Rightarrow> Inr (Looked st)
              | Inr True \<Rightarrow> Inr (Excluded
                  (if quiet (lint g) then g
                   else PrintInfo (ignoring_text filename cfg_file base_name val) g)))
         else if name = ''linelength'' then
           (case py_int val of
              Some n \<Rightarrow> set (g\<lparr>line_length := n\<rparr>)
            | None \<Rightarrow> set (PrintError ''Line length must be numeric.'' g))
         else if name = ''extensions'' then set (ProcessExtensionsOption val g)
         else if name = ''root'' then set (g\<lparr>root_flag := Some (os_join [os_dirname cfg_file, val])\<rparr>)
         else if name = ''headers'' then set (ProcessHppHeadersOption val g)
         else set (PrintError (''Invalid configuration option ('' @ name @ '') in file '' @ cfg_file @
                [CHR 0x0A]) g))"

fun cfg_lines ::
  "'a cfg_env_scheme \<Rightarrow> string \<Rightarrow> string \<Rightarrow> string \<Rightarrow> string list \<Rightarrow> cfg_state \<Rightarrow> py_error + cfg_result" where
  "cfg_lines env filename cfg_file base_name [] st = Inr (Looked st)"
| "cfg_lines env filename cfg_file base_name (line # lines) st =
     (case cfg_option line of
        None \<Rightarrow> cfg_lines env filename cfg_file base_name lines st
      | Some nv \<Rightarrow>
          (case cfg_apply env filename cfg_file base_name nv st of
             Inl e \<Rightarrow> Inl e
           | Inr (Excluded g) \<Rightarrow> Inr (Excluded g)
           | Inr (Looked st') \<Rightarrow> cfg_lines env filename cfg_file base_name lines st'))"

lemma os_split_shorter: "os_split p = (h, t) \<Longrightarrow> t \<noteq> [] \<Longrightarrow> length h < length p"
proof -
  assume s: "os_split p = (h, t)" "t \<noteq> []"
  let ?P = "\<lambda>c. c \<noteq> slash"
  have "length (takeWhile ?P (rev p)) + length (dropWhile ?P (rev p)) = length p"
    by (metis length_append length_rev takeWhile_dropWhile_id)
  moreover have "length h \<le> length (dropWhile ?P (rev p))"
    using s(1) by (auto simp: os_split_def Let_def length_dropWhile_le split: if_splits)
  moreover have "0 < length (takeWhile ?P (rev p))" using s by (auto simp: os_split_def Let_def)
  ultimately show ?thesis by linarith
qed

function cfg_walk ::
  "'a cfg_env_scheme \<Rightarrow> string \<Rightarrow> string \<Rightarrow> cfg_state \<Rightarrow> py_error + cfg_result" where
  "cfg_walk env filename abs_filename st =
     (case os_split abs_filename of (abs_path, base_name) \<Rightarrow>
        if base_name = [] then Inr (Looked st)
        else let cfg_file = os_join [abs_path, ''CPPLINT.cfg''] in
          if \<not> is_file env cfg_file then cfg_walk env filename abs_path st
          else (case read_file env cfg_file of
              None \<Rightarrow> Inr (Looked (st\<lparr>keep_looking := False, cfg_globals := PrintError
                (''Skipping config file '' @ [CHR 0x27] @ cfg_file @ [CHR 0x27] @
                 '': Can'' @ [CHR 0x27] @ ''t open for reading'' @ [CHR 0x0A]) (cfg_globals st)\<rparr>))
            | Some lines \<Rightarrow>
                (case cfg_lines env filename cfg_file base_name lines st of
                   Inl e \<Rightarrow> Inl e
                 | Inr (Excluded g) \<Rightarrow> Inr (Excluded g)
                 | Inr (Looked st') \<Rightarrow>
                     if keep_looking st' then cfg_walk env filename abs_path st' else Inr (Looked st'))))"
  by pat_completeness auto
termination
  by (relation "measure (\<lambda>(env, f, apath, st). length apath)") (auto dest: os_split_shorter [OF sym])

declare cfg_walk.simps [simp del]

fun add_all_filters :: "string list \<Rightarrow> lint_globals \<Rightarrow> py_error + lint_globals" where
  "add_all_filters [] g = Inr g"
| "add_all_filters (f # fs) g =
     (case AddFilters_g f g of Inl e \<Rightarrow> Inl e | Inr g' \<Rightarrow> add_all_filters fs g')"

definition ProcessConfigOverrides ::
  "'a cfg_env_scheme \<Rightarrow> string \<Rightarrow> lint_globals \<Rightarrow> py_error + bool \<times> lint_globals" where
  "ProcessConfigOverrides env filename g =
     (case cfg_walk env filename (os_abspath (os_env.truncate env) filename)
         \<lparr>keep_looking = True, cfg_filters = [], cfg_globals = g\<rparr> of
        Inl e \<Rightarrow> Inl e
      | Inr (Excluded g') \<Rightarrow> Inr (False, g')
      | Inr (Looked st) \<Rightarrow>
          map_sum id (\<lambda>g'. (True, g')) (add_all_filters (rev (cfg_filters st)) (cfg_globals st)))"

section \<open>What the configuration files do\<close>

text \<open>The options of the files that are read, from the file's own directory upwards.\<close>

function visited :: "'a cfg_env_scheme \<Rightarrow> string \<Rightarrow> (string \<times> string) list" where
  "visited env abs_filename =
     (case os_split abs_filename of (abs_path, base_name) \<Rightarrow>
        if base_name = [] then []
        else if \<not> is_file env (os_join [abs_path, ''CPPLINT.cfg'']) then visited env abs_path
        else case read_file env (os_join [abs_path, ''CPPLINT.cfg'']) of
            None \<Rightarrow> []
          | Some lines \<Rightarrow>
              let opts = List.map_filter cfg_option lines in
              opts @ (if \<exists>nv \<in> set opts. fst nv = ''set noparent'' then [] else visited env abs_path))"
  by pat_completeness auto
termination
  by (relation "measure (\<lambda>(env, apath). length apath)") (auto dest: os_split_shorter [OF sym])

declare visited.simps [simp del]

definition values_of :: "string \<Rightarrow> (string \<times> string) list \<Rightarrow> string list" where
  "values_of name opts = map snd (filter (\<lambda>nv. fst nv = name) opts)"

text \<open>The line length after a list of settings: each valid one overwrites the ones before.\<close>

definition line_length_after :: "int \<Rightarrow> string list \<Rightarrow> int" where
  "line_length_after = foldl (\<lambda>l v. case py_int v of Some n \<Rightarrow> n | None \<Rightarrow> l)"

lemma PrintError_frame [simp]:
  "Filters (PrintError m g) = Filters g" "line_length (PrintError m g) = line_length g"
  by (simp_all add: PrintError_def Filters_def)

lemma cfg_apply_effect:
  assumes "cfg_apply env filename cfg_file base_name (name, val) st = Inr (Looked st')"
  shows "cfg_filters st' = cfg_filters st @ values_of ''filter'' [(name, val)] \<and>
    Filters (cfg_globals st') = Filters (cfg_globals st) \<and>
    line_length (cfg_globals st') =
      line_length_after (line_length (cfg_globals st)) (values_of ''linelength'' [(name, val)]) \<and>
    keep_looking st' = (keep_looking st \<and> name \<noteq> ''set noparent'')"
proof -
  have frame: "Filters (g\<lparr>line_length := n\<rparr>) = Filters g" "Filters (g\<lparr>root_flag := r\<rparr>) = Filters g"
    "line_length (g\<lparr>root_flag := r\<rparr>) = line_length g"
    "Filters (ProcessExtensionsOption v g) = Filters g" "Filters (ProcessHppHeadersOption v g) = Filters g"
    "line_length (ProcessExtensionsOption v g) = line_length g"
    "line_length (ProcessHppHeadersOption v g) = line_length g" for g n r v
    by (simp_all add: Filters_def ProcessExtensionsOption_def ProcessHppHeadersOption_def)
  note unf = assms [unfolded cfg_apply_def Let_def prod.case]
  consider "name = ''set noparent''" | "name = ''filter''" | "name = ''linelength''"
    | (exclude) "name = ''exclude_files''"
    | (other) "name \<noteq> ''set noparent''" "name \<noteq> ''filter''" "name \<noteq> ''linelength''" "name \<noteq> ''exclude_files''"
    by blast
  then show ?thesis
  proof cases
    case exclude
    with unf have "st' = st" by (auto split: if_splits sum.splits bool.splits)
    with exclude show ?thesis by (simp add: values_of_def line_length_after_def)
  next
    case other
    have v: "values_of ''filter'' [(name, val)] = []" "values_of ''linelength'' [(name, val)] = []"
      using other by (simp_all add: values_of_def)
    consider "name = ''extensions''" | "name = ''root''" | "name = ''headers''"
      | "name \<noteq> ''extensions''" "name \<noteq> ''root''" "name \<noteq> ''headers''" by blast
    then have "\<exists>g'. st' = st\<lparr>cfg_globals := g'\<rparr> \<and> Filters g' = Filters (cfg_globals st) \<and>
        line_length g' = line_length (cfg_globals st)"
    proof cases
      case 4
      then show ?thesis using unf other by (simp only: if_False) (metis PrintError_frame cfg_result.inject(2) sum.inject(2))
    qed (use unf in \<open>simp, metis frame\<close>)+
    with other(1) v show ?thesis by (auto simp: line_length_after_def)
  qed (use unf in \<open>auto simp: values_of_def line_length_after_def frame split: option.splits\<close>)
qed

lemma cfg_lines_effect:
  assumes "cfg_lines env filename cfg_file base_name lines st = Inr (Looked st')"
  shows "let opts = List.map_filter cfg_option lines in
    cfg_filters st' = cfg_filters st @ values_of ''filter'' opts \<and>
    Filters (cfg_globals st') = Filters (cfg_globals st) \<and>
    line_length (cfg_globals st') =
      line_length_after (line_length (cfg_globals st)) (values_of ''linelength'' opts) \<and>
    keep_looking st' = (keep_looking st \<and> (\<forall>nv \<in> set opts. fst nv \<noteq> ''set noparent''))"
  using assms
proof (induction lines arbitrary: st)
  case Nil
  then show ?case by (simp add: values_of_def line_length_after_def map_filter_simps)
next
  case (Cons line lines)
  show ?case
  proof (cases "cfg_option line")
    case None
    with Cons show ?thesis by (simp add: map_filter_simps)
  next
    case (Some nv)
    obtain name val where nv: "nv = (name, val)" by (cases nv)
    from Cons.prems Some obtain st1 where st1:
      "cfg_apply env filename cfg_file base_name (name, val) st = Inr (Looked st1)"
      "cfg_lines env filename cfg_file base_name lines st1 = Inr (Looked st')"
      by (auto simp: nv split: sum.splits cfg_result.splits)
    from Cons.IH [OF st1(2)] cfg_apply_effect [OF st1(1)] Some nv show ?thesis
      by (auto simp: map_filter_simps values_of_def line_length_after_def Let_def)
  qed
qed

lemma cfg_walk_effect:
  "\<lbrakk>cfg_walk env filename apath st = Inr (Looked st'); keep_looking st\<rbrakk> \<Longrightarrow>
   cfg_filters st' = cfg_filters st @ values_of ''filter'' (visited env apath) \<and>
    Filters (cfg_globals st') = Filters (cfg_globals st) \<and>
    line_length (cfg_globals st') =
      line_length_after (line_length (cfg_globals st)) (values_of ''linelength'' (visited env apath))"
proof (induction env filename apath st rule: cfg_walk.induct)
  case (1 env filename apath st)
  obtain p b where s: "os_split apath = (p, b)" by (cases "os_split apath")
  let ?cfg = "os_join [p, ''CPPLINT.cfg'']"
  note W = cfg_walk.simps [of env filename apath st] and V = visited.simps [of env apath]
  show ?case
  proof (cases "b = []")
    case True
    with "1.prems" s show ?thesis unfolding V by (simp add: W values_of_def line_length_after_def)
  next
    case b: False
    show ?thesis
    proof (cases "is_file env ?cfg")
      case False
      with b s have "cfg_walk env filename p st = Inr (Looked st')" "visited env apath = visited env p"
        using "1.prems"(1) unfolding V by (simp_all add: W)
      with "1.IH"(1) [OF s [symmetric] b refl False _ "1.prems"(2)] show ?thesis by simp
    next
      case True
      show ?thesis
      proof (cases "read_file env ?cfg")
        case None
        with b s True "1.prems" show ?thesis unfolding V
          by (auto simp: W values_of_def line_length_after_def)
      next
        case (Some lines)
        from b s True Some "1.prems"(1) obtain st1 where st1:
          "cfg_lines env filename ?cfg b lines st = Inr (Looked st1)"
          by (auto simp: W split: sum.splits cfg_result.splits)
        note L = cfg_lines_effect [OF st1, unfolded Let_def]
        let ?opts = "List.map_filter cfg_option lines"
        show ?thesis
        proof (cases "keep_looking st1")
          case True
          then have "visited env apath = ?opts @ visited env p"
            using L b s \<open>is_file env ?cfg\<close> Some unfolding V by auto
          moreover have "cfg_walk env filename p st1 = Inr (Looked st')"
            using b s \<open>is_file env ?cfg\<close> Some st1 True "1.prems"(1) by (simp add: W)
          from "1.IH"(2) [OF s [symmetric] b refl _ Some st1 refl True this True] \<open>is_file env ?cfg\<close>
          have "cfg_filters st' = cfg_filters st1 @ values_of ''filter'' (visited env p) \<and>
            Filters (cfg_globals st') = Filters (cfg_globals st1) \<and>
            line_length (cfg_globals st') =
              line_length_after (line_length (cfg_globals st1)) (values_of ''linelength'' (visited env p))"
            by blast
          ultimately show ?thesis using L by (auto simp: values_of_def line_length_after_def)
        next
          case False
          then have "visited env apath = ?opts"
            using L "1.prems"(2) b s \<open>is_file env ?cfg\<close> Some unfolding V by auto
          moreover have "st' = st1"
            using b s \<open>is_file env ?cfg\<close> Some st1 False "1.prems"(1) by (simp add: W)
          ultimately show ?thesis using L by simp
        qed
      qed
    qed
  qed
qed

lemma add_all_filters_effect:
  "add_all_filters fs g = Inr g' \<Longrightarrow>
   Filters g' = Filters g @ concat (map clean_filters fs) \<and> line_length g' = line_length g"
proof (induction fs arbitrary: g)
  case (Cons f fs)
  then obtain g1 where g1: "AddFilters_g f g = Inr g1" "add_all_filters fs g1 = Inr g'"
    by (auto split: sum.splits)
  then have "Filters g1 = Filters g @ clean_filters f \<and> line_length g1 = line_length g"
    by (auto simp: AddFilters_g_def lift_state_def AddFilters_def Let_def Filters_def split: option.splits)
  with Cons.IH [OF g1(2)] show ?case by simp
qed simp

text \<open>
  C39: when \<open>ProcessConfigOverrides\<close> lets a file pass, the filters are those from before followed
  by those of the configuration files, the outermost directory's first, so that the file in the
  nearest directory has the last word; but the line length is the last one read walking
  upwards, so that for it the outermost directory has the last word.
\<close>

theorem config_overrides_effect:
  assumes "ProcessConfigOverrides env filename g = Inr (True, g')"
  shows "let opts = visited env (os_abspath (os_env.truncate env) filename) in
    Filters g' = Filters g @ concat (map clean_filters (rev (values_of ''filter'' opts))) \<and>
    line_length g' = line_length_after (line_length g) (values_of ''linelength'' opts)"
proof -
  let ?st = "\<lparr>keep_looking = True, cfg_filters = [], cfg_globals = g\<rparr>"
  from assms obtain st where st:
    "cfg_walk env filename (os_abspath (os_env.truncate env) filename) ?st = Inr (Looked st)"
    "map_sum id (\<lambda>g'. (True, g')) (add_all_filters (rev (cfg_filters st)) (cfg_globals st)) = Inr (True, g')"
    by (auto simp: ProcessConfigOverrides_def split: sum.splits cfg_result.splits)
  from st(2) have add: "add_all_filters (rev (cfg_filters st)) (cfg_globals st) = Inr g'"
    by (cases "add_all_filters (rev (cfg_filters st)) (cfg_globals st)") auto
  from cfg_walk_effect [OF st(1)] add_all_filters_effect [OF add] show ?thesis by simp
qed

definition sample_cfg_env :: cfg_env where
  "sample_cfg_env = \<lparr>cwd = ''/p/q'', path_exists = (\<lambda>_. True),
     is_file = (\<lambda>f. f \<in> set [''/p/q/CPPLINT.cfg'', ''/p/CPPLINT.cfg'']),
     read_file = (\<lambda>f. if f = ''/p/q/CPPLINT.cfg'' then Some [''linelength=100'', ''filter=-build'']
                      else Some [''linelength=80  # old'', ''filter=+build'']),
     re_match = (\<lambda>_ _. Inr False)\<rparr>"

lemma config_overrides_effect_witness:
  "\<exists>g'. ProcessConfigOverrides sample_cfg_env ''a.cc'' init_globals = Inr (True, g') \<and>
     Filters g' = Filters init_globals @ [''+build'', ''-build''] \<and> line_length g' = 80"
proof -
  have "case ProcessConfigOverrides sample_cfg_env ''a.cc'' init_globals of
      Inr (b, _) \<Rightarrow> b | Inl _ \<Rightarrow> False"
    by code_simp
  then obtain g' where g': "ProcessConfigOverrides sample_cfg_env ''a.cc'' init_globals = Inr (True, g')"
    by (auto split: sum.splits)
  have opts: "visited sample_cfg_env (os_abspath (os_env.truncate sample_cfg_env) ''a.cc'') =
     [(''linelength'', ''100''), (''filter'', ''-build''), (''linelength'', ''80''), (''filter'', ''+build'')]"
    by code_simp
  have vals: "concat (map clean_filters (rev (values_of ''filter'' [(''linelength'', ''100''),
      (''filter'', ''-build''), (''linelength'', ''80''), (''filter'', ''+build'')]))) = [''+build'', ''-build'']"
    "line_length_after (line_length init_globals) (values_of ''linelength'' [(''linelength'', ''100''),
      (''filter'', ''-build''), (''linelength'', ''80''), (''filter'', ''+build'')]) = 80"
    by code_simp+
  show ?thesis
    using config_overrides_effect [OF g'] g' unfolding opts Let_def vals by blast
qed

end
