(* ===== verification/CommandLine.thy ===== *)
theory CommandLine
  imports Config
begin

text \<open>
  The command line of \<open>build_support/cpplint.py\<close>: \<open>ParseArguments\<close> with the option parser
  \<open>getopt\<close> of the library, \<open>_ExpandDirectories\<close>, \<open>_FilterExcludedFiles\<close>, and the texts that end
  the program.  A Python set is a list whose order the code does not fix.
\<close>

section \<open>How the program ends early\<close>

text \<open>
  \<open>sys.exit(0)\<close> with the text written before, \<open>sys.exit(message)\<close> with the text and the message, or
  an exception that is not caught.  The environment has the file system, \<open>sys.version\<close>, and the
  formatting of the constant \<open>_USAGE\<close> with the extensions of sources and headers.
\<close>

datatype exit =
    ExitOk string
  | ExitMessage string string
  | Raised py_error

record cmd_env = cfg_env +
  is_dir :: "string \<Rightarrow> bool"
  os_walk :: "string \<Rightarrow> (string \<times> string list) list"
  glob :: "string \<Rightarrow> string list"
  python_version :: string
  usage_text :: "string list \<Rightarrow> string list \<Rightarrow> string"

definition PrintUsage :: "'a cmd_env_scheme \<Rightarrow> lint_globals \<Rightarrow> string option \<Rightarrow> exit" where
  "PrintUsage env g message =
     (let usage = usage_text env (GetAllExtensions g) (GetHeaderExtensions g) in
      case message of
        None \<Rightarrow> ExitOk usage
      | Some m \<Rightarrow> if m = [] then ExitOk usage
                  else ExitMessage usage (CHR 0x0A # ''FATAL ERROR: '' @ m))"

definition PrintVersion :: "'a cmd_env_scheme \<Rightarrow> exit" where
  "PrintVersion env = ExitOk
     (''Cpplint fork (https://github.com/cpplint/cpplint)'' @ [CHR 0x0A] @
      ''cpplint 1.4.4'' @ [CHR 0x0A] @ ''Python '' @ python_version env @ [CHR 0x0A])"

definition PrintCategories :: exit where
  "PrintCategories = ExitOk (concat (map (\<lambda>cat. ''  '' @ cat @ [CHR 0x0A]) error_categories))"

section \<open>\<open>getopt\<close> with long options only\<close>

definition long_options :: "string list" where
  "long_options = [''help'', ''output='', ''verbose='', ''v='', ''version'', ''counting='', ''filter='',
     ''root='', ''repository='', ''linelength='', ''extensions='', ''exclude='', ''recursive'', ''headers='',
     ''quiet'']"

text \<open>\<open>long_has_args\<close>: the option that is meant and whether it has an argument; \<open>None\<close> where
  \<open>GetoptError\<close> is raised (no option starts so, or several do).\<close>

definition long_has_args :: "string \<Rightarrow> (bool \<times> string) option" where
  "long_has_args opt =
     (let possibilities = filter (\<lambda>name. startswith name opt) long_options in
      if possibilities = [] then None
      else if opt \<in> set possibilities then Some (False, opt)
      else if opt @ ''='' \<in> set possibilities then Some (True, opt)
      else if length possibilities > 1 then None
      else let unique_match = hd possibilities in
        if endswith unique_match ''='' then Some (True, butlast unique_match) else Some (False, unique_match))"

function getopt :: "string list \<Rightarrow> ((string \<times> string) list \<times> string list) option" where
  "getopt [] = Some ([], [])"
| "getopt (a # args) =
     (if \<not> startswith a ''-'' \<or> a = ''-'' then Some ([], a # args)
      else if a = ''--'' then Some ([], args)
      else if \<not> startswith a ''--'' then None
      else let (opt, optarg) = (case str_find (drop 2 a) ''='' of
               None \<Rightarrow> (drop 2 a, None)
             | Some i \<Rightarrow> (take i (drop 2 a), Some (drop (i + 1) (drop 2 a))))
        in case long_has_args opt of
             None \<Rightarrow> None
           | Some (False, name) \<Rightarrow>
               (if optarg \<noteq> None then None
                else map_option (\<lambda>(opts, files). ((''--'' @ name, []) # opts, files)) (getopt args))
           | Some (True, name) \<Rightarrow>
               (case optarg of
                  Some v \<Rightarrow> map_option (\<lambda>(opts, files). ((''--'' @ name, v) # opts, files)) (getopt args)
                | None \<Rightarrow> (case args of
                    [] \<Rightarrow> None
                  | v # args' \<Rightarrow>
                      map_option (\<lambda>(opts, files). ((''--'' @ name, v) # opts, files)) (getopt args'))))"
  by pat_completeness auto
termination
  by (relation "measure length") auto

declare getopt.simps [simp del]

section \<open>Files\<close>

definition walk_files :: "'a cmd_env_scheme \<Rightarrow> string \<Rightarrow> string list" where
  "walk_files env dir =
     concat (map (\<lambda>(root, files). map (\<lambda>f.
         let fullname = os_join [root, f] in
         if startswith fullname ''./'' then drop 2 fullname else fullname) files) (os_walk env dir))"

definition ExpandDirectories :: "'a cmd_env_scheme \<Rightarrow> lint_globals \<Rightarrow> string list \<Rightarrow> string list" where
  "ExpandDirectories env g filenames =
     (let expanded = remdups (concat (map (\<lambda>f. if \<not> is_dir env f then [f] else walk_files env f) filenames))
      in filter (\<lambda>f. tl (snd (os_splitext f)) \<in> set (GetAllExtensions g)) expanded)"

definition FilterExcludedFiles :: "'a cmd_env_scheme \<Rightarrow> string list \<Rightarrow> string list \<Rightarrow> string list" where
  "FilterExcludedFiles env excluded filenames =
     (let exclude_paths = map (os_abspath (os_env.truncate env)) excluded in
      filter (\<lambda>f. os_abspath (os_env.truncate env) f \<notin> set exclude_paths) filenames)"

section \<open>\<open>ParseArguments\<close>\<close>

record arguments =
  a_verbosity :: int
  a_output :: string
  a_filters :: string
  a_quiet :: bool
  a_counting :: string
  a_recursive :: bool
  a_globals :: lint_globals

definition apply_option :: "'a cmd_env_scheme \<Rightarrow> string \<times> string \<Rightarrow> arguments \<Rightarrow> exit + arguments" where
  "apply_option env ov a =
     (let (opt, val) = ov; g = a_globals a in
      if opt = ''--help'' then Inl (PrintUsage env g None)
      else if opt = ''--version'' then Inl (PrintVersion env)
      else if opt = ''--output'' then
        (if val \<notin> {''emacs'', ''vs7'', ''eclipse'', ''junit''}
         then Inl (PrintUsage env g (Some ''The only allowed output formats are emacs, vs7, eclipse and junit.''))
         else Inr (a\<lparr>a_output := val\<rparr>))
      else if opt = ''--quiet'' then Inr (a\<lparr>a_quiet := True\<rparr>)
      else if opt = ''--verbose'' \<or> opt = ''--v'' then
        (case py_int val of None \<Rightarrow> Inl (Raised (ValueError val)) | Some n \<Rightarrow> Inr (a\<lparr>a_verbosity := n\<rparr>))
      else if opt = ''--filter'' then
        (if val = [] then Inl PrintCategories else Inr (a\<lparr>a_filters := val\<rparr>))
      else if opt = ''--counting'' then
        (if val \<notin> {''total'', ''toplevel'', ''detailed''}
         then Inl (PrintUsage env g (Some ''Valid counting options are total, toplevel, and detailed''))
         else Inr (a\<lparr>a_counting := val\<rparr>))
      else if opt = ''--root'' then Inr (a\<lparr>a_globals := g\<lparr>root_flag := Some val\<rparr>\<rparr>)
      else if opt = ''--repository'' then Inr (a\<lparr>a_globals := g\<lparr>repository_flag := Some val\<rparr>\<rparr>)
      else if opt = ''--linelength'' then
        (case py_int val of
           None \<Rightarrow> Inl (PrintUsage env g (Some ''Line length must be digits.''))
         | Some n \<Rightarrow> Inr (a\<lparr>a_globals := g\<lparr>line_length := n\<rparr>\<rparr>))
      else if opt = ''--exclude'' then
        (let old = (case excludes g of None \<Rightarrow> [] | Some e \<Rightarrow> e)
         in Inr (a\<lparr>a_globals := g\<lparr>excludes := Some (remdups (old @ glob env val))\<rparr>\<rparr>))
      else if opt = ''--extensions'' then Inr (a\<lparr>a_globals := ProcessExtensionsOption val g\<rparr>)
      else if opt = ''--headers'' then Inr (a\<lparr>a_globals := ProcessHppHeadersOption val g\<rparr>)
      else if opt = ''--recursive'' then Inr (a\<lparr>a_recursive := True\<rparr>)
      else Inr a)"

fun apply_options :: "'a cmd_env_scheme \<Rightarrow> (string \<times> string) list \<Rightarrow> arguments \<Rightarrow> exit + arguments" where
  "apply_options env [] a = Inr a"
| "apply_options env (ov # ovs) a =
     (case apply_option env ov a of Inl e \<Rightarrow> Inl e | Inr a' \<Rightarrow> apply_options env ovs a')"

definition set_arguments :: "arguments \<Rightarrow> exit + lint_globals" where
  "set_arguments a =
     (let g1 = SetOutputFormat_g (a_output a) (a_globals a);
          g2 = snd (SetQuiet_g (a_quiet a) g1);
          g3 = snd (SetVerboseLevel_g (a_verbosity a) g2)
      in case SetFilters_g (a_filters a) g3 of
           Inl e \<Rightarrow> Inl (Raised e)
         | Inr g4 \<Rightarrow> Inr (SetCountingStyle_g (a_counting a) g4))"

definition ParseArguments :: "'a cmd_env_scheme \<Rightarrow> string list \<Rightarrow> lint_globals \<Rightarrow>
    exit + string list \<times> lint_globals" where
  "ParseArguments env args g =
     (case getopt args of
        None \<Rightarrow> Inl (PrintUsage env g (Some ''Invalid arguments.''))
      | Some (opts, filenames) \<Rightarrow>
          (case apply_options env opts \<lparr>a_verbosity = VerboseLevel g, a_output = OutputFormat g,
               a_filters = [], a_quiet = Quiet g, a_counting = [], a_recursive = False, a_globals = g\<rparr> of
             Inl e \<Rightarrow> Inl e
           | Inr a \<Rightarrow>
               if filenames = [] then Inl (PrintUsage env (a_globals a) (Some ''No files were specified.''))
               else
                 let files1 = (if a_recursive a then ExpandDirectories env (a_globals a) filenames
                               else filenames);
                     files2 = (case excludes (a_globals a) of
                         Some (e # es) \<Rightarrow> FilterExcludedFiles env (e # es) files1
                       | _ \<Rightarrow> files1)
                 in map_sum id (\<lambda>g'. (files2, g')) (set_arguments a)))"

section \<open>What a successful parse guarantees\<close>

definition arguments_ok :: "lint_globals \<Rightarrow> arguments \<Rightarrow> bool" where
  "arguments_ok g a \<longleftrightarrow>
     a_output a \<in> {''emacs'', ''vs7'', ''eclipse'', ''junit'', OutputFormat g} \<and>
     a_counting a \<in> {[], ''total'', ''toplevel'', ''detailed''}"

definition result_ok :: "lint_globals \<Rightarrow> exit + arguments \<Rightarrow> bool" where
  "result_ok g r = (case r of Inl _ \<Rightarrow> True | Inr a \<Rightarrow> arguments_ok g a)"

lemma result_ok_simps [simp]:
  "result_ok g (Inl e)" "result_ok g (Inr a) = arguments_ok g a"
  by (simp_all add: result_ok_def)

lemma result_ok_guard:
  "\<lbrakk>result_ok g x; v \<in> S \<Longrightarrow> result_ok g y\<rbrakk> \<Longrightarrow> result_ok g (if v \<notin> S then x else y)"
  by simp

lemma result_ok_if: "\<lbrakk>result_ok g x; result_ok g y\<rbrakk> \<Longrightarrow> result_ok g (if c then x else y)"
  by simp

lemma apply_option_result: "arguments_ok g a \<Longrightarrow> result_ok g (apply_option env (opt, val) a)"
  unfolding apply_option_def Let_def prod.case
  by (intro result_ok_guard result_ok_if; auto simp: arguments_ok_def split: option.split)

lemma apply_option_ok:
  "apply_option env (opt, val) a = Inr a' \<Longrightarrow> arguments_ok g a \<Longrightarrow> arguments_ok g a'"
  using apply_option_result [of g a env opt val] by simp

lemma apply_options_ok: "apply_options env ovs a = Inr a' \<Longrightarrow> arguments_ok g a \<Longrightarrow> arguments_ok g a'"
  by (induction ovs arbitrary: a) (auto split: sum.splits dest: apply_option_ok)

lemma set_arguments_effect:
  assumes "set_arguments a = Inr g'"
  shows "OutputFormat g' = a_output a" "counting (lint g') = a_counting a" "filters_ok g'"
    "excludes g' = excludes (a_globals a)"
proof -
  from assms obtain g3 g4 where g: "SetFilters_g (a_filters a) g3 = Inr g4"
    "g' = SetCountingStyle_g (a_counting a) g4" "output_format (lint g3) = a_output a"
    "excludes g3 = excludes (a_globals a)"
    by (auto simp: set_arguments_def SetOutputFormat_g_def SetOutputFormat_def SetQuiet_g_def SetQuiet_def
        SetVerboseLevel_g_def SetVerboseLevel_def split: sum.splits)
  then have "filters_ok g4 \<and> output_format (lint g4) = a_output a \<and> excludes g4 = excludes g3"
    by (auto simp: SetFilters_g_def lift_state_def SetFilters_def AddFilters_def Let_def Filters_def
      filters_ok_def find_None_iff list_all_iff split: option.splits)
  with g show "OutputFormat g' = a_output a" "counting (lint g') = a_counting a" "filters_ok g'"
    "excludes g' = excludes (a_globals a)"
    by (simp_all add: OutputFormat_def SetCountingStyle_g_def SetCountingStyle_def filters_ok_def Filters_def)
qed


definition sample_cmd_env :: cmd_env where
  "sample_cmd_env = \<lparr>cwd = ''/p'', path_exists = (\<lambda>_. True), is_file = (\<lambda>_. False),
     read_file = (\<lambda>_. None), re_match = (\<lambda>_ _. Inr False), is_dir = (\<lambda>d. d = ''src''),
     os_walk = (\<lambda>_. [(''src'', [''a.cc'', ''b.cc'', ''c.txt''])]), glob = (\<lambda>p. [p]),
     python_version = ''3.8.10'', usage_text = (\<lambda>_ _. [])\<rparr>"


end
