(* ===== verification/Program.thy ===== *)
theory Program
  imports Driver CommandLine
begin

text \<open>
  The program of \<open>build_support/cpplint.py\<close>: \<open>ProcessFile\<close>, which configures the linter for a file, reads it
  and has it checked, and \<open>main\<close>.
\<close>

section \<open>\<open>ProcessFile\<close>\<close>

text \<open>
  The files as the library \<open>codecs\<close> decodes them: the text of a file (standard input for \<open>-\<close>) and the
  lines of a header with their ends; \<open>None\<close> where opening the file raises \<open>IOError\<close>.
\<close>

record lint_env = cmd_env +
  decoded_text :: "string \<Rightarrow> string option"
  decoded_lines :: "string \<Rightarrow> string list option"

abbreviation cr :: char where "cr \<equiv> CHR 0x0D"
abbreviation newline :: char where "newline \<equiv> CHR 0x0A"

text \<open>The lines with the trailing \<open>\r\<close> removed on all but the last.\<close>

definition strip_cr :: "string list \<Rightarrow> string list" where
  "strip_cr raw = map (\<lambda>l. rev (dropWhile (\<lambda>c. c = cr) (rev l))) (butlast raw) @ [last raw]"

text \<open>The numbers of the lines whose end satisfies a property.\<close>

definition numbered_lines :: "(string \<Rightarrow> bool) \<Rightarrow> string list \<Rightarrow> linenum list" where
  "numbered_lines p raw = map (\<lambda>i. int i + 1) (filter (\<lambda>i. p (raw ! i)) [0..<length raw - 1])"

definition crlf_lines :: "string list \<Rightarrow> linenum list" where
  "crlf_lines = numbered_lines (\<lambda>l. endswith l [cr])"

definition lf_lines :: "string list \<Rightarrow> linenum list" where
  "lf_lines = numbered_lines (\<lambda>l. \<not> endswith l [cr])"

definition newline_reports :: "string \<Rightarrow> string list \<Rightarrow> report list" where
  "newline_reports filename raw =
     (if lf_lines raw \<noteq> [] \<and> crlf_lines raw \<noteq> []
      then map (\<lambda>linenum. mk_report filename linenum ''whitespace/newline'' 1
             (''Unexpected '' @ [bs] @ ''r (^M) found; better to use only '' @ [bs] @ ''n'')) (crlf_lines raw)
      else [])"

definition extension_of :: "string \<Rightarrow> string" where
  "extension_of filename = (case str_rfind filename CHR ''.'' of None \<Rightarrow> filename | Some i \<Rightarrow> drop (i + 1) filename)"

definition skipping_text :: "string \<Rightarrow> string" where
  "skipping_text filename = ''Skipping input '' @ [sq] @ filename @ [sq] @ '': Can'' @ [sq] @
     ''t open for reading'' @ [newline]"

text \<open>The checks of a file that is read, up to the reports on its line ends.\<close>

definition lint_text ::
  "'a lint_env_scheme \<Rightarrow> string \<Rightarrow> string list \<Rightarrow> lint_globals action" where
  "lint_text env filename raw g =
     (let file_extension = extension_of filename in
      if filename \<noteq> ''-'' \<and> file_extension \<notin> set (GetAllExtensions g)
      then (PrintError (''Ignoring '' @ filename @ ''; not a valid file name ('' @
             str_join '', '' (GetAllExtensions g) @ '')'' @ [newline]) g, None)
      else and_then
        (ProcessFileData Error (os_env.truncate env) (decoded_lines env) filename file_extension (strip_cr raw))
        (\<lambda>g. (emit Error (newline_reports filename raw) g, None)) g)"

definition finish_text :: "string \<Rightarrow> int \<Rightarrow> lint_globals \<Rightarrow> lint_globals" where
  "finish_text filename old_errors g =
     (if \<not> quiet (lint g) \<or> old_errors \<noteq> error_count (lint g)
      then PrintInfo (''Done processing '' @ filename @ [newline]) g else g)"

text \<open>An exception leaves \<open>ProcessFile\<close> and ends the program, so the state after it does not matter.\<close>

definition ProcessFile :: "'a lint_env_scheme \<Rightarrow> string \<Rightarrow> int \<Rightarrow> lint_globals action" where
  "ProcessFile env filename vlevel g0 =
     (let g = BackupFilters_g (snd (SetVerboseLevel_g vlevel g0));
          old_errors = error_count (lint g)
      in case ProcessConfigOverrides (cfg_env.truncate env) filename g of
           Inl e \<Rightarrow> (g, Some e)
         | Inr (False, g1) \<Rightarrow> (RestoreFilters_g g1, None)
         | Inr (True, g1) \<Rightarrow>
             (case decoded_text env filename of
                None \<Rightarrow> (RestoreFilters_g (PrintError (skipping_text filename) g1), None)
              | Some content \<Rightarrow>
                  (case lint_text env filename (str_split newline content) g1 of
                     (g2, Some e) \<Rightarrow> (g2, Some e)
                   | (g2, None) \<Rightarrow> (RestoreFilters_g (finish_text filename old_errors g2), None))))"

section \<open>\<open>main\<close>\<close>

datatype ending =
    Early exit                              \<comment> \<open>\<open>ParseArguments\<close> ended the program\<close>
  | Uncaught py_error lint_globals
  | Exit_status bool lint_globals           \<comment> \<open>\<open>sys.exit\<close> of a Boolean\<close>

definition process_files :: "'a lint_env_scheme \<Rightarrow> string list \<Rightarrow> lint_globals action" where
  "process_files env filenames =
     perform (map (\<lambda>filename g. ProcessFile env filename (verbose_level (lint g)) g) filenames)"

definition finish_program :: "(xml \<Rightarrow> string) \<Rightarrow> lint_globals \<Rightarrow> lint_globals" where
  "finish_program tostring g =
     (let g1 = (if \<not> quiet (lint g) \<or> error_count (lint g) > 0 then PrintErrorCounts g else g)
      in if output_format (lint g1) = ''junit''
         then g1\<lparr>err := err g1 @ [FormatJUnitXML tostring (lint g1)]\<rparr> else g1)"

definition main_program :: "'a lint_env_scheme \<Rightarrow> (xml \<Rightarrow> string) \<Rightarrow> string list \<Rightarrow> ending" where
  "main_program env tostring args =
     (case ParseArguments (cmd_env.truncate env) args init_globals of
        Inl e \<Rightarrow> Early e
      | Inr (filenames, g) \<Rightarrow>
          (case process_files env filenames (g\<lparr>lint := ResetErrorCounts (lint g)\<rparr>) of
             (g', Some e) \<Rightarrow> Uncaught e g'
           | (g', None) \<Rightarrow>
               let g2 = finish_program tostring g' in Exit_status (error_count (lint g2) > 0) g2))"

definition sample_env :: lint_env where
  "sample_env = \<lparr>cwd = ''/p'', path_exists = (\<lambda>_. False), is_file = (\<lambda>_. False),
     read_file = (\<lambda>_. None), re_match = (\<lambda>_ _. Inr False), is_dir = (\<lambda>_. False),
     os_walk = (\<lambda>_. []), glob = (\<lambda>p. [p]), python_version = ''3.8.10'', usage_text = (\<lambda>_ _. []),
     decoded_text = (\<lambda>_. None), decoded_lines = (\<lambda>_. None)\<rparr>"

section \<open>The ends of the lines\<close>

text \<open>A file of lines that each end with \<open>\r\n\<close> or with \<open>\n\<close>, and what follows the last end.\<close>

definition ended_lines :: "(string \<times> bool) list \<Rightarrow> string \<Rightarrow> string" where
  "ended_lines ls final = concat (map (\<lambda>(l, crlf). l @ (if crlf then [cr, newline] else [newline])) ls) @ final"

definition raw_line :: "string \<times> bool \<Rightarrow> string" where
  "raw_line lc = fst lc @ (if snd lc then [cr] else [])"

definition plain_lines :: "(string \<times> bool) list \<Rightarrow> bool" where
  "plain_lines ls \<longleftrightarrow> list_all (\<lambda>(l, _). cr \<notin> set l \<and> newline \<notin> set l) ls"

lemma split_ended_lines:
  assumes "plain_lines ls" and "newline \<notin> set final"
  shows "str_split newline (ended_lines ls final) = map raw_line ls @ [final]"
  using assms
proof (induction ls)
  case Nil
  then show ?case by (simp add: ended_lines_def str_split_id)
next
  case (Cons lc ls)
  obtain l c where lc: "lc = (l, c)" by (cases lc)
  have "ended_lines (lc # ls) final = raw_line lc @ newline # ended_lines ls final"
    by (simp add: ended_lines_def raw_line_def lc)
  moreover have "newline \<notin> set (raw_line lc)" using Cons.prems by (auto simp: plain_lines_def raw_line_def lc)
  ultimately show ?case using Cons by (simp add: str_split_append plain_lines_def)
qed

lemma strip_raw_line: "cr \<notin> set l \<Longrightarrow> rev (dropWhile (\<lambda>x. x = cr) (rev (raw_line (l, c)))) = l"
proof -
  assume "cr \<notin> set l"
  then have "dropWhile (\<lambda>x. x = cr) (rev l) = rev l"
    by (cases "rev l") (auto simp: dropWhile_eq_self_iff)
  then show ?thesis by (simp add: raw_line_def)
qed

lemma strip_ended_lines: "plain_lines ls \<Longrightarrow> strip_cr (map raw_line ls @ [final]) = map fst ls @ [final]"
  by (auto simp: strip_cr_def plain_lines_def list_all_iff strip_raw_line)

lemma endswith_cr: "cr \<notin> set l \<Longrightarrow> endswith (raw_line (l, c)) [cr] = c"
  by (auto simp: raw_line_def endswith_iff)

lemma ends_with_cr: "plain_lines ls \<Longrightarrow> i < length ls \<Longrightarrow> endswith (raw_line (ls ! i)) [cr] = snd (ls ! i)"
proof -
  assume ls: "plain_lines ls" "i < length ls"
  obtain l c where lc: "ls ! i = (l, c)" by (cases "ls ! i")
  then have "(l, c) \<in> set ls" using ls(2) nth_mem by metis
  then have "cr \<notin> set l" using ls(1) by (auto simp: plain_lines_def list_all_iff)
  then show ?thesis by (simp add: lc endswith_cr)
qed

lemma numbered_ended_lines:
  assumes "plain_lines ls"
  shows "crlf_lines (map raw_line ls @ [final]) = map (\<lambda>i. int i + 1) (filter (\<lambda>i. snd (ls ! i)) [0..<length ls])"
    "lf_lines (map raw_line ls @ [final]) = map (\<lambda>i. int i + 1) (filter (\<lambda>i. \<not> snd (ls ! i)) [0..<length ls])"
proof -
  have "filter (\<lambda>i. p (endswith ((map raw_line ls @ [final]) ! i) [cr])) [0..<length ls] =
      filter (\<lambda>i. p (snd (ls ! i))) [0..<length ls]" for p
    by (rule filter_cong) (simp_all add: nth_append ends_with_cr [OF assms])
  from this [of "\<lambda>b. b"] this [of Not]
  show "crlf_lines (map raw_line ls @ [final]) = map (\<lambda>i. int i + 1) (filter (\<lambda>i. snd (ls ! i)) [0..<length ls])"
    "lf_lines (map raw_line ls @ [final]) = map (\<lambda>i. int i + 1) (filter (\<lambda>i. \<not> snd (ls ! i)) [0..<length ls])"
    by (simp_all add: crlf_lines_def lf_lines_def numbered_lines_def)
qed

lemma ends_occur: "(\<exists>i<length ls. P (ls ! i)) \<longleftrightarrow> (\<exists>x\<in>set ls. P x)"
  by (metis in_set_conv_nth)

text \<open>C27: Whatever line ends a file mixes, the checks see its lines without them; if it has both kinds
  of ends, then exactly the lines that end with \<open>\r\n\<close> are reported, in their order and numbered
  from 1, and otherwise none is.\<close>

theorem mixed_line_ends:
  assumes "plain_lines ls" and "newline \<notin> set final"
  shows "let raw = str_split newline (ended_lines ls final) in
    strip_cr raw = map fst ls @ [final] \<and>
    map r_linenum (newline_reports filename raw) =
      (if set (map snd ls) = {True, False}
       then map (\<lambda>i. int i + 1) (filter (\<lambda>i. snd (ls ! i)) [0..<length ls]) else [])"
proof -
  have both: "(\<exists>x\<in>set ls. snd x) \<and> (\<exists>x\<in>set ls. \<not> snd x) \<longleftrightarrow> set (map snd ls) = {True, False}"
    by (auto simp: image_iff)
  have occurs: "filter (\<lambda>i. P (ls ! i)) [0..<length ls] = [] \<longleftrightarrow> \<not> (\<exists>x\<in>set ls. P x)" for P
    unfolding ends_occur [symmetric] by (auto simp: filter_empty_conv)
  have mixed: "lf_lines (map raw_line ls @ [final]) \<noteq> [] \<and> crlf_lines (map raw_line ls @ [final]) \<noteq> [] \<longleftrightarrow>
      set (map snd ls) = {True, False}"
    unfolding numbered_ended_lines [OF assms(1)] map_is_Nil_conv occurs [of snd] occurs [of "\<lambda>x. \<not> snd x"] both [symmetric]
    by blast
  have "map r_linenum (newline_reports filename (map raw_line ls @ [final])) =
      (if set (map snd ls) = {True, False} then crlf_lines (map raw_line ls @ [final]) else [])"
    unfolding newline_reports_def mixed by (simp add: mk_report_def o_def)
  then show ?thesis
    unfolding Let_def split_ended_lines [OF assms] strip_ended_lines [OF assms(1)]
      numbered_ended_lines(1) [OF assms(1)] by (rule conjI [OF refl])
qed

lemma mixed_line_ends_witness:
  "map r_linenum (newline_reports ''a.cc'' (str_split newline
     (''int a;'' @ [cr, newline] @ ''int b;'' @ [newline] @ ''int c;'' @ [cr, newline]))) = [1, 3]"
proof -
  let ?ls = "[(''int a;'', True), (''int b;'', False), (''int c;'', True)]"
  have pre: "plain_lines ?ls" "newline \<notin> set []" by code_simp+
  have "filter (\<lambda>i. snd (?ls ! i)) [0..<length ?ls] = [0, 2]" by code_simp
  moreover have "set (map snd ?ls) = {True, False}" by auto
  ultimately show ?thesis
    using mixed_line_ends [OF pre, of "''a.cc''"] by (simp add: Let_def ended_lines_def)
qed

text \<open>C22: A file whose lines all end with \<open>\r\n\<close> is processed exactly like the same file with \<open>\n\<close>
  ends: the same reports, the same output, the same state.\<close>

theorem crlf_like_lf:
  assumes "\<forall>l\<in>set ls. cr \<notin> set l \<and> newline \<notin> set l" and "newline \<notin> set final"
  shows "ProcessFile (env\<lparr>decoded_text := \<lambda>_. Some (ended_lines (map (\<lambda>l. (l, True)) ls) final)\<rparr>) filename v g =
    ProcessFile (env\<lparr>decoded_text := \<lambda>_. Some (ended_lines (map (\<lambda>l. (l, False)) ls) final)\<rparr>) filename v g"
proof -
  have plain: "plain_lines (map (\<lambda>l. (l, b)) ls)" for b
    using assms(1) by (auto simp: plain_lines_def list_all_iff)
  have none: "newline_reports filename (map raw_line (map (\<lambda>l. (l, b)) ls) @ [final]) = []" for b
    unfolding newline_reports_def numbered_ended_lines [OF plain] by (cases b) (simp_all add: filter_empty_conv)
  have strip: "strip_cr (map raw_line (map (\<lambda>l. (l, b)) ls) @ [final]) = ls @ [final]" for b
    unfolding strip_ended_lines [OF plain] by (simp add: o_def)
  have env: "lint_text (env\<lparr>decoded_text := d\<rparr>) f raw g' = lint_text env f raw g'" for d f raw g'
    by (simp add: lint_text_def Let_def os_env.defs)
  have "lint_text env filename (map raw_line (map (\<lambda>l. (l, True)) ls) @ [final]) g' =
    lint_text env filename (map raw_line (map (\<lambda>l. (l, False)) ls) @ [final]) g'" for g'
    unfolding lint_text_def none strip ..
  with env show ?thesis
    by (simp add: ProcessFile_def Let_def split_ended_lines [OF plain assms(2)] cfg_env.defs del: map_map cong: sum.case_cong prod.case_cong bool.case_cong)
qed

lemma crlf_like_lf_witness:
  "ProcessFile (sample_env\<lparr>decoded_text := \<lambda>_. Some (''int x;'' @ [cr, newline])\<rparr>) ''a.cc'' 1 init_globals =
   ProcessFile (sample_env\<lparr>decoded_text := \<lambda>_. Some (''int x;'' @ [newline])\<rparr>) ''a.cc'' 1 init_globals"
proof -
  have pre: "\<forall>l\<in>set [''int x;'']. cr \<notin> set l \<and> newline \<notin> set l" "newline \<notin> set []" by code_simp+
  show ?thesis using crlf_like_lf [OF pre, of sample_env "''a.cc''" 1 init_globals] by (simp add: ended_lines_def)
qed

section \<open>What configuration files leave alone\<close>

text \<open>Only the filters and the messages kept for JUnit may differ.\<close>

definition same_lint :: "lint_globals \<Rightarrow> lint_globals \<Rightarrow> bool" where
  "same_lint g g' \<longleftrightarrow> lint g' = (lint g)\<lparr>filters := filters (lint g'), junit_errors := junit_errors (lint g')\<rparr>"

lemma same_lint_refl: "same_lint g g"
  by (simp add: same_lint_def)

lemma same_lint_trans: "same_lint g g' \<Longrightarrow> same_lint g' g'' \<Longrightarrow> same_lint g g''"
proof -
  assume "same_lint g g'" and *: "same_lint g' g''"
  then obtain fs js where "lint g' = (lint g)\<lparr>filters := fs, junit_errors := js\<rparr>" by (auto simp: same_lint_def)
  with * show ?thesis unfolding same_lint_def by simp
qed

text \<open>
  The messages that are not reports: a file that is skipped or not a source file, and what is wrong
  with a configuration file.  With JUnit output they are kept, otherwise they are written at once.
\<close>

definition notice :: "string \<Rightarrow> bool" where
  "notice m \<longleftrightarrow> m = ''Line length must be numeric.'' \<or>
     (\<exists>p \<in> set [''Invalid configuration option ('', ''Skipping config file '', ''Skipping input '', ''Ignoring ''].
        startswith m p)"

definition noted :: "lint_globals \<Rightarrow> lint_globals \<Rightarrow> bool" where
  "noted g g' \<longleftrightarrow> same_lint g g' \<and>
     (\<exists>ns. list_all notice ns \<and>
        (if output_format (lint g) = ''junit'' then junit_errors (lint g') = junit_errors (lint g) @ ns \<and> err g' = err g
         else err g' = err g @ ns))"

lemma noted_refl: "noted g g"
  unfolding noted_def by (intro conjI same_lint_refl exI [of _ "[]"]) simp_all

lemma noted_eq: "\<lbrakk>lint g' = lint g; err g' = err g\<rbrakk> \<Longrightarrow> noted g g'"
  unfolding noted_def by (intro conjI exI [of _ "[]"]) (simp_all add: same_lint_def)

lemma noted_PrintError: "notice m \<Longrightarrow> noted g (PrintError m g)"
  unfolding noted_def by (intro conjI exI [of _ "[m]"]) (simp_all add: same_lint_def PrintError_def)

lemma same_lint_frame:
  assumes "same_lint g g'"
  shows "verbose_level (lint g') = verbose_level (lint g)" "error_count (lint g') = error_count (lint g)"
    "filters_backup (lint g') = filters_backup (lint g)" "counting (lint g') = counting (lint g)"
    "quiet (lint g') = quiet (lint g)" "output_format (lint g') = output_format (lint g)"
    "junit_failures (lint g') = junit_failures (lint g)"
proof -
  obtain fs js where "lint g' = (lint g)\<lparr>filters := fs, junit_errors := js\<rparr>"
    using assms by (auto simp: same_lint_def)
  then show "verbose_level (lint g') = verbose_level (lint g)" "error_count (lint g') = error_count (lint g)"
    "filters_backup (lint g') = filters_backup (lint g)" "counting (lint g') = counting (lint g)"
    "quiet (lint g') = quiet (lint g)" "output_format (lint g') = output_format (lint g)"
    "junit_failures (lint g') = junit_failures (lint g)" by simp_all
qed

lemma noted_trans: "\<lbrakk>noted g g'; noted g' g''\<rbrakk> \<Longrightarrow> noted g g''"
proof -
  assume "noted g g'" "noted g' g''"
  then obtain ns ms where "same_lint g g'" "same_lint g' g''" "list_all notice ns" "list_all notice ms"
    "if output_format (lint g) = ''junit'' then junit_errors (lint g') = junit_errors (lint g) @ ns \<and> err g' = err g
     else err g' = err g @ ns"
    "if output_format (lint g') = ''junit'' then junit_errors (lint g'') = junit_errors (lint g') @ ms \<and> err g'' = err g'
     else err g'' = err g' @ ms"
    unfolding noted_def by blast
  moreover from this have "output_format (lint g') = output_format (lint g)" by (simp add: same_lint_frame)
  ultimately show ?thesis unfolding noted_def
    by (intro conjI exI [of _ "ns @ ms"]) (auto intro: same_lint_trans split: if_splits)
qed

lemma err_extensions [simp]: "err (ProcessExtensionsOption v g) = err g" "err (ProcessHppHeadersOption v g) = err g"
  by (simp_all add: ProcessExtensionsOption_def ProcessHppHeadersOption_def)

lemma lint_extensions [simp]: "lint (ProcessExtensionsOption v g) = lint g" "lint (ProcessHppHeadersOption v g) = lint g"
  by (simp_all add: ProcessExtensionsOption_def ProcessHppHeadersOption_def)

lemma cfg_apply_lint:
  assumes "cfg_apply env filename cfg_file base_name nv st = Inr r"
  shows "case r of Excluded g \<Rightarrow> noted (cfg_globals st) g
    | Looked st' \<Rightarrow> noted (cfg_globals st) (cfg_globals st')"
proof -
  have info: "noted g (PrintInfo m g)" for m g by (simp add: noted_eq PrintInfo_def)
  have notices: "notice ''Line length must be numeric.''" "notice (''Invalid configuration option ('' @ m)" for m
    unfolding notice_def by simp_all
  then have errors: "noted g (PrintError ''Line length must be numeric.'' g)"
    "noted g (PrintError (''Invalid configuration option ('' @ m) g)" for g m
    by (simp_all only: noted_PrintError)
  show ?thesis
    using assms [unfolded cfg_apply_def Let_def]
    by (auto simp: noted_refl noted_eq info errors simp del: append.simps split: prod.splits if_splits sum.splits
        bool.splits option.splits)
qed

lemma cfg_lines_lint:
  "cfg_lines env filename cfg_file base_name lines st = Inr r \<Longrightarrow>
   case r of Excluded g \<Rightarrow> noted (cfg_globals st) g
     | Looked st' \<Rightarrow> noted (cfg_globals st) (cfg_globals st')"
proof (induction lines arbitrary: st)
  case Nil
  then show ?case by (auto simp: noted_refl)
next
  case (Cons line lines)
  show ?case
  proof (cases "cfg_option line")
    case (Some nv)
    obtain r1 where r1: "cfg_apply env filename cfg_file base_name nv st = Inr r1"
      using Cons.prems Some by (auto split: sum.splits)
    note step = cfg_apply_lint [OF r1]
    show ?thesis
    proof (cases r1)
      case (Looked st1)
      with Cons.IH [of st1] Cons.prems Some r1 step noted_trans show ?thesis
        by (auto split: cfg_result.splits)
    qed (use Cons.prems Some r1 step in auto)
  qed (use Cons in auto)
qed

lemma cfg_walk_lint:
  "cfg_walk env filename apath st = Inr r \<Longrightarrow>
   case r of Excluded g \<Rightarrow> noted (cfg_globals st) g
     | Looked st' \<Rightarrow> noted (cfg_globals st) (cfg_globals st')"
proof (induction env filename apath st rule: cfg_walk.induct)
  case (1 env filename apath st)
  obtain p b where s: "os_split apath = (p, b)" by (cases "os_split apath")
  let ?cfg = "os_join [p, ''CPPLINT.cfg'']"
  note W = cfg_walk.simps [of env filename apath st]
  show ?case
  proof (cases "b = [] \<or> (is_file env ?cfg \<and> read_file env ?cfg = None)")
    case True
    with "1.prems" s show ?thesis by (auto simp: W Let_def noted_refl noted_PrintError notice_def split: if_splits)
  next
    case False
    then have b: "b \<noteq> []" by simp
    show ?thesis
    proof (cases "is_file env ?cfg")
      case False
      with b s "1.prems" have "cfg_walk env filename p st = Inr r" by (simp add: W)
      from "1.IH"(1) [OF s [symmetric] b refl False this] show ?thesis .
    next
      case here: True
      with False obtain lines where lines: "read_file env ?cfg = Some lines" by auto
      obtain r1 where r1: "cfg_lines env filename ?cfg b lines st = Inr r1"
        using b s here lines "1.prems" by (auto simp: W split: sum.splits)
      note step = cfg_lines_lint [OF r1]
      show ?thesis
      proof (cases r1)
        case (Looked st1)
        show ?thesis
        proof (cases "keep_looking st1")
          case True
          then have "cfg_walk env filename p st1 = Inr r"
            using b s here lines r1 Looked "1.prems" by (simp add: W)
          from "1.IH"(2) [OF s [symmetric] b refl _ lines r1 Looked True this] here step Looked
          show ?thesis by (auto intro: noted_trans split: cfg_result.splits)
        qed (use b s here lines r1 Looked step "1.prems" in \<open>auto simp: W\<close>)
      qed (use b s here lines r1 step "1.prems" in \<open>auto simp: W\<close>)
    qed
  qed
qed

lemma AddFilters_g_lint: "AddFilters_g f g = Inr g' \<Longrightarrow> noted g g' \<and> filters_ok g'"
  by (auto simp: AddFilters_g_def lift_state_def AddFilters_def Let_def noted_def same_lint_def filters_ok_def Filters_def
      find_None_iff list_all_iff intro: exI [of _ "[]"] split: option.splits)

lemma add_all_filters_lint:
  "add_all_filters fs g = Inr g' \<Longrightarrow> filters_ok g \<Longrightarrow> noted g g' \<and> filters_ok g'"
proof (induction fs arbitrary: g)
  case (Cons f fs)
  then obtain g1 where g1: "AddFilters_g f g = Inr g1" "add_all_filters fs g1 = Inr g'"
    by (auto split: sum.splits)
  from AddFilters_g_lint [OF g1(1)] Cons.IH [OF g1(2)] show ?case by (blast intro: noted_trans)
qed (simp add: noted_refl)

lemma config_lint:
  assumes "ProcessConfigOverrides env filename g = Inr (b, g')" and ok: "filters_ok g"
  shows "noted g g'" and "b \<Longrightarrow> filters_ok g'"
proof -
  let ?st = "\<lparr>keep_looking = True, cfg_filters = [], cfg_globals = g\<rparr>"
  let ?p = "os_abspath (os_env.truncate env) filename"
  from assms(1) obtain r where r: "cfg_walk env filename ?p ?st = Inr r"
    by (auto simp: ProcessConfigOverrides_def split: sum.splits)
  have "noted g g' \<and> (b \<longrightarrow> filters_ok g')"
  proof (cases r)
    case (Looked st)
    then have st: "noted g (cfg_globals st)" "filters_ok (cfg_globals st)"
      using cfg_walk_lint [OF r] cfg_walk_effect [of env filename ?p ?st st] r ok
      by (auto simp: filters_ok_def)
    from assms(1) r Looked have "add_all_filters (rev (cfg_filters st)) (cfg_globals st) = Inr g'"
      by (cases "add_all_filters (rev (cfg_filters st)) (cfg_globals st)") (auto simp: ProcessConfigOverrides_def)
    from add_all_filters_lint [OF this st(2)] st(1) show ?thesis by (blast intro: noted_trans)
  qed (use assms(1) cfg_walk_lint [OF r] r in \<open>auto simp: ProcessConfigOverrides_def\<close>)
  then show "noted g g'" "b \<Longrightarrow> filters_ok g'" by simp_all
qed

section \<open>What processing a file leaves behind\<close>

text \<open>A report of a file at a verbosity level, and the effect of writing reports on the counters.\<close>

definition shown :: "string \<Rightarrow> int \<Rightarrow> report \<Rightarrow> bool" where
  "shown filename v r \<longleftrightarrow> r_filename r = filename \<and> v \<le> r_confidence r \<and> r_confidence r \<le> 5 \<and>
     r_category r \<in> set error_categories"

definition counted :: "report list \<Rightarrow> cpplint_state \<Rightarrow> cpplint_state \<Rightarrow> bool" where
  "counted rs s s' \<longleftrightarrow> error_count s' = error_count s + int (length rs) \<and>
     junit_failures s' = junit_failures s @ (if output_format s = ''junit'' then rs else []) \<and>
     output_format s' = output_format s \<and> counting s' = counting s \<and> quiet s' = quiet s \<and>
     verbose_level s' = verbose_level s \<and> filters_backup s' = filters_backup s"

lemma counted_refl: "counted [] s s"
  by (simp add: counted_def)

lemma counted_trans: "counted rs s s' \<Longrightarrow> counted rs' s' s'' \<Longrightarrow> counted (rs @ rs') s s''"
  by (auto simp: counted_def)

lemma counted_same_lint: "same_lint g g' \<Longrightarrow> counted [] (lint g) (lint g')"
  by (simp add: counted_def same_lint_frame)

lemma counted_write_error: "counted [r] (lint g) (lint (write_error r g))"
  by (simp add: counted_def write_error_def Let_def AddJUnitFailure_def PrintError_def)

text \<open>What has been written: first notices, then reports, each as the output format has it.\<close>

definition logged :: "string list \<Rightarrow> report list \<Rightarrow> lint_globals \<Rightarrow> lint_globals \<Rightarrow> bool" where
  "logged ns rs g g' \<longleftrightarrow> list_all notice ns \<and> counted rs (lint g) (lint g') \<and>
     (if output_format (lint g) = ''junit'' then junit_errors (lint g') = junit_errors (lint g) @ ns \<and> err g' = err g
      else err g' = err g @ ns @ map (report_text (output_format (lint g))) rs)"

lemma logged_noted: "noted g g' \<Longrightarrow> \<exists>ns. logged ns [] g g'"
  by (auto simp: noted_def logged_def intro: counted_same_lint)

lemma logged_frame: "\<lbrakk>lint g' = lint g; err g' = err g\<rbrakk> \<Longrightarrow> logged [] [] g g'"
  by (simp add: logged_def counted_refl)

lemma logged_notice_trans: "\<lbrakk>logged ns [] g g'; logged ms rs g' g''\<rbrakk> \<Longrightarrow> logged (ns @ ms) rs g g''"
  using counted_trans [of "[]" "lint g" "lint g'" rs "lint g''"] by (auto simp: logged_def counted_def split: if_splits)

lemma logged_report_trans: "\<lbrakk>logged ns rs g g'; logged [] rs' g' g''\<rbrakk> \<Longrightarrow> logged ns (rs @ rs') g g''"
  using counted_trans [of rs "lint g" "lint g'" rs' "lint g''"] by (auto simp: logged_def counted_def split: if_splits)

lemma logged_write_error: "logged [] [r] g (write_error r g)"
  using counted_write_error [of r g] write_error_text [of g r]
  by (simp add: logged_def write_error_junit_errors write_error_junit_err)

lemma logged_emit: "logged [] rs g (emit write_error rs g)"
proof (induction rs arbitrary: g)
  case (Cons r rs)
  from logged_report_trans [OF logged_write_error Cons] show ?case by simp
qed (simp add: logged_frame)

lemma logged_cong: "\<lbrakk>lint g0 = lint h0; err g0 = err h0; lint g = lint h; err g = err h\<rbrakk> \<Longrightarrow>
    logged ns rs g0 g = logged ns rs h0 h"
  by (simp add: logged_def)

lemma file_report_shown:
  assumes "file_report f n r" and v: "v \<le> r_confidence r"
  shows "shown f v r"
proof (cases "report_ok f n r")
  case False
  then have "r = mk_report f no_line ''build/include'' 5 (r_message r)" using assms(1) by (simp add: file_report_def)
  then obtain m where r: "r = mk_report f no_line ''build/include'' 5 m" by blast
  show ?thesis using v unfolding r by (simp add: shown_def mk_report_def)
qed (use v in \<open>simp add: report_ok_def shown_def\<close>)

lemma written_since_logged:
  assumes "written_since f n g0 g"
  shows "\<exists>rs. list_all (shown f (verbose_level (lint g0))) rs \<and> logged [] rs g0 g"
proof -
  from assms obtain rs where rs: "list_all (\<lambda>r. file_report f n r \<and> may_show g0 r) rs"
    "unsuppressed g = emit write_error rs (unsuppressed g0)" by (auto simp: written_since_def)
  then have "logged [] rs (unsuppressed g0) (unsuppressed g)" using logged_emit by simp
  then have "logged [] rs g0 g" by (rule iffD1 [OF logged_cong, rotated -1]) (simp_all add: unsuppressed_def)
  moreover have "list_all (shown f (verbose_level (lint g0))) rs"
    using rs(1) by (auto simp: list_all_iff may_show_def intro: file_report_shown)
  ultimately show ?thesis by blast
qed

lemma newline_reports_ok: "reports_ok f (length raw + 2) (newline_reports f raw)"
  by (auto simp: newline_reports_def crlf_lines_def numbered_lines_def reports_ok_def list_all_iff report_ok_def
      mk_report_def)

lemma strip_cr_length: "raw \<noteq> [] \<Longrightarrow> length (strip_cr raw) = length raw"
  by (simp add: strip_cr_def)

text \<open>Either the name of the file is not valid, or the file is checked.\<close>

lemma lint_text_since:
  assumes "filters_ok g" and "raw \<noteq> []"
  shows "(\<exists>m. notice m \<and> lint_text env filename raw g = (PrintError m g, None)) \<or>
    written_since filename (length raw + 2) g (fst (lint_text env filename raw g))"
proof (cases "filename \<noteq> ''-'' \<and> extension_of filename \<notin> set (GetAllExtensions g)")
  case True
  have "notice (''Ignoring '' @ m)" for m by (simp add: notice_def)
  then show ?thesis unfolding lint_text_def Let_def if_P [OF True] by blast
next
  case False
  let ?n = "length raw + 2"
  let ?inv = "\<lambda>g'. filters_ok g \<and> written_since filename ?n g g'"
  let ?P = "ProcessFileData Error (os_env.truncate env) (decoded_lines env) filename (extension_of filename) (strip_cr raw)"
  have "?inv g" using assms(1) written_since_refl by blast
  then have "?inv (fst (?P g))"
    by (intro conjunct1 [OF linter.ProcessFileData_keeps]) (simp_all add: strip_cr_length assms(2))
  moreover from this have "?inv (emit Error (newline_reports filename raw) (fst (?P g)))"
    by (intro linter.emit_inv newline_reports_ok)
  moreover have "lint_text env filename raw g =
      and_then ?P (\<lambda>g. (emit Error (newline_reports filename raw) g, None)) g"
    unfolding lint_text_def Let_def by (rule if_not_P [OF False])
  ultimately show ?thesis
    by (cases "?P g") (auto simp: and_then_def split: option.split)
qed

lemma lint_text_written:
  assumes "filters_ok g" and "raw \<noteq> []"
  shows "\<exists>ns rs. list_all (shown filename (verbose_level (lint g))) rs \<and>
    logged ns rs g (fst (lint_text env filename raw g))"
  using lint_text_since [OF assms, of env filename]
proof (elim disjE exE conjE)
  fix m assume "notice m" "lint_text env filename raw g = (PrintError m g, None)"
  with logged_noted [OF noted_PrintError [of m g]] obtain ns where
    "logged ns [] g (fst (lint_text env filename raw g))" by auto
  then show ?thesis by (intro exI [of _ ns] exI [of _ "[]"]) simp
next
  assume "written_since filename (length raw + 2) g (fst (lint_text env filename raw g))"
  from written_since_logged [OF this] show ?thesis by blast
qed

text \<open>The state in which a file is processed, and the state left behind.\<close>

definition started :: "int \<Rightarrow> lint_globals \<Rightarrow> lint_globals" where
  "started v g = BackupFilters_g (snd (SetVerboseLevel_g v g))"

definition stopped :: "int \<Rightarrow> lint_globals \<Rightarrow> lint_globals \<Rightarrow> bool" where
  "stopped v g g' \<longleftrightarrow> filters (lint g') = filters (lint g) \<and> verbose_level (lint g') = v"

lemma started_simps [simp]:
  "filters (lint (started v g)) = filters (lint g)" "filters_backup (lint (started v g)) = filters (lint g)"
  "verbose_level (lint (started v g)) = v" "filters_ok (started v g) = filters_ok g"
  by (simp_all add: started_def BackupFilters_g_def BackupFilters_def SetVerboseLevel_g_def SetVerboseLevel_def
      filters_ok_def Filters_def)

lemma started_frame [simp]:
  "err (started v g) = err g" "junit_errors (lint (started v g)) = junit_errors (lint g)"
  "junit_failures (lint (started v g)) = junit_failures (lint g)" "error_count (lint (started v g)) = error_count (lint g)"
  "output_format (lint (started v g)) = output_format (lint g)"
  by (simp_all add: started_def BackupFilters_g_def BackupFilters_def SetVerboseLevel_g_def SetVerboseLevel_def)

lemma RestoreFilters_frame [simp]:
  "err (RestoreFilters_g g) = err g" "junit_errors (lint (RestoreFilters_g g)) = junit_errors (lint g)"
  "junit_failures (lint (RestoreFilters_g g)) = junit_failures (lint g)"
  "error_count (lint (RestoreFilters_g g)) = error_count (lint g)"
  "output_format (lint (RestoreFilters_g g)) = output_format (lint g)"
  by (simp_all add: RestoreFilters_g_def RestoreFilters_def)

lemma finish_text_frame: "lint (finish_text f n g) = lint g" "err (finish_text f n g) = err g"
  by (simp_all add: finish_text_def PrintInfo_def)

text \<open>What one file adds to the state, whose format of the output is \<open>fmt\<close>.\<close>

definition file_adds :: "string \<Rightarrow> string list \<Rightarrow> report list \<Rightarrow> lint_globals \<Rightarrow> lint_globals \<Rightarrow> bool" where
  "file_adds fmt ns rs g g' \<longleftrightarrow>
     error_count (lint g') = error_count (lint g) + int (length rs) \<and>
     (if fmt = ''junit''
      then junit_failures (lint g') = junit_failures (lint g) @ rs \<and>
        junit_errors (lint g') = junit_errors (lint g) @ ns \<and> err g' = err g
      else junit_failures (lint g') = junit_failures (lint g) \<and>
        err g' = err g @ ns @ map (report_text fmt) rs)"

lemma restored:
  assumes "logged ns rs (started v g) g1"
  shows "stopped v g (RestoreFilters_g g1) \<and> file_adds (output_format (lint g)) ns rs g (RestoreFilters_g g1) \<and>
    output_format (lint (RestoreFilters_g g1)) = output_format (lint g) \<and> list_all notice ns"
proof -
  have "filters (lint (RestoreFilters_g g1)) = filters_backup (lint g1)"
    "verbose_level (lint (RestoreFilters_g g1)) = verbose_level (lint g1)"
    by (simp_all add: RestoreFilters_g_def RestoreFilters_def)
  with assms show ?thesis by (auto simp: logged_def counted_def stopped_def file_adds_def split: if_splits)
qed

lemma ProcessFile_written:
  assumes ok: "filters_ok g" and "ProcessFile env filename v g = (g', None)"
  shows "\<exists>ns rs g1. list_all (shown filename v) rs \<and> logged ns rs (started v g) g1 \<and> g' = RestoreFilters_g g1"
proof -
  have P: "ProcessFile env filename v g = (g', None)" by (rule assms(2))
  obtain b g1 where cfg: "ProcessConfigOverrides (cfg_env.truncate env) filename (started v g) = Inr (b, g1)"
    using P by (auto simp: ProcessFile_def Let_def started_def [symmetric] split: sum.splits)
  note C = config_lint [OF cfg, simplified, OF ok]
  from logged_noted [OF C(1)] obtain ns where c1: "logged ns [] (started v g) g1" by blast
  show ?thesis
  proof (cases "b \<and> decoded_text env filename \<noteq> None")
    case False
    have "notice (skipping_text filename)" by (simp add: skipping_text_def notice_def)
    with False P cfg obtain g2 where g2: "g' = RestoreFilters_g g2" "noted g1 g2"
      by (cases b) (auto simp: ProcessFile_def Let_def started_def [symmetric] noted_refl intro: noted_PrintError)
    from logged_noted [OF g2(2)] obtain ms where "logged ms [] g1 g2" by blast
    from logged_notice_trans [OF c1 this] show ?thesis
      using g2(1) by (intro exI [of _ "ns @ ms"] exI [of _ "[]"] exI [of _ g2]) simp
  next
    case True
    then obtain content where content: "decoded_text env filename = Some content" by auto
    let ?raw = "str_split newline content"
    obtain g2 e where g2: "lint_text env filename ?raw g1 = (g2, e)" by (rule prod.exhaust)
    let ?g3 = "finish_text filename (error_count (lint (started v g))) g2"
    from g2 True content P cfg have g': "e = None" "g' = RestoreFilters_g ?g3"
      by (auto simp: ProcessFile_def Let_def started_def [symmetric] simp del: started_frame split: option.splits)
    from lint_text_written [OF C(2), of ?raw filename env] True g2 obtain ms rs where
      rs: "list_all (shown filename (verbose_level (lint g1))) rs" "logged ms rs g1 g2" by auto
    moreover have "verbose_level (lint g1) = v" using c1 by (simp add: logged_def counted_def)
    moreover have "logged (ns @ ms) rs (started v g) ?g3"
      using logged_notice_trans [OF c1 rs(2)] by (rule iffD1 [OF logged_cong, rotated -1]) (simp_all add: finish_text_frame)
    ultimately show ?thesis using g'(2)
      by (intro exI [of _ "ns @ ms"] exI [of _ rs] exI [of _ ?g3]) simp
  qed
qed

text \<open>C8: When \<open>ProcessFile\<close> returns, the filters are those from before, whatever the configuration
  files added, and the verbosity level is the one it was given.  The error count has grown by
  the number of reports written, which all name this file, are of a known category, and reach the
  verbosity level.  Except for notices on configuration files or that the file is skipped, these
  reports are all that is new: with JUnit output they are the failures added and nothing is written to
  standard error, otherwise their texts in the output format are what is written there, in order,
  after the notices.\<close>

theorem process_file_restores:
  assumes "filters_ok g" and "ProcessFile env filename v g = (g', None)"
  shows "filters (lint g') = filters (lint g) \<and> verbose_level (lint g') = v \<and>
    (\<exists>ns rs. list_all notice ns \<and> list_all (shown filename v) rs \<and>
       error_count (lint g') = error_count (lint g) + int (length rs) \<and>
       (if output_format (lint g) = ''junit''
        then junit_failures (lint g') = junit_failures (lint g) @ rs \<and>
          junit_errors (lint g') = junit_errors (lint g) @ ns \<and> err g' = err g
        else junit_failures (lint g') = junit_failures (lint g) \<and>
          err g' = err g @ ns @ map (report_text (output_format (lint g))) rs))"
proof -
  from ProcessFile_written [OF assms] obtain ns rs g1 where "list_all (shown filename v) rs"
    "logged ns rs (started v g) g1" "g' = RestoreFilters_g g1" by blast
  with restored [of ns rs v g g1] show ?thesis unfolding stopped_def file_adds_def by blast
qed

definition configured_env :: lint_env where
  "configured_env = sample_env\<lparr>is_file := \<lambda>f. f = ''/p/CPPLINT.cfg'',
     read_file := \<lambda>_. Some [''filter=-whitespace,+whitespace/tab'']\<rparr>"

lemma process_file_restores_witness:
  "\<exists>g'. ProcessFile configured_env ''a.cc'' 3 init_globals = (g', None) \<and>
     filters (lint g') = filters (lint init_globals) \<and> verbose_level (lint g') = 3"
proof -
  have "snd (ProcessFile configured_env ''a.cc'' 3 init_globals) = None" by code_simp
  then obtain g' where g': "ProcessFile configured_env ''a.cc'' 3 init_globals = (g', None)"
    by (cases "ProcessFile configured_env ''a.cc'' 3 init_globals") auto
  have "filters_ok init_globals" by code_simp
  from process_file_restores [OF this g'] g' show ?thesis by blast
qed

section \<open>What the program reports\<close>

text \<open>What the files of a run add, one part for each file: its notices and its reports.\<close>

type_synonym file_part = "string list \<times> report list"

definition parts_ok :: "int \<Rightarrow> string list \<Rightarrow> file_part list \<Rightarrow> bool" where
  "parts_ok v files parts \<longleftrightarrow>
     list_all2 (\<lambda>f (ns, rs). list_all notice ns \<and> list_all (shown f v) rs) files parts"

definition part_texts :: "string \<Rightarrow> file_part list \<Rightarrow> string list" where
  "part_texts fmt parts = concat (map (\<lambda>(ns, rs). ns @ map (report_text fmt) rs) parts)"

lemma process_files_written:
  "\<lbrakk>filters_ok g; process_files env files g = (g', None)\<rbrakk> \<Longrightarrow>
   \<exists>parts. parts_ok (verbose_level (lint g)) files parts \<and> output_format (lint g') = output_format (lint g) \<and>
     error_count (lint g') = error_count (lint g) + int (length (concat (map snd parts))) \<and>
     (if output_format (lint g) = ''junit''
      then junit_failures (lint g') = junit_failures (lint g) @ concat (map snd parts) \<and>
        junit_errors (lint g') = junit_errors (lint g) @ concat (map fst parts) \<and> err g' = err g
      else err g' = err g @ part_texts (output_format (lint g)) parts)"
proof (induction files arbitrary: g)
  case Nil
  then show ?case
    by (intro exI [of _ "[]"]) (auto simp: process_files_def parts_ok_def part_texts_def)
next
  case (Cons f files)
  let ?v = "verbose_level (lint g)"
  from Cons.prems(2) obtain g1 where g1: "ProcessFile env f ?v g = (g1, None)" "process_files env files g1 = (g', None)"
    by (auto simp: process_files_def and_then_def split: prod.splits option.splits)
  from ProcessFile_written [OF Cons.prems(1) g1(1)] obtain ns rs g2 where rs: "list_all (shown f ?v) rs"
    and g2: "logged ns rs (started ?v g) g2" "g1 = RestoreFilters_g g2" by blast
  note R = restored [OF g2(1), folded g2(2), unfolded stopped_def file_adds_def]
  then have "filters_ok g1" using Cons.prems(1) by (simp add: filters_ok_def Filters_def)
  from Cons.IH [OF this g1(2)] R obtain parts where "parts_ok ?v files parts" "output_format (lint g') = output_format (lint g)"
    "error_count (lint g') = error_count (lint g1) + int (length (concat (map snd parts)))"
    "if output_format (lint g) = ''junit''
      then junit_failures (lint g') = junit_failures (lint g1) @ concat (map snd parts) \<and>
        junit_errors (lint g') = junit_errors (lint g1) @ concat (map fst parts) \<and> err g' = err g1
      else err g' = err g1 @ part_texts (output_format (lint g)) parts" by auto
  with rs R show ?case
    by (intro exI [of _ "(ns, rs) # parts"]) (auto simp: parts_ok_def part_texts_def split: if_splits)
qed

lemma PrintInfo_lint [simp]: "lint (PrintInfo m g) = lint g"
  by (simp add: PrintInfo_def)

lemma fold_lint: "(\<And>x g. lint (f x g) = lint g) \<Longrightarrow> lint (fold f xs g) = lint g"
  by (induction xs arbitrary: g) simp_all

lemma PrintErrorCounts_lint: "lint (PrintErrorCounts g) = lint g"
  unfolding PrintErrorCounts_def Let_def by (simp add: fold_lint split: prod.split)

lemma PrintInfo_err [simp]: "err (PrintInfo m g) = err g"
  by (simp add: PrintInfo_def)

lemma fold_err: "(\<And>x g. err (f x g) = err g) \<Longrightarrow> err (fold f xs g) = err g"
  by (induction xs arbitrary: g) simp_all

lemma PrintErrorCounts_err: "err (PrintErrorCounts g) = err g"
  unfolding PrintErrorCounts_def Let_def by (simp add: fold_err split: prod.split)

text \<open>An option is read without a change of the linter's state and without a text.\<close>

definition keeps_lint :: "arguments \<Rightarrow> exit + arguments \<Rightarrow> bool" where
  "keeps_lint a r = (case r of Inl _ \<Rightarrow> True
     | Inr a' \<Rightarrow> lint (a_globals a') = lint (a_globals a) \<and> err (a_globals a') = err (a_globals a))"

lemma keeps_lint_simps [simp]: "keeps_lint a (Inl e)"
  "keeps_lint a (Inr a') = (lint (a_globals a') = lint (a_globals a) \<and> err (a_globals a') = err (a_globals a))"
  by (simp_all add: keeps_lint_def)

lemma keeps_lint_if: "\<lbrakk>keeps_lint a x; keeps_lint a y\<rbrakk> \<Longrightarrow> keeps_lint a (if c then x else y)"
  by simp

lemma apply_option_keeps: "keeps_lint a (apply_option env ov a)"
  unfolding apply_option_def Let_def case_prod_beta
  by (intro keeps_lint_if; simp split: option.split)

lemma apply_options_lint:
  "apply_options env ovs a = Inr a' \<Longrightarrow> lint (a_globals a') = lint (a_globals a) \<and> err (a_globals a') = err (a_globals a)"
proof (induction ovs arbitrary: a)
  case (Cons ov ovs)
  then obtain a1 where "apply_option env ov a = Inr a1" "apply_options env ovs a1 = Inr a'" by (auto split: sum.splits)
  with Cons.IH [of a1] apply_option_keeps [of a env ov] show ?case by simp
qed simp

lemma map_sum_Inr: "map_sum id f r = Inr y \<longleftrightarrow> (\<exists>x. r = Inr x \<and> y = f x)"
  by (cases r) auto

lemma set_arguments_lint:
  assumes "set_arguments a = Inr g'"
  shows "junit_failures (lint g') = junit_failures (lint (a_globals a)) \<and>
    junit_errors (lint g') = junit_errors (lint (a_globals a)) \<and> err g' = err (a_globals a)"
  using assms by (auto simp: set_arguments_def Let_def SetOutputFormat_g_def SetOutputFormat_def SetQuiet_g_def
      SetQuiet_def SetVerboseLevel_g_def SetVerboseLevel_def SetCountingStyle_g_def SetCountingStyle_def
      SetFilters_g_def lift_state_def SetFilters_def AddFilters_def split: sum.splits option.splits)

lemma ParseArguments_lint:
  assumes "ParseArguments env args g = Inr (files, g')"
  shows "filters_ok g' \<and> junit_failures (lint g') = junit_failures (lint g) \<and>
    junit_errors (lint g') = junit_errors (lint g) \<and> err g' = err g"
proof -
  let ?a0 = "\<lparr>a_verbosity = VerboseLevel g, a_output = OutputFormat g, a_filters = [], a_quiet = Quiet g,
    a_counting = [], a_recursive = False, a_globals = g\<rparr>"
  from assms obtain opts filenames a where a: "apply_options env opts ?a0 = Inr a" "set_arguments a = Inr g'"
    by (auto simp: ParseArguments_def Let_def map_sum_Inr split: option.splits sum.splits prod.splits if_splits)
  from set_arguments_lint [OF a(2)] apply_options_lint [OF a(1)] set_arguments_effect(3) [OF a(2)]
  show ?thesis by simp
qed

lemma finish_program_lint: "lint (finish_program tostring g) = lint g"
  by (simp add: finish_program_def Let_def PrintErrorCounts_lint)

lemma finish_program_err:
  "err (finish_program tostring g) =
     err g @ (if output_format (lint g) = ''junit'' then [FormatJUnitXML tostring (lint g)] else [])"
  by (simp add: finish_program_def Let_def PrintErrorCounts_lint PrintErrorCounts_err)

text \<open>C3: When \<open>main\<close> runs to its end, there is for each file of the command line, in their order, a
  part of what is told: notices (of configuration files, or that the file is skipped) and reports
  that name the file, have a known category and reach the verbosity level of the command line.  The error count is
  the number of all these reports, and the exit status is failure exactly if there is one.  What is
  written to standard error is these parts and nothing else: the texts of the notices and of the
  reports in the output format; with \<open>--output=junit\<close> the one text of the test suite,
  whose failures are the reports and whose errors are the notices.\<close>

theorem exit_status_counts_reports:
  assumes "main_program env tostring args = Exit_status failed g"
  shows "\<exists>files g0 parts. ParseArguments (cmd_env.truncate env) args init_globals = Inr (files, g0) \<and>
    parts_ok (verbose_level (lint g0)) files parts \<and>
    error_count (lint g) = int (length (concat (map snd parts))) \<and>
    failed = (concat (map snd parts) \<noteq> []) \<and>
    (if output_format (lint g0) = ''junit''
     then junit_failures (lint g) = concat (map snd parts) \<and> junit_errors (lint g) = concat (map fst parts) \<and>
       err g = [FormatJUnitXML tostring (lint g)]
     else err g = part_texts (output_format (lint g0)) parts)"
proof -
  from assms obtain files g0 g1 where parse: "ParseArguments (cmd_env.truncate env) args init_globals = Inr (files, g0)"
    and run: "process_files env files (g0\<lparr>lint := ResetErrorCounts (lint g0)\<rparr>) = (g1, None)"
    and g: "g = finish_program tostring g1" "failed = (error_count (lint g) > 0)"
    by (auto simp: main_program_def Let_def split: sum.splits prod.splits option.splits)
  let ?g0 = "g0\<lparr>lint := ResetErrorCounts (lint g0)\<rparr>"
  have start: "filters_ok ?g0" "verbose_level (lint ?g0) = verbose_level (lint g0)" "error_count (lint ?g0) = 0"
    "junit_failures (lint ?g0) = []" "junit_errors (lint ?g0) = []" "err ?g0 = []"
    "output_format (lint ?g0) = output_format (lint g0)"
    using ParseArguments_lint [OF parse]
    by (simp_all add: filters_ok_def Filters_def ResetErrorCounts_def init_globals_def init_cpplint_state_def)
  from process_files_written [OF start(1) run, unfolded start append_Nil] obtain parts where
    parts: "parts_ok (verbose_level (lint g0)) files parts"
    "error_count (lint g1) = int (length (concat (map snd parts)))" "output_format (lint g1) = output_format (lint g0)"
    "if output_format (lint g0) = ''junit''
      then junit_failures (lint g1) = concat (map snd parts) \<and> junit_errors (lint g1) = concat (map fst parts) \<and> err g1 = []
      else err g1 = part_texts (output_format (lint g0)) parts" by auto
  have "failed = (concat (map snd parts) \<noteq> [])"
    using parts(2) g by (simp only: finish_program_lint) (metis length_greater_0_conv of_nat_0_less_iff)
  moreover have "if output_format (lint g0) = ''junit''
     then junit_failures (lint g) = concat (map snd parts) \<and> junit_errors (lint g) = concat (map fst parts) \<and>
       err g = [FormatJUnitXML tostring (lint g)]
     else err g = part_texts (output_format (lint g0)) parts"
    using parts(3,4) unfolding g(1) finish_program_lint finish_program_err by simp
  ultimately show ?thesis using parse parts(1,2) g(1) by (metis finish_program_lint)
qed

lemma exit_status_counts_reports_witness:
  "\<exists>g. main_program sample_env (\<lambda>_. ''<x/>'') [''--output=junit'', ''a.cc''] = Exit_status False g \<and>
     error_count (lint g) = 0 \<and> (\<exists>m. notice m \<and> junit_errors (lint g) = [m])"
proof -
  let ?m = "main_program sample_env (\<lambda>_. ''<x/>'') [''--output=junit'', ''a.cc'']"
  have "case ?m of Exit_status b g \<Rightarrow> \<not> b \<and> junit_errors (lint g) = [skipping_text ''a.cc''] | _ \<Rightarrow> False" by code_simp
  then obtain g where g: "?m = Exit_status False g" "junit_errors (lint g) = [skipping_text ''a.cc'']" by (cases ?m) auto
  have "notice (skipping_text ''a.cc'')" by (simp add: skipping_text_def notice_def)
  with exit_status_counts_reports [OF g(1)] g show ?thesis by auto
qed

section \<open>Every file that can be read is processed to its end\<close>

definition no_config :: "'a cfg_env_scheme \<Rightarrow> bool" where
  "no_config env \<longleftrightarrow> (\<forall>d. \<not> is_file env (os_join [d, ''CPPLINT.cfg'']))"

definition done_text :: "string \<Rightarrow> string" where
  "done_text filename = ''Done processing '' @ filename @ [newline]"

lemma cfg_walk_no_config: "no_config env \<Longrightarrow> cfg_walk env filename apath st = Inr (Looked st)"
proof (induction env filename apath st rule: cfg_walk.induct)
  case (1 env filename apath st)
  then show ?case
    by (subst cfg_walk.simps) (auto simp: no_config_def Let_def split: prod.split)
qed

lemma ProcessConfigOverrides_no_config:
  "no_config env \<Longrightarrow> ProcessConfigOverrides env filename g = Inr (True, g)"
  by (simp add: ProcessConfigOverrides_def cfg_walk_no_config)

lemma emit_write_out: "out (emit write_error rs g) = out g \<and> quiet_flag (emit write_error rs g) = quiet_flag g"
proof (induction rs arbitrary: g)
  case (Cons r rs)
  have "out (write_error r g) = out g \<and> quiet_flag (write_error r g) = quiet_flag g"
    by (simp add: write_error_def Let_def PrintError_def)
  with Cons show ?case by simp
qed simp

lemma written_since_out:
  assumes "written_since f n g0 g"
  shows "out g = out g0 \<and> quiet_flag g = quiet_flag g0"
proof -
  from assms obtain rs where "unsuppressed g = emit write_error rs (unsuppressed g0)"
    by (auto simp: written_since_def)
  then have "out (unsuppressed g) = out (unsuppressed g0) \<and> quiet_flag (unsuppressed g) = quiet_flag (unsuppressed g0)"
    using emit_write_out by simp
  then show ?thesis by (simp add: unsuppressed_def)
qed

lemma PrintError_out [simp]: "out (PrintError m g) = out g" "quiet_flag (PrintError m g) = quiet_flag g"
  by (simp_all add: PrintError_def)

lemma lint_text_out:
  assumes "filters_ok g" and "raw \<noteq> []"
  shows "out (fst (lint_text env filename raw g)) = out g \<and> quiet_flag (fst (lint_text env filename raw g)) = quiet_flag g"
  using lint_text_since [OF assms, of env filename] by (auto dest: written_since_out)

lemma lint_text_errors:
  assumes "filters_ok g" and "raw \<noteq> []"
  shows "set_option (snd (lint_text env filename raw g)) \<subseteq> {IndexError, NoReturn}"
proof -
  let ?P = "ProcessFileData Error (os_env.truncate env) (decoded_lines env) filename (extension_of filename) (strip_cr raw)"
  have "filters_ok g \<and> written_since filename (length raw + 2) g g" using assms(1) written_since_refl by blast
  then have "set_option (snd (?P g)) \<subseteq> {IndexError, NoReturn}"
    by (intro conjunct2 [OF linter.ProcessFileData_keeps]) (simp_all add: strip_cr_length assms(2))
  then show ?thesis
    by (cases "?P g") (auto simp: lint_text_def Let_def and_then_def split: option.split)
qed

text \<open>The state shows what is done.\<close>

definition talks :: "lint_globals \<Rightarrow> bool" where
  "talks g \<longleftrightarrow> \<not> quiet_flag g \<and> \<not> quiet (lint g) \<and> output_format (lint g) \<noteq> ''junit''"

lemma out_simps [simp]:
  "out (RestoreFilters_g g) = out g" "out (started v g) = out g"
  "quiet_flag (RestoreFilters_g g) = quiet_flag g"
  "quiet_flag (started v g) = quiet_flag g"
  "quiet (lint (started v g)) = quiet (lint g)" "output_format (lint (started v g)) = output_format (lint g)"
  "quiet (lint (RestoreFilters_g g)) = quiet (lint g)"
  "output_format (lint (RestoreFilters_g g)) = output_format (lint g)"
  by (simp_all add: RestoreFilters_g_def RestoreFilters_def started_def BackupFilters_g_def
      BackupFilters_def SetVerboseLevel_g_def SetVerboseLevel_def)

lemma ProcessFile_done:
  assumes ok: "filters_ok g" and talks: "talks g" and env: "no_config env" and P: "ProcessFile env filename v g = (g', None)"
  shows "out g' = out g @ (if decoded_text env filename = None then [] else [done_text filename]) \<and> talks g'"
proof -
  have "no_config (cfg_env.truncate env)" using env by (simp add: no_config_def cfg_env.defs)
  from ProcessConfigOverrides_no_config [OF this]
  have cfg: "ProcessConfigOverrides (cfg_env.truncate env) filename (started v g) = Inr (True, started v g)" .
  show ?thesis
  proof (cases "decoded_text env filename")
    case None
    with P cfg have "g' = RestoreFilters_g (PrintError (skipping_text filename) (started v g))"
      by (simp add: ProcessFile_def Let_def started_def [symmetric])
    with None talks show ?thesis by (simp add: talks_def PrintError_def)
  next
    case (Some content)
    let ?raw = "str_split newline content" and ?g = "started v g"
    obtain g2 e where g2: "lint_text env filename ?raw ?g = (g2, e)" by (rule prod.exhaust)
    with Some P cfg have g': "g' = RestoreFilters_g (finish_text filename (error_count (lint ?g)) g2)"
      by (auto simp: ProcessFile_def Let_def started_def [symmetric] split: option.splits)
    have "filters_ok ?g" using ok by simp
    from lint_text_out [OF this, of ?raw env filename] lint_text_written [OF this, of ?raw filename env] g2
    have "out g2 = out g" "talks g2" using talks by (auto simp: talks_def logged_def counted_def)
    with g' Some show ?thesis by (simp add: finish_text_def PrintInfo_def talks_def done_text_def)
  qed
qed

lemma ProcessFile_uncaught:
  assumes ok: "filters_ok g" and env: "no_config env" and P: "ProcessFile env filename v g = (g', Some x)"
  shows "out g' = out g \<and> x \<in> {IndexError, NoReturn} \<and> decoded_text env filename \<noteq> None"
proof -
  have "no_config (cfg_env.truncate env)" using env by (simp add: no_config_def cfg_env.defs)
  from ProcessConfigOverrides_no_config [OF this]
  have cfg: "ProcessConfigOverrides (cfg_env.truncate env) filename (started v g) = Inr (True, started v g)" .
  with P obtain content where content: "decoded_text env filename = Some content"
    by (auto simp: ProcessFile_def Let_def started_def [symmetric] split: option.splits)
  let ?l = "lint_text env filename (str_split newline content) (started v g)"
  have l: "?l = (g', Some x)"
    using P cfg content by (auto simp: ProcessFile_def Let_def started_def [symmetric] simp del: started_frame split: prod.splits option.splits)
  have "filters_ok (started v g)" using ok by simp
  from lint_text_out [OF this, of "str_split newline content" env filename] lint_text_errors [OF this, of "str_split newline content" env filename]
  show ?thesis using l content by simp
qed

text \<open>C24: Without configuration files, and in a state that is not quiet and whose output is not JUnit,
  the loop over the files of the command line goes through them in their order and tells of each file that can
  be read, and of no other, that it is done.  It goes through all of them unless an uncaught
  \<open>IndexError\<close> or a walk that does not return stops it at a file that can be read; then it has
  told of the files before.\<close>

theorem readable_files_done:
  "\<lbrakk>process_files env files g = (g', e); filters_ok g; talks g; no_config env\<rbrakk> \<Longrightarrow>
   \<exists>past rest. files = past @ rest \<and>
     out g' = out g @ map done_text (filter (\<lambda>f. decoded_text env f \<noteq> None) past) \<and>
     (case e of None \<Rightarrow> rest = []
      | Some x \<Rightarrow> x \<in> {IndexError, NoReturn} \<and> rest \<noteq> [] \<and> decoded_text env (hd rest) \<noteq> None)"
proof (induction files arbitrary: g)
  case Nil
  then show ?case by (intro exI [of _ "[]"]) (simp add: process_files_def)
next
  case (Cons f files)
  let ?v = "verbose_level (lint g)"
  obtain g1 e1 where g1: "ProcessFile env f ?v g = (g1, e1)" by (rule prod.exhaust)
  show ?case
  proof (cases e1)
    case None
    with g1 have P: "ProcessFile env f ?v g = (g1, None)" by simp
    with Cons.prems(1) have rest: "process_files env files g1 = (g', e)"
      by (simp add: process_files_def and_then_def)
    from ProcessFile_written [OF Cons.prems(2) P] Cons.prems(2) have "filters_ok g1"
      using restored by (fastforce simp: stopped_def filters_ok_def Filters_def)
    with ProcessFile_done [OF Cons.prems(2-4) P] Cons.IH [OF rest] Cons.prems(4) obtain past rest where
      "files = past @ rest"
      "out g' = out g @ map done_text (filter (\<lambda>f. decoded_text env f \<noteq> None) (f # past))"
      "case e of None \<Rightarrow> rest = []
        | Some x \<Rightarrow> x \<in> {IndexError, NoReturn} \<and> rest \<noteq> [] \<and> decoded_text env (hd rest) \<noteq> None" by auto
    then show ?thesis by (intro exI [of _ "f # past"] exI [of _ rest]) simp
  next
    case (Some x)
    with g1 Cons.prems(1) have "g' = g1" "e = Some x" by (auto simp: process_files_def and_then_def)
    with ProcessFile_uncaught [OF Cons.prems(2,4), of f ?v g1 x] g1 Some show ?thesis
      by (intro exI [of _ "[]"] exI [of _ "f # files"]) simp
  qed
qed

definition two_files_env :: lint_env where
  "two_files_env = sample_env\<lparr>decoded_text := \<lambda>f. if f = ''b.txt'' then Some ''x'' else None\<rparr>"

lemma readable_files_done_witness:
  "\<exists>g'. process_files two_files_env [''a.cc'', ''b.txt''] init_globals = (g', None) \<and>
     out g' = [done_text ''b.txt'']"
proof -
  let ?p = "process_files two_files_env [''a.cc'', ''b.txt''] init_globals"
  have "snd ?p = None" by code_simp
  then obtain g' where g': "?p = (g', None)" by (cases ?p) auto
  have pre: "filters_ok init_globals" "talks init_globals" by code_simp+
  have "no_config two_files_env" by (simp add: no_config_def two_files_env_def sample_env_def)
  from readable_files_done [OF g' pre this] g' show ?thesis by (simp add: two_files_env_def init_globals_def)
qed

end
