(* ===== verification/Formats.thy ===== *)
theory Formats
  imports Driver
begin

text \<open>
  Two callbacks that differ only in what they do with an accepted report make the same pass over a
  file.  The locale \<open>callback_morphism\<close> states when a map of states takes one callback to the other;
  its interpretation takes the pass that records failures for JUnit to the passes that write text.
\<close>

named_theorems reads \<open>functions that read only the settings\<close>

section \<open>What the checks read of the global state\<close>

definition same_settings :: "lint_globals \<Rightarrow> lint_globals \<Rightarrow> bool" where
  "same_settings g g' \<longleftrightarrow> line_length g = line_length g' \<and> root_flag g = root_flag g' \<and>
     repository_flag g = repository_flag g' \<and> hpp_headers g = hpp_headers g' \<and>
     valid_extensions g = valid_extensions g' \<and> VerboseLevel g = VerboseLevel g'"

lemma flags_reads [reads]:
  "same_settings g g' \<Longrightarrow> root_flag g = root_flag g'"
  "same_settings g g' \<Longrightarrow> repository_flag g = repository_flag g'"
  "same_settings g g' \<Longrightarrow> line_length g = line_length g'"
  "same_settings g g' \<Longrightarrow> VerboseLevel g = VerboseLevel g'"
  by (simp_all add: same_settings_def)

lemma GetHeaderExtensions_reads [reads]: "same_settings g g' \<Longrightarrow> GetHeaderExtensions g = GetHeaderExtensions g'"
  by (simp add: GetHeaderExtensions_def same_settings_def)

lemma GetAllExtensions_reads [reads]: "same_settings g g' \<Longrightarrow> GetAllExtensions g = GetAllExtensions g'"
  by (simp add: GetAllExtensions_def GetHeaderExtensions_def same_settings_def)

lemma extension_reads [reads]:
  "same_settings g g' \<Longrightarrow> GetNonHeaderExtensions g = GetNonHeaderExtensions g'"
  "same_settings g g' \<Longrightarrow> IsHeaderExtension g = IsHeaderExtension g'"
  "same_settings g g' \<Longrightarrow> IsSourceExtension g = IsSourceExtension g'"
  by (simp_all add: GetNonHeaderExtensions_def IsHeaderExtension_def IsSourceExtension_def reads fun_eq_iff)

lemma long_line_reads [reads]:
  assumes "same_settings g g'" shows "long_line env g = long_line env g'"
  unfolding long_line_def [abs_def] is_header_guard_def [abs_def] reads [OF assms] by (rule refl)

lemma CheckBraces_reads [reads]:
  assumes "same_settings g g'" shows "CheckBraces g = CheckBraces g'"
  unfolding CheckBraces_def [abs_def] line_start_brace_def [abs_def] reads [OF assms] by (rule refl)

lemma suffix_reads [reads]: "same_settings g g' \<Longrightarrow> DropCommonSuffixes g = DropCommonSuffixes g'"
  by (simp add: DropCommonSuffixes_def common_suffixes_def fun_eq_iff reads)

lemma third_src_header_reads [reads]:
  "same_settings g g' \<Longrightarrow> third_src_header g env f include exts = third_src_header g' env f include exts"
  by (induction exts) (simp_all add: reads Let_def cong: if_cong)

lemma foreign_source_reads [reads]:
  assumes "same_settings g g'" shows "foreign_source g env = foreign_source g' env"
  unfolding foreign_source_def [abs_def] reads [OF assms] by (rule refl)

lemma ClassifyInclude_reads [reads]:
  assumes "same_settings g g'" shows "ClassifyInclude g env = ClassifyInclude g' env"
  unfolding ClassifyInclude_def [abs_def] reads [OF assms] by (rule refl)

lemma place_include_reads [reads]:
  assumes "same_settings g g'" shows "place_include g env = place_include g' env"
  unfolding place_include_def [abs_def] reads [OF assms] by (rule refl)

lemma new_include_reads [reads]:
  assumes "same_settings g g'" shows "new_include g env = new_include g' env"
  unfolding new_include_def [abs_def] reads [OF assms] by (rule refl)

lemma CheckLanguage_reads [reads]:
  assumes "same_settings g g'" shows "CheckLanguage g env = CheckLanguage g' env"
  unfolding CheckLanguage_def [abs_def] CheckIncludeLine_def [abs_def] namespace_reports_def [abs_def]
    reads [OF assms] by (rule refl)

lemma same_module_reads [reads]:
  assumes "same_settings g g'" shows "FilesBelongToSameModule g env = FilesBelongToSameModule g' env"
  unfolding FilesBelongToSameModule_def [abs_def] reads [OF assms] by (rule refl)

lemma module_includes_reads [reads]:
  assumes "same_settings g g'"
  shows "module_includes g env rf f hs b d = module_includes g' env rf f hs b d"
  by (induction hs arbitrary: b d) (simp_all only: module_includes.simps reads [OF assms] cong: prod.case_cong)

lemma CheckForIncludeWhatYouUse_reads [reads]:
  assumes "same_settings g g'"
  shows "CheckForIncludeWhatYouUse g env rf f c s = CheckForIncludeWhatYouUse g' env rf f c s"
  unfolding CheckForIncludeWhatYouUse_def reads [OF assms] by (rule refl)

lemma CheckHeaderFileIncluded_reads [reads]:
  assumes "same_settings g g'" shows "CheckHeaderFileIncluded g env f s = CheckHeaderFileIncluded g' env f s"
  unfolding CheckHeaderFileIncluded_def reads [OF assms] by (rule refl)

section \<open>Steps that agree\<close>

text \<open>On states that satisfy \<open>P\<close>, the second step does on images what the first does.\<close>

definition mirrors :: "('s \<Rightarrow> bool) \<Rightarrow> ('s \<Rightarrow> 't) \<Rightarrow> 's action \<Rightarrow> 't action \<Rightarrow> bool" where
  "mirrors P f a b \<longleftrightarrow> (\<forall>s. P s \<longrightarrow> P (fst (a s)) \<and> b (f s) = (f (fst (a s)), snd (a s)))"

lemma mirrorsI:
  "(\<And>s. P s \<Longrightarrow> P (fst (a s)) \<and> b (f s) = (f (fst (a s)), snd (a s))) \<Longrightarrow> mirrors P f a b"
  by (simp add: mirrors_def)

lemma mirrorsD: "mirrors P f a b \<Longrightarrow> P s \<Longrightarrow> P (fst (a s)) \<and> b (f s) = (f (fst (a s)), snd (a s))"
  by (simp add: mirrors_def)

lemma mirrors_and_then:
  assumes "mirrors P f a b" and "mirrors P f a' b'"
  shows "mirrors P f (and_then a a') (and_then b b')"
proof (rule mirrorsI)
  fix s assume "P s"
  from mirrorsD [OF assms(1) this] have "P (fst (a s))" "b (f s) = (f (fst (a s)), snd (a s))" by auto
  with mirrorsD [OF assms(2), of "fst (a s)"]
  show "P (fst (and_then a a' s)) \<and> and_then b b' (f s) = (f (fst (and_then a a' s)), snd (and_then a a' s))"
    by (cases "a s"; cases "snd (a s)") (auto simp: and_then_def)
qed

lemma mirrors_perform: "list_all2 (mirrors P f) as as' \<Longrightarrow> mirrors P f (perform as) (perform as')"
proof (induction as as' rule: list_all2_induct)
  case (Cons a as b as')
  then have "mirrors P f (and_then a (perform as)) (and_then b (perform as'))" by (intro mirrors_and_then)
  then show ?case by (simp add: mirrors_def)
qed (simp add: mirrors_def)

lemma mirrors_stop: "mirrors P f (\<lambda>s. (s, e)) (\<lambda>s. (s, e))"
  by (simp add: mirrors_def)

definition on_state :: "(lint_globals \<Rightarrow> lint_globals) \<Rightarrow> file_state \<Rightarrow> file_state" where
  "on_state f s = s\<lparr>fs_globals := f (fs_globals s)\<rparr>"

lemma on_state_simps [simp]:
  "fs_globals (on_state f s) = f (fs_globals s)" "fs_include (on_state f s) = fs_include s"
  "fs_function (on_state f s) = fs_function s" "fs_nesting (on_state f s) = fs_nesting s"
  by (simp_all add: on_state_def)

section \<open>Callbacks that agree\<close>

locale callback_morphism =
  fixes error1 error2 :: "lint_globals handler"
    and inv :: "lint_globals \<Rightarrow> bool"
    and image :: "lint_globals \<Rightarrow> lint_globals"
  assumes inv_error: "inv g \<Longrightarrow> inv (error1 r g)"
    and image_error: "inv g \<Longrightarrow> error2 r (image g) = image (error1 r g)"
    and inv_suppress: "inv g \<Longrightarrow> inv (add_suppression k l g)"
    and image_suppress: "add_suppression k l (image g) = image (add_suppression k l g)"
    and inv_reset: "inv g \<Longrightarrow> inv (ResetNolintSuppressions g)"
    and image_reset: "ResetNolintSuppressions (image g) = image (ResetNolintSuppressions g)"
    and inv_globally: "inv g \<Longrightarrow> inv (suppress_globally cs g)"
    and image_globally: "suppress_globally cs (image g) = image (suppress_globally cs g)"
    and image_settings: "same_settings (image g) g"
begin

abbreviation follows :: "lint_globals action \<Rightarrow> lint_globals action \<Rightarrow> bool" where
  "follows \<equiv> mirrors inv image"

abbreviation file_follows :: "file_state action \<Rightarrow> file_state action \<Rightarrow> bool" where
  "file_follows \<equiv> mirrors (\<lambda>s. inv (fs_globals s)) (on_state image)"

lemmas image_reads [simp] = reads [OF image_settings]

lemma emit_follows: "inv g \<Longrightarrow> inv (emit error1 rs g) \<and> emit error2 rs (image g) = image (emit error1 rs g)"
  by (induction rs arbitrary: g) (simp_all add: inv_error image_error)

lemma nolint_follows:
  "inv g \<Longrightarrow> inv (ParseNolintSuppressions error1 f raw l g) \<and>
    ParseNolintSuppressions error2 f raw l (image g) = image (ParseNolintSuppressions error1 f raw l g)"
  by (simp add: ParseNolintSuppressions_def Let_def inv_error inv_suppress image_error image_suppress
      split: option.split)

lemma globally_follows:
  "inv g \<Longrightarrow> inv (ProcessGlobalSuppresions ls g) \<and>
    ProcessGlobalSuppresions ls (image g) = image (ProcessGlobalSuppresions ls g)"
  by (induction ls arbitrary: g) (simp_all add: Let_def inv_globally image_globally)

lemma run_follows: "follows (\<lambda>g. run_outcome error1 (oc g) g) (\<lambda>g. run_outcome error2 (oc' g) g)"
  if "\<And>g. oc' (image g) = oc g" for oc oc'
  using that emit_follows by (simp add: mirrors_def run_outcome_def)

lemma CheckTrailingSemicolon_follows:
  "follows (CheckTrailingSemicolon error1 f c l) (CheckTrailingSemicolon error2 f c l)"
  by (auto simp: mirrors_def CheckTrailingSemicolon_def Let_def nolint_follows inv_error image_error
      split: sum.split option.split prod.split)

lemma CheckStyle_follows:
  "follows (CheckStyle error1 env f c l ext s) (CheckStyle error2 env f c l ext s)"
  unfolding CheckStyle_def
  by (intro mirrors_perform list_all2_Cons [THEN iffD2] conjI run_follows run_follows [where oc = "\<lambda>_. oc" for oc]
      CheckTrailingSemicolon_follows list.rel_inject) simp_all

lemma on_globals_follows:
  "(\<And>s :: file_state. follows (a s) (b s)) \<Longrightarrow> (\<And>s. b (on_state image s) = b s) \<Longrightarrow>
    file_follows (\<lambda>s. on_globals (a s) s) (\<lambda>s. on_globals (b s) s)"
proof (rule mirrorsI)
  fix s :: file_state assume a: "\<And>s. follows (a s) (b s)" "\<And>s. b (on_state image s) = b s" and s: "inv (fs_globals s)"
  from mirrorsD [OF a(1) s, of s]
  show "inv (fs_globals (fst (on_globals (a s) s))) \<and> on_globals (b (on_state image s)) (on_state image s) =
      (on_state image (fst (on_globals (a s) s)), snd (on_globals (a s) s))"
    by (simp add: on_globals_def on_state_def a(2) [unfolded on_state_def] case_prod_beta)
qed

lemma check_follows:
  assumes "\<And>s. oc (on_state image s) = oc s"
  shows "file_follows (check_with error1 oc) (check_with error2 oc)"
proof -
  have "follows (run_outcome error1 (oc s)) (run_outcome error2 (oc s))" for s
    using run_follows [of "\<lambda>_. oc s" "\<lambda>_. oc s"] by simp
  then show ?thesis
    using on_globals_follows [of "\<lambda>s. run_outcome error1 (oc s)" "\<lambda>s. run_outcome error2 (oc s)"] assms
    by (simp add: check_with_def [abs_def])
qed

lemma update_follows: "file_follows (update_nesting error1 f c l) (update_nesting error2 f c l)"
  by (simp add: mirrors_def update_nesting_def emit_follows on_state_def split: sum.split prod.split)

lemma function_lengths_follows: "file_follows (function_lengths error1 f c l) (function_lengths error2 f c l)"
  by (simp add: mirrors_def function_lengths_def emit_follows on_state_def split: prod.split)

lemma language_follows: "file_follows (language error1 env f ext c l) (language error2 env f ext c l)"
  by (simp add: mirrors_def language_def on_globals_def run_outcome_def emit_follows on_state_def split: prod.split)

lemma begin_line_follows: "file_follows (begin_line error1 f c l) (begin_line error2 f c l)"
proof -
  have "follows (\<lambda>g. (ParseNolintSuppressions error1 f raw k g, None)) (\<lambda>g. (ParseNolintSuppressions error2 f raw k g, None))"
    for raw k by (simp add: mirrors_def nolint_follows)
  then have "file_follows (on_globals (\<lambda>g. (ParseNolintSuppressions error1 f raw k g, None)))
      (on_globals (\<lambda>g. (ParseNolintSuppressions error2 f raw k g, None)))" for raw k
    using on_globals_follows [of "\<lambda>_. (\<lambda>g. (ParseNolintSuppressions error1 f raw k g, None))"
      "\<lambda>_. (\<lambda>g. (ParseNolintSuppressions error2 f raw k g, None))"] by simp
  then show ?thesis unfolding begin_line_def
    by (intro mirrors_perform) (simp add: update_follows check_follows)
qed

lemma check_line_follows: "file_follows (check_line error1 env f ext c l) (check_line error2 env f ext c l)"
proof -
  have "file_follows (\<lambda>s. on_globals (CheckStyle error1 env f c l ext (fs_nesting s)) s)
      (\<lambda>s. on_globals (CheckStyle error2 env f c l ext (fs_nesting s)) s)"
    by (rule on_globals_follows) (simp_all add: CheckStyle_follows)
  then show ?thesis unfolding check_line_def
    by (intro mirrors_perform) (simp add: function_lengths_follows language_follows check_follows)
qed

lemma ProcessLine_follows: "file_follows (ProcessLine error1 env f ext c l) (ProcessLine error2 env f ext c l)"
proof -
  have "file_follows (\<lambda>s. if InAsmBlock (fs_nesting s) then (s, None) else check_line error1 env f ext c l s)
      (\<lambda>s. if InAsmBlock (fs_nesting s) then (s, None) else check_line error2 env f ext c l s)"
    using check_line_follows by (simp add: mirrors_def)
  then show ?thesis unfolding ProcessLine_def [abs_def]
    by (intro mirrors_and_then begin_line_follows)
qed

lemma process_lines_follows:
  "file_follows (process_lines error1 env f ext c) (process_lines error2 env f ext c)"
  unfolding process_lines_def [abs_def]
  by (intro mirrors_perform)
    (auto simp: list_all2_conv_all_nth intro!: mirrors_and_then ProcessLine_follows check_follows)

lemma header_guard_follows: "follows (header_guard error1 env f ext c) (header_guard error2 env f ext c)"
  by (simp add: mirrors_def header_guard_def CheckForHeaderGuard_def Let_def nolint_follows emit_follows
      inv_error image_error split: option.split)

lemma finish_file_follows:
  "file_follows (finish_file error1 env hl f ext ls c) (finish_file error2 env hl f ext ls c)"
proof -
  have "file_follows (check_with error1 (header_included env f)) (check_with error2 (header_included env f))"
    by (rule check_follows) (simp add: header_included_def)
  then have "file_follows
      (\<lambda>s. if IsSourceExtension (fs_globals s) ext then check_with error1 (header_included env f) s else (s, None))
      (\<lambda>s. if IsSourceExtension (fs_globals s) ext then check_with error2 (header_included env f) s else (s, None))"
    by (simp add: mirrors_def)
  then show ?thesis unfolding finish_file_def
    by (intro mirrors_perform) (simp add: check_follows)
qed

lemma start_file_follows:
  "inv g \<Longrightarrow> inv (snd (start_file error1 f ls g)) \<and>
    start_file error2 f ls (image g) = map_prod id image (start_file error1 f ls g)"
  by (simp add: start_file_def Let_def emit_follows globally_follows inv_reset image_reset
      split: prod.split)

theorem ProcessFileData_follows:
  assumes "inv g"
  shows "ProcessFileData error2 env hl f ext ls (image g) =
    map_prod image id (ProcessFileData error1 env hl f ext ls g)"
proof -
  obtain ls' g1 where st: "start_file error1 f ([first_marker] @ ls @ [last_marker]) g = (ls', g1)"
    by (rule prod.exhaust)
  with start_file_follows [OF assms, of f "[first_marker] @ ls @ [last_marker]"]
  have g1: "inv g1" and st': "start_file error2 f ([first_marker] @ ls @ [last_marker]) (image g) = (ls', image g1)"
    by simp_all
  show ?thesis
  proof (cases "CleansedLines ls'")
    case (Inl e)
    then show ?thesis unfolding ProcessFileData_def st st' by simp
  next
    case (Inr c)
    let ?s = "\<lparr>fs_include = init_include_state, fs_function = init_function_state,
      fs_nesting = init_nesting_state, fs_globals = g1\<rparr>"
    have guard: "file_follows (on_globals (header_guard error1 env f ext c)) (on_globals (header_guard error2 env f ext c))"
      using on_globals_follows [of "\<lambda>_. header_guard error1 env f ext c" "\<lambda>_. header_guard error2 env f ext c"]
        header_guard_follows by simp
    have "file_follows
        (perform [on_globals (header_guard error1 env f ext c), process_lines error1 env f ext c,
          finish_file error1 env hl f ext ls' c])
        (perform [on_globals (header_guard error2 env f ext c), process_lines error2 env f ext c,
          finish_file error2 env hl f ext ls' c])"
      by (intro mirrors_perform) (simp add: guard process_lines_follows finish_file_follows)
    from mirrorsD [OF this, of ?s] g1 Inr show ?thesis
      unfolding ProcessFileData_def st st' by (simp add: on_state_def case_prod_beta del: perform.simps)
  qed
qed

end

section \<open>The output formats\<close>

text \<open>The state in another format, with the texts of the failures written.\<close>

definition in_format :: "string \<Rightarrow> lint_globals \<Rightarrow> lint_globals" where
  "in_format fmt g = g\<lparr>lint := (lint g)\<lparr>output_format := fmt, junit_failures := []\<rparr>,
     err := err g @ map (report_text fmt) (junit_failures (lint g))\<rparr>"

definition for_junit :: "lint_globals \<Rightarrow> bool" where
  "for_junit g \<longleftrightarrow> filters_ok g \<and> output_format (lint g) = ''junit''"

lemma in_format_write:
  "\<lbrakk>output_format (lint g) = ''junit''; fmt \<noteq> ''junit''\<rbrakk> \<Longrightarrow>
    in_format fmt (write_error r g) = write_error r (in_format fmt g)"
  by (simp add: in_format_def write_error_def report_text_def Let_def PrintError_def AddJUnitFailure_def
      IncrementErrorCount_def)

lemma in_format_reads:
  "filters_ok (in_format fmt g) = filters_ok g" "accepts (in_format fmt g) = accepts g"
  by (simp_all add: in_format_def filters_ok_def Filters_def accepts_def ShouldPrintError_def
      IsErrorSuppressedByNolint_def fun_eq_iff)

lemma in_format_Error:
  "\<lbrakk>for_junit g; fmt \<noteq> ''junit''\<rbrakk> \<Longrightarrow> in_format fmt (Error r g) = Error r (in_format fmt g)"
  by (simp add: for_junit_def Error_eq in_format_reads in_format_write)

lemma for_junit_keeps:
  "for_junit g \<Longrightarrow> for_junit (Error r g)" "for_junit (add_suppression k l g) = for_junit g"
  "for_junit (ResetNolintSuppressions g) = for_junit g" "for_junit (suppress_globally cs g) = for_junit g"
  by (simp_all add: for_junit_def Error_eq filters_ok_def Filters_def add_suppression_def
      ResetNolintSuppressions_def suppress_globally_def)

lemma in_format_suppress:
  "add_suppression k l (in_format fmt g) = in_format fmt (add_suppression k l g)"
  "ResetNolintSuppressions (in_format fmt g) = in_format fmt (ResetNolintSuppressions g)"
  "suppress_globally cs (in_format fmt g) = in_format fmt (suppress_globally cs g)"
  by (simp_all add: in_format_def add_suppression_def ResetNolintSuppressions_def suppress_globally_def)

lemma in_format_settings: "same_settings (in_format fmt g) g"
  by (simp add: same_settings_def in_format_def VerboseLevel_def)

interpretation text_output: callback_morphism Error Error "\<lambda>g. for_junit g \<and> fmt \<noteq> ''junit''" "in_format fmt" for fmt
  by unfold_locales (simp_all add: in_format_Error for_junit_keeps in_format_suppress in_format_settings)

text \<open>C7: The text formats refine the collection of failures for JUnit: linting a file in the format
  \<open>vs7\<close>, \<open>eclipse\<close> or \<open>emacs\<close> gives the state that linting it for JUnit gives, with the text of
  each recorded failure written to \<open>stderr\<close> in the order of recording, and ends the same way.\<close>

theorem text_formats_refine_junit:
  assumes "filters_ok g" and "output_format (lint g) = ''junit''" and "fmt \<noteq> ''junit''"
  shows "ProcessFileData Error env header_lines filename ext ls (in_format fmt g) =
    map_prod (in_format fmt) id (ProcessFileData Error env header_lines filename ext ls g)"
  using assms by (intro text_output.ProcessFileData_follows) (simp add: for_junit_def)

definition junit_globals :: lint_globals where
  "junit_globals = SetOutputFormat_g ''junit'' init_globals"

lemma text_formats_refine_junit_witness:
  "let g = fst (ProcessFileData Error empty_dir (\<lambda>_. None) ''a.cc'' ''cc'' [''int x;''] junit_globals) in
    err (fst (ProcessFileData Error empty_dir (\<lambda>_. None) ''a.cc'' ''cc'' [''int x;'']
        (SetOutputFormat_g ''vs7'' init_globals))) = err g @ map vs7_text (junit_failures (lint g))"
proof -
  have "filters_ok junit_globals" "output_format (lint junit_globals) = ''junit''"
    by code_simp+
  moreover have "in_format ''vs7'' junit_globals = SetOutputFormat_g ''vs7'' init_globals"
    by (simp add: junit_globals_def in_format_def SetOutputFormat_g_def SetOutputFormat_def init_globals_def
        init_cpplint_state_def)
  ultimately show ?thesis
    using text_formats_refine_junit [of junit_globals "''vs7''" empty_dir "\<lambda>_. None" "''a.cc''" "''cc''" "[''int x;'']"]
    by (simp add: Let_def in_format_def report_text_def)
qed

end
