(* ===== verification/Tidy.thy ===== *)
theory Tidy
  imports Paths
begin

text \<open>
  The scripts that run clang-tidy, \<open>build_support/run_clang_tidy.py\<close> and
  \<open>build_support/run_clang_tidy_extra.py\<close>, but for the threads: what \<open>main\<close> does before it starts
  them and after they have ended.  The operating system, the processes that are started, \<open>git\<close>, the
  libraries for JSON and for regular expressions given by the user are the parameter \<open>tidy_env\<close>.
\<close>

section \<open>The arguments\<close>

text \<open>The object that \<open>argparse\<close> returns; \<open>default_args\<close> has the defaults of its options.\<close>

record tidy_args =
  ta_clang_tidy_binary :: string
  ta_apply_binary :: string
  ta_checks :: "string option"
  ta_config :: "string option"
  ta_header_filter :: "string option"
  ta_export_fixes :: "string option"
  ta_jobs :: int
  ta_files :: "string list"
  ta_fix :: bool
  ta_format :: bool
  ta_style :: string
  ta_build_path :: "string option"
  ta_extra_arg :: "string list"
  ta_extra_arg_before :: "string list"
  ta_quiet :: bool
  ta_only_diff :: bool

definition default_args :: tidy_args where
  "default_args =
     \<lparr>ta_clang_tidy_binary = ''clang-tidy'', ta_apply_binary = ''clang-apply-replacements'',
      ta_checks = None, ta_config = None, ta_header_filter = None, ta_export_fixes = None,
      ta_jobs = 0, ta_files = [''.*''], ta_fix = False, ta_format = False, ta_style = ''file'',
      ta_build_path = None, ta_extra_arg = [], ta_extra_arg_before = [], ta_quiet = False,
      ta_only_diff = False\<rparr>"

text \<open>The truth value of a string or \<open>None\<close>.\<close>

definition truthy :: "string option \<Rightarrow> bool" where
  "truthy x \<longleftrightarrow> x \<noteq> None \<and> x \<noteq> Some []"

section \<open>The environment\<close>

text \<open>
  How a process of clang-tidy ends: it could not be started, or it has an exit status and two
  outputs, \<open>None\<close> where their decoding fails.
\<close>

datatype proc_result = NotStarted | Ended int "string option" "string option"

text \<open>
  \<open>te_check_call\<close>: the process was started and ended with status 0; \<open>te_call\<close>: it was started.
  \<open>te_database\<close>: the pairs of file and directory of a compilation database; \<open>te_git\<close>: the decoded
  output of a command; \<open>te_compile\<close>: whether a pattern is found in a text.  Each is \<open>None\<close> where the
  call raises.  \<open>te_mkstemp d k\<close> is the name of the file created in \<open>d\<close> when \<open>k\<close> have been before.
\<close>

record tidy_env =
  te_isfile :: "string \<Rightarrow> bool"
  te_realpath :: "string \<Rightarrow> string"
  te_is_a_tty :: bool
  te_platform :: string
  te_environ :: "string \<Rightarrow> string option"
  te_cpu_count :: int
  te_check_call :: "string list \<Rightarrow> bool"
  te_call :: "string list \<Rightarrow> bool"
  te_database :: "string \<Rightarrow> (string \<times> string) list option"
  te_git :: "string list \<Rightarrow> string option"
  te_compile :: "string \<Rightarrow> (string \<Rightarrow> bool) option"
  te_mkdtemp :: "string option"
  te_mkstemp :: "string \<Rightarrow> nat \<Rightarrow> string option"
  te_run :: "string list \<Rightarrow> proc_result"
  te_glob :: "string \<Rightarrow> string list"
  te_writable :: "string \<Rightarrow> bool"
  te_pformat :: "string list \<Rightarrow> string"

text \<open>
  A stage of the program that ends it: \<open>sys.exit\<close> with the lines printed to the two outputs, or an
  exception that nothing catches.
\<close>

datatype halt = Exit "string list" "string list" int | Traceback

section \<open>\<open>CheckConfig\<close>\<close>

text \<open>\<open>.*/third_party/.*\<close>, the one pattern to ignore\<close>

definition third_party_path_re :: re where
  "third_party_path_re = Seqs [Star Any, Lit ([slash] @ ''third_party'' @ [slash]), Star Any]"

definition ignore_pats :: "re list" where
  "ignore_pats = [third_party_path_re]"

definition should_skip :: "string \<Rightarrow> bool" where
  "should_skip path \<longleftrightarrow> list_ex (\<lambda>pat. matches pat path) ignore_pats"

section \<open>Paths and the invocation\<close>

text \<open>The loop of \<open>find_compilation_database\<close>; it ends the program at the root.\<close>

partial_function (option) find_database_from ::
  "tidy_env \<Rightarrow> string \<Rightarrow> string \<Rightarrow> (halt + string) option" where
  "find_database_from env path result =
     (if te_isfile env (join2 result path) then Some (Inr (te_realpath env result))
      else if te_realpath env result = [slash]
      then Some (Inl (Exit [''Error: could not find compilation database.''] [] 1))
      else find_database_from env path (result @ ''..'' @ [slash]))"

declare find_database_from.simps [code]

definition find_compilation_database :: "tidy_env \<Rightarrow> string \<Rightarrow> (halt + string) option" where
  "find_compilation_database env path = find_database_from env path (''.'' @ [slash])"

definition make_absolute :: "string \<Rightarrow> string \<Rightarrow> string" where
  "make_absolute f directory =
     (if startswith f [slash] then f else os_normpath (join2 directory f))"

definition supports_color :: "tidy_env \<Rightarrow> bool" where
  "supports_color env \<longleftrightarrow> te_is_a_tty env \<and>
     (te_platform env \<noteq> ''win32'' \<or> te_environ env ''ANSICON'' \<noteq> None \<or>
      te_environ env ''WT_SESSION'' \<noteq> None \<or> te_environ env ''TERM_PROGRAM'' = Some ''vscode'')"

text \<open>\<open>None\<close>: the temporary file could not be created.  The number counts the temporary files.\<close>

definition temp_file :: "tidy_env \<Rightarrow> string option \<Rightarrow> nat \<Rightarrow> (string list \<times> nat) option" where
  "temp_file env tmpdir k =
     (case tmpdir of
        None \<Rightarrow> Some ([], k)
      | Some d \<Rightarrow> map_option (\<lambda>name. ([''-export-fixes'', name], k + 1)) (te_mkstemp env d k))"

definition get_tidy_invocation ::
  "tidy_env \<Rightarrow> tidy_args \<Rightarrow> string option \<Rightarrow> string \<Rightarrow> string \<Rightarrow> nat \<Rightarrow> (string list \<times> nat) option" where
  "get_tidy_invocation env args tmpdir build_path f k =
     (let start = [ta_clang_tidy_binary args] @
            (if supports_color env then [''--use-color''] else []) @
            (case ta_header_filter args of None \<Rightarrow> [] | Some h \<Rightarrow> [''-header-filter='' @ h]) @
            (if truthy (ta_checks args) then [''-checks='' @ the (ta_checks args)] else [])
      in map_option (\<lambda>(export, k').
           (start @ export @
            map (\<lambda>a. ''-extra-arg='' @ a) (ta_extra_arg args) @
            map (\<lambda>a. ''-extra-arg-before='' @ a) (ta_extra_arg_before args) @
            [''-p='' @ build_path] @
            (if ta_quiet args then [''-quiet''] else []) @
            (if truthy (ta_config args) then [''-config='' @ the (ta_config args)] else []) @
            [f], k'))
         (temp_file env tmpdir k))"

section \<open>\<open>main\<close> before the threads\<close>

text \<open>What the threads and the end of \<open>main\<close> work with.\<close>

record tidy_job =
  tj_build_path :: string
  tj_tmpdir :: "string option"
  tj_files :: "string list"
  tj_max_task :: int
  tj_search :: "string \<Rightarrow> bool"

definition db_path :: string where "db_path = ''compile_commands.json''"

definition find_build_path :: "tidy_env \<Rightarrow> tidy_args \<Rightarrow> (halt + string) option" where
  "find_build_path env args =
     (case ta_build_path args of
        Some p \<Rightarrow> Some (Inr p)
      | None \<Rightarrow> find_compilation_database env db_path)"

definition list_checks :: "tidy_args \<Rightarrow> string \<Rightarrow> string list" where
  "list_checks args build_path =
     [ta_clang_tidy_binary args, ''-list-checks''] @ [''-p='' @ build_path] @
     (if truthy (ta_checks args) then [''-checks='' @ the (ta_checks args)] else []) @ [''-'']"

definition database_files :: "tidy_env \<Rightarrow> string \<Rightarrow> string list option" where
  "database_files env build_path =
     map_option (map (\<lambda>(f, directory). make_absolute f directory)) (te_database env (join2 build_path db_path))"

text \<open>The files that differ from \<open>origin/master\<close>.\<close>

definition git_changed_files :: "tidy_env \<Rightarrow> string list option" where
  "git_changed_files env =
     Option.bind (te_git env [''git'', ''rev-parse'', ''--show-toplevel'']) (\<lambda>repo.
       map_option (\<lambda>changed. map (\<lambda>x. make_absolute x (strip repo)) (str_split CHR 0x0A (strip changed)))
         (te_git env [''git'', ''--no-pager'', ''diff'', ''--name-only'', ''origin/master'']))"

definition files_to_check :: "tidy_env \<Rightarrow> tidy_args \<Rightarrow> string list \<Rightarrow> string list option" where
  "files_to_check env args files =
     (if ta_only_diff args
      then map_option (\<lambda>changed. filter (\<lambda>x. x \<in> set changed) files) (git_changed_files env)
      else Some files)"

definition max_tasks :: "tidy_env \<Rightarrow> tidy_args \<Rightarrow> int" where
  "max_tasks env args = (if ta_jobs args = 0 then te_cpu_count env else ta_jobs args)"

definition check_clang_apply_replacements_binary :: "tidy_env \<Rightarrow> tidy_args \<Rightarrow> halt option" where
  "check_clang_apply_replacements_binary env args =
     (if te_check_call env [ta_apply_binary args, ''--version''] then None
      else Some (Exit [] [''Unable to run clang-apply-replacements. Is clang-apply-replacements '' @
             ''binary correctly specified?''] 1))"

definition temp_directory :: "tidy_env \<Rightarrow> tidy_args \<Rightarrow> halt + string option" where
  "temp_directory env args =
     (if ta_fix args \<or> truthy (ta_export_fixes args)
      then case check_clang_apply_replacements_binary env args of
          Some h \<Rightarrow> Inl h
        | None \<Rightarrow> (case te_mkdtemp env of None \<Rightarrow> Inl Traceback | Some d \<Rightarrow> Inr (Some d))
      else Inr None)"

text \<open>From the build path on.\<close>

definition setup_job :: "tidy_env \<Rightarrow> tidy_args \<Rightarrow> string \<Rightarrow> halt + tidy_job" where
  "setup_job env args build_path =
     (if \<not> te_check_call env (list_checks args build_path)
      then Inl (Exit [] [''Unable to run clang-tidy.''] 1)
      else case Option.bind (database_files env build_path) (files_to_check env args) of
        None \<Rightarrow> Inl Traceback
      | Some files \<Rightarrow>
          (case temp_directory env args of
             Inl h \<Rightarrow> Inl h
           | Inr tmpdir \<Rightarrow>
               (case te_compile env (str_join ''|'' (ta_files args)) of
                  None \<Rightarrow> Inl Traceback
                | Some search \<Rightarrow>
                    Inr \<lparr>tj_build_path = build_path, tj_tmpdir = tmpdir, tj_files = files,
                      tj_max_task = max_tasks env args, tj_search = search\<rparr>)))"

text \<open>\<open>None\<close>: the search for the database never ends.\<close>

definition setup_tidy :: "tidy_env \<Rightarrow> tidy_args \<Rightarrow> (halt + tidy_job) option" where
  "setup_tidy env args =
     map_option (\<lambda>r. case r of Inl h \<Rightarrow> Inl h | Inr build_path \<Rightarrow> setup_job env args build_path)
       (find_build_path env args)"

section \<open>Replacement files\<close>

text \<open>
  The module \<open>yaml\<close>: the content of a file as a dictionary to lists of diagnostics, or empty; the outer
  \<open>None\<close> where loading raises.  \<open>merge_replacement_files\<close> uses the module by its name, which the
  script does not import: the argument is \<open>None\<close> where the name is not bound.  The result of the
  merge is the list that is written, empty for an empty file.  Without a temporary directory joining
  the path raises \<open>TypeError\<close>.
\<close>

type_synonym 'd yaml_module = "string \<Rightarrow> (string \<Rightarrow> 'd list option) option option"

datatype tidy_error = NameError | LoadError | OSError | NoDirectory

fun merge_loop :: "'d yaml_module option \<Rightarrow> string list \<Rightarrow> 'd list \<Rightarrow> tidy_error + 'd list" where
  "merge_loop yaml [] merged = Inr merged"
| "merge_loop yaml (replacefile # rest) merged =
     (case yaml of
        None \<Rightarrow> Inl NameError
      | Some safe_load \<Rightarrow>
          (case safe_load replacefile of
             None \<Rightarrow> Inl LoadError
           | Some None \<Rightarrow> merge_loop yaml rest merged
           | Some (Some content) \<Rightarrow>
               merge_loop yaml rest
                 (merged @ (case content ''Diagnostics'' of None \<Rightarrow> [] | Some ds \<Rightarrow> ds))))"

definition merge_replacement_files ::
  "tidy_env \<Rightarrow> 'd yaml_module option \<Rightarrow> string option \<Rightarrow> string \<Rightarrow> tidy_error + 'd list" where
  "merge_replacement_files env yaml tmpdir mergefile =
     (case tmpdir of
        None \<Rightarrow> Inl NoDirectory
      | Some d \<Rightarrow>
          (case merge_loop yaml (te_glob env (join2 d ''*.yaml'')) [] of
             Inl e \<Rightarrow> Inl e
           | Inr merged \<Rightarrow> if te_writable env mergefile then Inr merged else Inl OSError))"

text \<open>Whether the call ends without an exception; the status of the process is not looked at.\<close>

definition apply_fixes :: "tidy_env \<Rightarrow> tidy_args \<Rightarrow> string option \<Rightarrow> bool" where
  "apply_fixes env args tmpdir =
     (case tmpdir of
        None \<Rightarrow> False
      | Some d \<Rightarrow> te_call env
          ([ta_apply_binary args] @ (if ta_format args then [''-format''] else []) @
           (if ta_style args \<noteq> [] then [''-style='' @ ta_style args] else []) @ [d]))"

section \<open>\<open>main\<close> after the threads\<close>

text \<open>The lines printed to the two outputs, and the exit status.\<close>

type_synonym tidy_end = "string list \<times> string list \<times> int"

definition report_failed :: "tidy_env \<Rightarrow> string list \<Rightarrow> tidy_end" where
  "report_failed env failed_files =
     (if failed_files \<noteq> []
      then ([''The files that failed were:'', te_pformat env failed_files,
             ''Note that a failing .h file will fail all the .cpp files that include it.'' @ [CHR 0x0A]], [], 1)
      else ([], [], 0))"

definition export_step :: "tidy_env \<Rightarrow> tidy_args \<Rightarrow> string option \<Rightarrow> tidy_end \<Rightarrow> tidy_end" where
  "export_step env args tmpdir r =
     (case r of (outs, errs, code) \<Rightarrow>
        if truthy (ta_export_fixes args)
        then let f = the (ta_export_fixes args);
                 outs' = outs @ [''Writing fixes to '' @ f @ '' ...'']
             in case merge_replacement_files env (None :: unit yaml_module option) tmpdir f of
                  Inl _ \<Rightarrow> (outs', errs @ [''Error exporting fixes.'' @ [CHR 0x0A]], 1)
                | Inr _ \<Rightarrow> (outs', errs, code)
        else (outs, errs, code))"

definition fix_step :: "tidy_env \<Rightarrow> tidy_args \<Rightarrow> string option \<Rightarrow> tidy_end \<Rightarrow> tidy_end" where
  "fix_step env args tmpdir r =
     (case r of (outs, errs, code) \<Rightarrow>
        if ta_fix args
        then let outs' = outs @ [''Applying fixes ...'']
             in if apply_fixes env args tmpdir then (outs', errs, code)
                else (outs', errs @ [''Error applying fixes.'' @ [CHR 0x0A]], 1)
        else (outs, errs, code))"

definition finish_tidy :: "tidy_env \<Rightarrow> tidy_args \<Rightarrow> string option \<Rightarrow> string list \<Rightarrow> tidy_end" where
  "finish_tidy env args tmpdir failed_files =
     (case fix_step env args tmpdir (export_step env args tmpdir (report_failed env failed_files)) of
        (outs, errs, code) \<Rightarrow> (outs @ [[]], errs, code))"


section \<open>The search for the database\<close>

definition level :: "nat \<Rightarrow> string" where
  "level k = ''.'' @ [slash] @ concat (replicate k (''..'' @ [slash]))"

lemma level_Suc: "level (Suc k) = level k @ ''..'' @ [slash]"
proof -
  have "concat (replicate (Suc k) w) = concat (replicate k w) @ w" for w :: string
    by (induction k) auto
  then show ?thesis by (simp only: level_def append_assoc)
qed

lemma level_0: "level 0 = ''.'' @ [slash]"
  by (simp add: level_def)

text \<open>Where the search ends: at a database, or at the root of the file system.\<close>

definition stops_at :: "tidy_env \<Rightarrow> string \<Rightarrow> nat \<Rightarrow> bool" where
  "stops_at env path k \<longleftrightarrow> te_isfile env (join2 (level k) path) \<or> te_realpath env (level k) = [slash]"

definition ends_with :: "tidy_env \<Rightarrow> string \<Rightarrow> nat \<Rightarrow> halt + string" where
  "ends_with env path k =
     (if te_isfile env (join2 (level k) path) then Inr (te_realpath env (level k))
      else Inl (Exit [''Error: could not find compilation database.''] [] 1))"

lemma search_step:
  "find_database_from env path (level k) =
     (if stops_at env path k then Some (ends_with env path k)
      else find_database_from env path (level (Suc k)))"
  by (subst find_database_from.simps) (simp add: stops_at_def ends_with_def level_Suc)

lemma search_reaches:
  "\<lbrakk>stops_at env path k; \<forall>j<k. \<not> stops_at env path j; i \<le> k\<rbrakk> \<Longrightarrow>
   find_database_from env path (level i) = Some (ends_with env path k)"
proof (induction "k - i" arbitrary: i)
  case 0
  then show ?case by (subst search_step) simp
next
  case (Suc d)
  then have "i < k" by simp
  with Suc.prems have "\<not> stops_at env path i" by blast
  with Suc.hyps(1) [of "Suc i"] Suc.hyps(2) Suc.prems \<open>i < k\<close> show ?case by (subst search_step) simp
qed

lemma search_ends:
  assumes "find_database_from env path r = Some x"
  shows "\<forall>i. r = level i \<longrightarrow> (\<exists>k\<ge>i. stops_at env path k)"
proof (rule find_database_from.raw_induct
    [where P = "\<lambda>env path r x. \<forall>i. r = level i \<longrightarrow> (\<exists>k\<ge>i. stops_at env path k)", OF _ assms],
    intro allI impI)
  fix f env path r x i
  assume IH: "\<And>env path r x. f env path r = Some x \<Longrightarrow> \<forall>i. r = level i \<longrightarrow> (\<exists>k\<ge>i. stops_at env path k)"
    and eq: "(if te_isfile env (join2 r path) then Some (Inr (te_realpath env r))
      else if te_realpath env r = [slash]
        then Some (Inl (Exit [''Error: could not find compilation database.''] [] 1))
        else f env path (r @ ''..'' @ [slash])) = Some x" and r: "r = level i"
  show "\<exists>k\<ge>i. stops_at env path k"
  proof (cases "stops_at env path i")
    case False
    with eq r have "f env path (level (Suc i)) = Some x" by (simp add: stops_at_def level_Suc split: if_splits)
    from IH [OF this] show ?thesis using Suc_leD by blast
  qed auto
qed

text \<open>C34: The search for the compilation database goes up from the working directory level by level.
  It returns at the first level that has the file or is the root of the file system: with the real
  path of the level when the file is there, and otherwise by leaving the program with status 1; if
  there is no such level it never returns.\<close>

theorem database_at_first_level:
  "find_compilation_database env path =
    (if \<exists>k. stops_at env path k then Some (ends_with env path (LEAST k. stops_at env path k)) else None)"
proof (cases "\<exists>k. stops_at env path k")
  case True
  then have stop: "stops_at env path (LEAST k. stops_at env path k)" by (rule LeastI_ex)
  have "find_database_from env path (level 0) = Some (ends_with env path (LEAST k. stops_at env path k))"
    using not_less_Least by (intro search_reaches [OF stop]) blast+
  with True show ?thesis by (simp only: find_compilation_database_def level_0 if_True)
next
  case False
  then have "find_database_from env path (level 0) = None"
    using search_ends [of env path "level 0"] by (cases "find_database_from env path (level 0)") blast+
  with False show ?thesis by (simp only: find_compilation_database_def level_0 if_False)
qed

section \<open>Absolute paths\<close>

text \<open>Components that \<open>norm_comps\<close> leaves as they are.\<close>

definition plain_comp :: "string \<Rightarrow> bool" where
  "plain_comp c \<longleftrightarrow> c \<noteq> [] \<and> c \<noteq> ''.'' \<and> c \<noteq> ''..'' \<and> slash \<notin> set c"

lemma norm_comps_plain:
  "\<lbrakk>list_all plain_comp acc; \<forall>c\<in>set cs. slash \<notin> set c\<rbrakk> \<Longrightarrow> list_all plain_comp (norm_comps True cs acc)"
proof (induction cs arbitrary: acc)
  case (Cons c cs)
  have l: "acc \<noteq> [] \<Longrightarrow> last acc \<noteq> ''..''"
    using Cons.prems(1) last_in_set [of acc] by (auto simp: list_all_iff plain_comp_def)
  have b: "list_all plain_comp (butlast acc)"
    using Cons.prems(1) by (auto simp: list_all_iff dest: in_set_butlastD)
  show ?case
  proof (cases "c = [] \<or> c = ''.''")
    case True
    with Cons show ?thesis by simp
  next
    case False
    show ?thesis
    proof (cases "c = ''..''")
      case True
      with Cons.IH [OF b] Cons.prems(2) l show ?thesis by auto
    next
      case plain: False
      have "list_all plain_comp (acc @ [c])" using False plain Cons.prems by (simp add: plain_comp_def [of c])
      from Cons.IH [OF this] False plain Cons.prems(2) show ?thesis by simp
    qed
  qed
qed simp

lemma norm_comps_id: "list_all plain_comp cs \<Longrightarrow> norm_comps True cs acc = acc @ cs"
  by (induction cs arbitrary: acc) (auto simp: plain_comp_def)

text \<open>An absolute path with no component to remove.\<close>

definition absolute_path :: "string \<Rightarrow> bool" where
  "absolute_path p \<longleftrightarrow> (\<exists>cs. list_all plain_comp cs \<and>
     (p = slash # str_join [slash] cs \<or> p = slash # slash # str_join [slash] cs))"

lemma normpath_absolute:
  assumes "startswith p [slash]"
  shows "absolute_path (os_normpath p)"
proof -
  have "list_all plain_comp (norm_comps True (str_split slash p) [])"
    using str_split_no_sep [of slash p] by (intro norm_comps_plain) auto
  then show ?thesis using assms
    by (auto simp: os_normpath_def Let_def absolute_path_def startswith_iff)
qed

lemma make_absolute_path:
  assumes "startswith directory [slash]"
  shows "startswith (make_absolute f directory) [slash]"
proof (cases "startswith f [slash]")
  case False
  then have "startswith (join2 directory f) [slash]" using assms by (auto simp: join2_def startswith_iff)
  with normpath_absolute [OF this] False show ?thesis
    by (auto simp: make_absolute_def absolute_path_def)
qed (simp add: make_absolute_def)

lemma make_absolute_again:
  "startswith directory [slash] \<Longrightarrow> make_absolute (make_absolute f directory) d = make_absolute f directory"
  using make_absolute_path [of directory f] by (simp add: make_absolute_def)

end
