(* ===== verification/TidyPool.thy ===== *)
theory TidyPool
  imports Tidy "HOL-Library.Multiset"
begin

text \<open>
  The threads of \<open>build_support/run_clang_tidy.py\<close>: \<open>main\<close> puts the selected files into a queue of
  bounded size, each worker thread runs \<open>run_tidy\<close>, and \<open>main\<close> waits for the queue to be worked off.
  A state is what the threads share, with the place of each worker; a step is one access of one
  thread to what is shared, so that the steps of different threads may come in any order.
\<close>

section \<open>The state\<close>

text \<open>
  The place of a worker in the loop of \<open>run_tidy\<close>: in \<open>queue.get\<close>; with a name; after the line that
  announces it; with clang-tidy running; with its output, waiting for the lock; holding the lock;
  about to write the output, with the lock; about to call \<open>task_done\<close>.  A thread that an exception
  has ended is \<open>Dead\<close>.
\<close>

datatype worker =
    Waiting
  | Taken string
  | Announced string
  | Running string "string list"
  | Exited "string option" "string option"
  | Holding "string option" "string option"
  | Writing string
  | Finished
  | Dead

text \<open>
  \<open>tp_todo\<close>: the files over which \<open>main\<close> still has to loop; \<open>tp_tasks\<close> and \<open>tp_unfinished\<close>: the queue
  and its count of unfinished tasks; \<open>tp_temps\<close>: the number of temporary files; \<open>tp_output\<close>: what
  has been printed, each call of \<open>print\<close> or \<open>write\<close> being one entry.
\<close>

record pool =
  tp_todo :: "string list"
  tp_tasks :: "string list"
  tp_unfinished :: int
  tp_workers :: "worker list"
  tp_locked :: bool
  tp_failed :: "string list"
  tp_temps :: nat
  tp_output :: "string list"

definition start_pool :: "tidy_job \<Rightarrow> pool" where
  "start_pool job =
     \<lparr>tp_todo = tj_files job, tp_tasks = [], tp_unfinished = 0,
      tp_workers = replicate (nat (tj_max_task job)) Waiting, tp_locked = False,
      tp_failed = [], tp_temps = 0, tp_output = []\<rparr>"

section \<open>The steps of a worker\<close>

definition checking_line :: "string \<Rightarrow> string" where
  "checking_line name = ''Checking: '' @ name @ [CHR 0x0A]"

fun worker_step ::
  "tidy_env \<Rightarrow> tidy_args \<Rightarrow> tidy_job \<Rightarrow> worker \<Rightarrow> pool \<Rightarrow> (worker \<times> pool) option" where
  "worker_step env args job Waiting s =
     (case tp_tasks s of [] \<Rightarrow> None | name # rest \<Rightarrow> Some (Taken name, s\<lparr>tp_tasks := rest\<rparr>))"
| "worker_step env args job (Taken name) s =
     Some (Announced name, s\<lparr>tp_output := tp_output s @ [checking_line name]\<rparr>)"
| "worker_step env args job (Announced name) s =
     (case get_tidy_invocation env args (tj_tmpdir job) (tj_build_path job) name (tp_temps s) of
        None \<Rightarrow> Some (Dead, s)
      | Some (invocation, temps) \<Rightarrow>
          Some (if should_skip name then Finished else Running name invocation, s\<lparr>tp_temps := temps\<rparr>))"
| "worker_step env args job (Running name invocation) s =
     (case te_run env invocation of
        NotStarted \<Rightarrow> Some (Dead, s)
      | Ended returncode output errors \<Rightarrow>
          Some (Exited output errors,
            s\<lparr>tp_failed := tp_failed s @ (if returncode \<noteq> 0 then [name] else [])\<rparr>))"
| "worker_step env args job (Exited output errors) s =
     (if tp_locked s then None else Some (Holding output errors, s\<lparr>tp_locked := True\<rparr>))"
| "worker_step env args job (Holding output errors) s =
     (case (output, errors) of
        (Some t, Some _) \<Rightarrow>
          if t \<noteq> [] then Some (Writing t, s\<lparr>tp_output := tp_output s @ [[CHR 0x0A]]\<rparr>)
          else Some (Finished, s\<lparr>tp_locked := False\<rparr>)
      | _ \<Rightarrow> Some (Dead, s\<lparr>tp_locked := False\<rparr>))"
| "worker_step env args job (Writing t) s =
     Some (Finished, s\<lparr>tp_output := tp_output s @ [t], tp_locked := False\<rparr>)"
| "worker_step env args job Finished s = Some (Waiting, s\<lparr>tp_unfinished := tp_unfinished s - 1\<rparr>)"
| "worker_step env args job Dead s = None"

section \<open>The steps of \<open>main\<close>\<close>

definition selected :: "tidy_job \<Rightarrow> string \<Rightarrow> bool" where
  "selected job name \<longleftrightarrow> tj_search job name \<and> \<not> endswith name (''tools'' @ [slash] @ ''backtrace.cpp'')"

text \<open>A queue whose size is not positive is unbounded.\<close>

definition has_room :: "tidy_job \<Rightarrow> pool \<Rightarrow> bool" where
  "has_room job s \<longleftrightarrow> tj_max_task job \<le> 0 \<or> int (length (tp_tasks s)) < tj_max_task job"

definition put_step :: "tidy_job \<Rightarrow> pool \<Rightarrow> pool option" where
  "put_step job s =
     (case tp_todo s of
        [] \<Rightarrow> None
      | name # rest \<Rightarrow>
          if \<not> selected job name then Some (s\<lparr>tp_todo := rest\<rparr>)
          else if has_room job s
          then Some (s\<lparr>tp_todo := rest, tp_tasks := tp_tasks s @ [name], tp_unfinished := tp_unfinished s + 1\<rparr>)
          else None)"

definition still_waiting :: string where
  "still_waiting = ''Still waiting to put files into clang-tidy queue.'' @ [CHR 0x0A]"

text \<open>\<open>queue.Full\<close>, when the queue has been full for the time of the timeout.\<close>

definition timeout_step :: "tidy_job \<Rightarrow> pool \<Rightarrow> pool option" where
  "timeout_step job s =
     (case tp_todo s of
        [] \<Rightarrow> None
      | name # rest \<Rightarrow>
          if selected job name \<and> \<not> has_room job s
          then Some (s\<lparr>tp_output := tp_output s @ [still_waiting]\<rparr>) else None)"

inductive pool_step :: "tidy_env \<Rightarrow> tidy_args \<Rightarrow> tidy_job \<Rightarrow> pool \<Rightarrow> pool \<Rightarrow> bool"
  for env args job where
  put: "put_step job s = Some s' \<Longrightarrow> pool_step env args job s s'"
| work: "\<lbrakk>tp_workers s = us @ w # vs; worker_step env args job w s = Some (w', s')\<rbrakk> \<Longrightarrow>
    pool_step env args job s (s'\<lparr>tp_workers := us @ w' # vs\<rparr>)"

text \<open>
  A run takes \<open>n\<close> steps, besides the timeouts.  \<open>task_queue.join()\<close> returns when \<open>joined\<close>.
\<close>

inductive pool_run :: "tidy_env \<Rightarrow> tidy_args \<Rightarrow> tidy_job \<Rightarrow> nat \<Rightarrow> pool \<Rightarrow> pool \<Rightarrow> bool"
  for env args job where
  none: "pool_run env args job 0 s s"
| step: "\<lbrakk>pool_run env args job n s s'; pool_step env args job s' s''\<rbrakk> \<Longrightarrow> pool_run env args job (Suc n) s s''"
| timeout: "\<lbrakk>pool_run env args job n s s'; timeout_step job s' = Some s''\<rbrakk> \<Longrightarrow> pool_run env args job n s s''"

definition joined :: "pool \<Rightarrow> bool" where
  "joined s \<longleftrightarrow> tp_todo s = [] \<and> tp_unfinished s = 0"

text \<open>A scheduler that chooses the next thread.\<close>

datatype choice = Main | Timeout | Thread nat

fun pool_next :: "tidy_env \<Rightarrow> tidy_args \<Rightarrow> tidy_job \<Rightarrow> choice \<Rightarrow> pool \<Rightarrow> pool option" where
  "pool_next env args job Main s = put_step job s"
| "pool_next env args job Timeout s = timeout_step job s"
| "pool_next env args job (Thread i) s =
     (if i < length (tp_workers s)
      then map_option (\<lambda>(w, s'). s'\<lparr>tp_workers := (tp_workers s)[i := w]\<rparr>)
        (worker_step env args job (tp_workers s ! i) s)
      else None)"

fun pool_schedule :: "tidy_env \<Rightarrow> tidy_args \<Rightarrow> tidy_job \<Rightarrow> choice list \<Rightarrow> pool \<Rightarrow> pool option" where
  "pool_schedule env args job [] s = Some s"
| "pool_schedule env args job (c # cs) s =
     Option.bind (pool_next env args job c s) (pool_schedule env args job cs)"

lemma pool_next_run:
  assumes "pool_next env args job c s = Some s'" and "pool_run env args job n s0 s"
  shows "\<exists>m. pool_run env args job m s0 s'"
proof (cases c)
  case (Thread i)
  then obtain w t where t: "i < length (tp_workers s)" "worker_step env args job (tp_workers s ! i) s = Some (w, t)"
    "s' = t\<lparr>tp_workers := (tp_workers s)[i := w]\<rparr>" using assms(1) by (auto split: if_splits)
  from work [OF id_take_nth_drop [OF t(1)] t(2)] t(1,3) have "pool_step env args job s s'"
    by (simp add: upd_conv_take_nth_drop)
  with assms(2) show ?thesis by (blast intro: pool_run.step)
qed (use assms in \<open>auto intro: pool_run.intros put\<close>)

lemma schedule_run_from:
  "\<lbrakk>pool_schedule env args job cs s = Some s'; pool_run env args job n s0 s\<rbrakk> \<Longrightarrow>
    \<exists>m. pool_run env args job m s0 s'"
proof (induction cs arbitrary: s n)
  case (Cons c cs)
  then obtain t where "pool_next env args job c s = Some t" "pool_schedule env args job cs t = Some s'"
    by (auto simp: bind_eq_Some_conv)
  with Cons.IH Cons.prems(2) pool_next_run show ?case by blast
qed auto

lemma schedule_run:
  "pool_schedule env args job cs s = Some s' \<Longrightarrow> \<exists>n. pool_run env args job n s s'"
  using schedule_run_from pool_run.none by blast

section \<open>What a file contributes\<close>

text \<open>The result of clang-tidy on a file, with \<open>k\<close> temporary files before.\<close>

definition launch :: "tidy_env \<Rightarrow> tidy_args \<Rightarrow> tidy_job \<Rightarrow> nat \<Rightarrow> string \<Rightarrow> proc_result" where
  "launch env args job k name =
     (case get_tidy_invocation env args (tj_tmpdir job) (tj_build_path job) name k of
        None \<Rightarrow> NotStarted
      | Some (invocation, _) \<Rightarrow> te_run env invocation)"

text \<open>The result does not depend on the name of the temporary file.\<close>

definition repeatable :: "tidy_env \<Rightarrow> tidy_args \<Rightarrow> tidy_job \<Rightarrow> bool" where
  "repeatable env args job \<longleftrightarrow> (\<forall>k name. launch env args job k name = launch env args job 0 name)"

definition fails :: "tidy_env \<Rightarrow> tidy_args \<Rightarrow> tidy_job \<Rightarrow> string \<Rightarrow> bool" where
  "fails env args job name \<longleftrightarrow> \<not> should_skip name \<and>
     (case launch env args job 0 name of NotStarted \<Rightarrow> False | Ended returncode _ _ \<Rightarrow> returncode \<noteq> 0)"

definition shown :: "string option \<Rightarrow> string option \<Rightarrow> string multiset" where
  "shown output errors =
     (case (output, errors) of
        (Some t, Some _) \<Rightarrow> if t \<noteq> [] then {#[CHR 0x0A], t#} else {#}
      | _ \<Rightarrow> {#})"

definition body :: "tidy_env \<Rightarrow> tidy_args \<Rightarrow> tidy_job \<Rightarrow> string \<Rightarrow> string multiset" where
  "body env args job name =
     (if should_skip name then {#}
      else case launch env args job 0 name of NotStarted \<Rightarrow> {#} | Ended _ output errors \<Rightarrow> shown output errors)"

definition prints :: "tidy_env \<Rightarrow> tidy_args \<Rightarrow> tidy_job \<Rightarrow> string \<Rightarrow> string multiset" where
  "prints env args job name = add_mset (checking_line name) (body env args job name)"

definition failure :: "tidy_env \<Rightarrow> tidy_args \<Rightarrow> tidy_job \<Rightarrow> string \<Rightarrow> string multiset" where
  "failure env args job name = (if fails env args job name then {#name#} else {#})"

text \<open>What is left of it when a worker has come to some place.\<close>

fun failure_left :: "tidy_env \<Rightarrow> tidy_args \<Rightarrow> tidy_job \<Rightarrow> worker \<Rightarrow> string multiset" where
  "failure_left env args job (Taken name) = failure env args job name"
| "failure_left env args job (Announced name) = failure env args job name"
| "failure_left env args job (Running name _) = failure env args job name"
| "failure_left env args job _ = {#}"

fun prints_left :: "tidy_env \<Rightarrow> tidy_args \<Rightarrow> tidy_job \<Rightarrow> worker \<Rightarrow> string multiset" where
  "prints_left env args job (Taken name) = prints env args job name"
| "prints_left env args job (Announced name) = body env args job name"
| "prints_left env args job (Running name _) = body env args job name"
| "prints_left env args job (Exited output errors) = shown output errors"
| "prints_left env args job (Holding output errors) = shown output errors"
| "prints_left env args job (Writing t) = {#t#}"
| "prints_left env args job _ = {#}"

fun holds :: "worker \<Rightarrow> nat" where
  "holds (Holding _ _) = 1"
| "holds (Writing _) = 1"
| "holds _ = 0"

fun busy :: "worker \<Rightarrow> nat" where
  "busy Waiting = 0"
| "busy _ = 1"

fun worker_ok :: "tidy_env \<Rightarrow> tidy_args \<Rightarrow> tidy_job \<Rightarrow> worker \<Rightarrow> bool" where
  "worker_ok env args job (Running name invocation) \<longleftrightarrow>
     \<not> should_skip name \<and> te_run env invocation = launch env args job 0 name"
| "worker_ok env args job _ \<longleftrightarrow> True"

section \<open>The invariant\<close>

definition msum :: "('a \<Rightarrow> string multiset) \<Rightarrow> 'a list \<Rightarrow> string multiset" where
  "msum f xs = sum_list (map f xs)"

lemma msum_simps [simp]: "msum f [] = {#}" "msum f (x # xs) = f x + msum f xs"
  "msum f (xs @ ys) = msum f xs + msum f ys"
  by (simp_all add: msum_def)

definition counts_ok :: "pool \<Rightarrow> bool" where
  "counts_ok s \<longleftrightarrow>
     tp_unfinished s = int (length (tp_tasks s) + sum_list (map busy (tp_workers s))) \<and>
     sum_list (map holds (tp_workers s)) = (if tp_locked s then 1 else 0)"

definition pool_inv :: "tidy_env \<Rightarrow> tidy_args \<Rightarrow> tidy_job \<Rightarrow> pool \<Rightarrow> bool" where
  "pool_inv env args job s \<longleftrightarrow>
     list_all (worker_ok env args job) (tp_workers s) \<and>
     mset (tp_failed s) + msum (failure_left env args job) (tp_workers s) +
       msum (failure env args job) (tp_tasks s) + msum (failure env args job) (filter (selected job) (tp_todo s)) =
       msum (failure env args job) (filter (selected job) (tj_files job)) \<and>
     (\<exists>n. mset (tp_output s) + msum (prints_left env args job) (tp_workers s) +
       msum (prints env args job) (tp_tasks s) + msum (prints env args job) (filter (selected job) (tp_todo s)) =
       msum (prints env args job) (filter (selected job) (tj_files job)) + replicate_mset n still_waiting)"

lemma start_counts: "counts_ok (start_pool job)"
  by (simp add: counts_ok_def start_pool_def sum_list_replicate)

lemma step_counts: "\<lbrakk>pool_step env args job s s'; counts_ok s\<rbrakk> \<Longrightarrow> counts_ok s'"
proof (erule pool_step.cases)
  fix t t' assume "s = t" "s' = t'" "put_step job t = Some t'" "counts_ok s"
  then show "counts_ok s'" by (auto simp: put_step_def counts_ok_def split: list.splits if_splits)
next
  fix t us w vs w' t'
  assume "s = t" "s' = t'\<lparr>tp_workers := us @ w' # vs\<rparr>" "tp_workers t = us @ w # vs"
    "worker_step env args job w t = Some (w', t')" "counts_ok s"
  then show "counts_ok s'"
    by (cases w) (auto simp: counts_ok_def split: list.splits if_splits option.splits proc_result.splits)
qed

lemma timeout_counts: "\<lbrakk>timeout_step job s = Some s'; counts_ok s\<rbrakk> \<Longrightarrow> counts_ok s'"
  by (auto simp: timeout_step_def counts_ok_def split: list.splits if_splits)

lemma run_counts: "\<lbrakk>pool_run env args job n s s'; counts_ok s\<rbrakk> \<Longrightarrow> counts_ok s'"
  by (induction rule: pool_run.induct) (auto intro: step_counts timeout_counts)

lemma start_inv: "pool_inv env args job (start_pool job)"
proof -
  have "msum (failure_left env args job) (replicate n Waiting) = {#}"
    "msum (prints_left env args job) (replicate n Waiting) = {#}"
    "list_all (worker_ok env args job) (replicate n Waiting)" for n
    by (induction n) simp_all
  then show ?thesis by (auto simp: pool_inv_def start_pool_def intro: exI [of _ 0])
qed

lemma put_inv: "\<lbrakk>put_step job s = Some s'; pool_inv env args job s\<rbrakk> \<Longrightarrow> pool_inv env args job s'"
  by (auto simp: put_step_def pool_inv_def ac_simps split: list.splits if_splits)

lemma timeout_inv:
  assumes "timeout_step job s = Some s'" and "pool_inv env args job s"
  shows "pool_inv env args job s'"
  using assms by (auto simp: timeout_step_def pool_inv_def split: list.splits if_splits)
    (metis replicate_mset_Suc)+

lemma work_inv:
  assumes rep: "repeatable env args job" and ws: "tp_workers s = us @ w # vs"
    and st: "worker_step env args job w s = Some (w', s')" and inv: "pool_inv env args job s"
  shows "pool_inv env args job (s'\<lparr>tp_workers := us @ w' # vs\<rparr>)"
proof -
  have l: "launch env args job k name = launch env args job 0 name" for k name
    using rep by (simp add: repeatable_def)
  show ?thesis
  proof (cases w)
    case (Announced name)
    show ?thesis
    proof (cases "get_tidy_invocation env args (tj_tmpdir job) (tj_build_path job) name (tp_temps s)")
      case None
      then have "launch env args job 0 name = NotStarted"
        using l [of "tp_temps s" name, symmetric] by (simp add: launch_def)
      then have "failure env args job name = {#}" "body env args job name = {#}"
        by (simp_all add: failure_def fails_def body_def)
      then show ?thesis using ws st inv Announced None by (auto simp: pool_inv_def ac_simps)
    next
      case (Some r)
      obtain invocation k where r: "r = (invocation, k)" by fastforce
      have w': "w' = (if should_skip name then Finished else Running name invocation)" "s' = s\<lparr>tp_temps := k\<rparr>"
        using st Announced Some r by simp_all
      have "te_run env invocation = launch env args job 0 name"
        using l [of "tp_temps s" name, symmetric] Some r by (simp add: launch_def)
      moreover have "should_skip name \<Longrightarrow> failure env args job name = {#} \<and> body env args job name = {#}"
        by (simp add: failure_def fails_def body_def)
      ultimately show ?thesis using ws inv Announced w'
        by (cases "should_skip name") (auto simp: pool_inv_def ac_simps)
    qed
  next
    case (Running name invocation)
    have ok: "\<not> should_skip name" "te_run env invocation = launch env args job 0 name"
      using inv ws Running by (simp_all add: pool_inv_def)
    show ?thesis
    proof (cases "te_run env invocation")
      case NotStarted
      then have "failure env args job name = {#}" "body env args job name = {#}"
        using ok by (simp_all add: failure_def fails_def body_def)
      then show ?thesis using ws st inv Running NotStarted by (auto simp: pool_inv_def ac_simps)
    next
      case (Ended returncode o1 e1)
      have "failure env args job name = (if returncode \<noteq> 0 then {#name#} else {#})"
        "body env args job name = shown o1 e1"
        using ok(1) ok(2) [symmetric, unfolded Ended] by (simp_all add: failure_def fails_def body_def)
      then show ?thesis using ws st inv Running Ended by (auto simp: pool_inv_def ac_simps)
    qed
  qed (use ws st inv in \<open>auto simp: pool_inv_def shown_def prints_def ac_simps add_mset_commute split: list.splits if_splits option.splits\<close>)
qed


lemma step_inv: "\<lbrakk>pool_step env args job s s'; repeatable env args job; pool_inv env args job s\<rbrakk> \<Longrightarrow>
    pool_inv env args job s'"
  by (auto elim!: pool_step.cases intro: put_inv work_inv)

lemma run_inv:
  "\<lbrakk>pool_run env args job n s s'; repeatable env args job; pool_inv env args job s\<rbrakk> \<Longrightarrow> pool_inv env args job s'"
  by (induction rule: pool_run.induct) (auto intro: step_inv timeout_inv)

section \<open>When the queue has been worked off\<close>

lemma busy_none: "sum_list (map busy ws) = 0 \<Longrightarrow> ws = replicate (length ws) Waiting"
proof (induction ws)
  case (Cons w ws)
  then show ?case by (cases w) auto
qed simp

lemma msum_waiting:
  "msum (failure_left env args job) (replicate n Waiting) = {#}"
  "msum (prints_left env args job) (replicate n Waiting) = {#}"
  by (induction n) simp_all

lemma msum_failure: "msum (failure env args job) xs = mset (filter (fails env args job) xs)"
  by (induction xs) (simp_all add: failure_def)

lemma joined_counts:
  assumes "counts_ok s" and "joined s"
  shows "tp_workers s = replicate (length (tp_workers s)) Waiting" "tp_tasks s = []" "tp_todo s = []"
proof -
  have "int (length (tp_tasks s) + sum_list (map busy (tp_workers s))) = 0"
    using assms by (simp only: counts_ok_def joined_def)
  then have "length (tp_tasks s) + sum_list (map busy (tp_workers s)) = 0" by (simp only: of_nat_eq_0_iff)
  then show "tp_workers s = replicate (length (tp_workers s)) Waiting" "tp_tasks s = []" "tp_todo s = []"
    using assms(2) busy_none by (simp_all add: joined_def)
qed

lemma pool_result:
  assumes "repeatable env args job" and "pool_run env args job n (start_pool job) s" and "joined s"
  shows "mset (tp_failed s) = mset (filter (fails env args job) (filter (selected job) (tj_files job)))"
    "\<exists>k. mset (tp_output s) = msum (prints env args job) (filter (selected job) (tj_files job)) +
      replicate_mset k still_waiting"
    "tp_workers s = replicate (length (tp_workers s)) Waiting"
proof -
  note end_state = joined_counts [OF run_counts [OF assms(2) start_counts] assms(3)]
  have "msum (failure_left env args job) (tp_workers s) = {#}"
    "msum (prints_left env args job) (tp_workers s) = {#}"
    by (subst end_state(1), simp add: msum_waiting)+
  with run_inv [OF assms(2,1) start_inv] end_state
  show "mset (tp_failed s) = mset (filter (fails env args job) (filter (selected job) (tj_files job)))"
    "\<exists>k. mset (tp_output s) = msum (prints env args job) (filter (selected job) (tj_files job)) +
      replicate_mset k still_waiting"
    "tp_workers s = replicate (length (tp_workers s)) Waiting"
    by (simp_all add: pool_inv_def msum_failure)
qed

text \<open>C4: Let the result of clang-tidy on a file not depend on how many temporary files were made before
  (\<open>repeatable\<close>).  Whatever the order in which the threads take their steps, when \<open>main\<close> has put all files and
  has waited for the queue, each selected file has been worked on exactly once: the failed files
  are those selected files for which clang-tidy ended with a status other than 0, each as often as it is in
  the database; what has been printed are the lines that announce the selected files and their outputs,
  besides messages of \<open>main\<close>; and every worker waits for the next file.\<close>

theorem pool_checks_each_file:
  assumes "repeatable env args job" and "pool_run env args job n (start_pool job) s" and "joined s"
  shows "mset (tp_failed s) = mset (filter (fails env args job) (filter (selected job) (tj_files job))) \<and>
    (\<exists>k. mset (tp_output s) = msum (prints env args job) (filter (selected job) (tj_files job)) +
      replicate_mset k still_waiting) \<and>
    tp_workers s = replicate (length (tp_workers s)) Waiting"
  using pool_result [OF assms] by simp

section \<open>Dead workers\<close>

lemma dead_stays: "\<lbrakk>pool_run env args job n s s'; Dead \<in> set (tp_workers s)\<rbrakk> \<Longrightarrow> Dead \<in> set (tp_workers s')"
proof (induction rule: pool_run.induct)
  case (step n s s' s'')
  from step.hyps(2) step.IH step.prems show ?case
    by (cases rule: pool_step.cases) (auto simp: put_step_def split: list.splits if_splits)
qed (auto simp: timeout_step_def split: list.splits if_splits)

text \<open>C15: When an exception has ended a worker, since clang-tidy could not be started, its output could not
  be decoded or no temporary file could be created, \<open>main\<close> waits for ever: no
  continuation of the run comes to the end of \<open>task_queue.join()\<close>.\<close>

theorem dead_worker_blocks_join:
  assumes "pool_run env args job n (start_pool job) s" and "Dead \<in> set (tp_workers s)"
    and "pool_run env args job m s s'"
  shows "\<not> joined s'"
proof
  assume "joined s'"
  from joined_counts(1) [OF run_counts [OF assms(3) run_counts [OF assms(1) start_counts]] this]
  have "Dead \<notin> set (tp_workers s')" by (metis in_set_replicate worker.distinct(15))
  with dead_stays [OF assms(3,2)] show False by simp
qed

section \<open>The pool ends\<close>

fun worker_weight :: "worker \<Rightarrow> nat" where
  "worker_weight Waiting = 0"
| "worker_weight (Taken _) = 7"
| "worker_weight (Announced _) = 6"
| "worker_weight (Running _ _) = 5"
| "worker_weight (Exited _ _) = 4"
| "worker_weight (Holding _ _) = 3"
| "worker_weight (Writing _) = 2"
| "worker_weight Finished = 1"
| "worker_weight Dead = 0"

definition pool_weight :: "pool \<Rightarrow> nat" where
  "pool_weight s = 9 * length (tp_todo s) + 8 * length (tp_tasks s) +
     sum_list (map worker_weight (tp_workers s))"

lemma step_weight: "pool_step env args job s s' \<Longrightarrow> pool_weight s' < pool_weight s"
proof (erule pool_step.cases)
  fix t t' assume "s = t" "s' = t'" "put_step job t = Some t'"
  then show "pool_weight s' < pool_weight s"
    by (auto simp: put_step_def pool_weight_def split: list.splits if_splits)
next
  fix t us w vs w' t'
  assume "s = t" "s' = t'\<lparr>tp_workers := us @ w' # vs\<rparr>" "tp_workers t = us @ w # vs"
    "worker_step env args job w t = Some (w', t')"
  then show "pool_weight s' < pool_weight s"
    by (cases w) (auto simp: pool_weight_def split: list.splits if_splits option.splits proc_result.splits)
qed

lemma timeout_weight: "timeout_step job s = Some s' \<Longrightarrow> pool_weight s' = pool_weight s"
  by (auto simp: timeout_step_def pool_weight_def split: list.splits if_splits)

lemma run_weight: "pool_run env args job n s s' \<Longrightarrow> n + pool_weight s' \<le> pool_weight s"
  by (induction rule: pool_run.induct) (auto dest: step_weight timeout_weight)

text \<open>No process fails to start, and every output can be decoded.\<close>

definition decoded :: "proc_result \<Rightarrow> bool" where
  "decoded r = (case r of Ended _ (Some _) (Some _) \<Rightarrow> True | _ \<Rightarrow> False)"

definition never_dies :: "tidy_env \<Rightarrow> tidy_args \<Rightarrow> tidy_job \<Rightarrow> bool" where
  "never_dies env args job \<longleftrightarrow> (\<forall>k name.
     case get_tidy_invocation env args (tj_tmpdir job) (tj_build_path job) name k of
       None \<Rightarrow> False
     | Some (invocation, _) \<Rightarrow> decoded (te_run env invocation))"

fun healthy :: "tidy_env \<Rightarrow> worker \<Rightarrow> bool" where
  "healthy env (Running _ invocation) \<longleftrightarrow> decoded (te_run env invocation)"
| "healthy env (Exited output errors) \<longleftrightarrow> output \<noteq> None \<and> errors \<noteq> None"
| "healthy env (Holding output errors) \<longleftrightarrow> output \<noteq> None \<and> errors \<noteq> None"
| "healthy env Dead \<longleftrightarrow> False"
| "healthy env _ \<longleftrightarrow> True"

lemma worker_healthy:
  assumes "never_dies env args job" and "healthy env w" and "worker_step env args job w s = Some (w', s')"
  shows "healthy env w'"
proof (cases w)
  case (Announced name)
  have "case get_tidy_invocation env args (tj_tmpdir job) (tj_build_path job) name (tp_temps s) of
       None \<Rightarrow> False | Some (invocation, _) \<Rightarrow> decoded (te_run env invocation)"
    using assms(1) by (simp add: never_dies_def)
  with assms(3) Announced show ?thesis by (auto split: option.splits prod.splits if_splits)
qed (use assms(2,3) in \<open>auto simp: decoded_def split: list.splits if_splits option.splits proc_result.splits\<close>)

lemma run_healthy:
  "\<lbrakk>pool_run env args job n s s'; never_dies env args job; list_all (healthy env) (tp_workers s)\<rbrakk> \<Longrightarrow>
    list_all (healthy env) (tp_workers s') \<and> length (tp_workers s') = length (tp_workers s)"
proof (induction rule: pool_run.induct)
  case (step n s s' s'')
  from step.hyps(2) step.IH step.prems show ?case
    by (cases rule: pool_step.cases) (auto simp: put_step_def split: list.splits if_splits dest: worker_healthy)
qed (auto simp: timeout_step_def split: list.splits if_splits)

lemma pool_progress:
  assumes c: "counts_ok s" and h: "list_all (healthy env) (tp_workers s)" and ne: "tp_workers s \<noteq> []"
    and n: "\<not> joined s" and m: "0 < tj_max_task job"
  shows "\<exists>s'. pool_step env args job s s'"
proof -
  have can: "\<exists>s'. pool_step env args job s s'"
    if "w \<in> set (tp_workers s)" "worker_step env args job w s \<noteq> None" for w
    using that by (auto dest!: split_list intro: work)
  show ?thesis
  proof (cases "\<exists>w\<in>set (tp_workers s). worker_step env args job w s \<noteq> None")
    case False
    then have stuck: "worker_step env args job w s = None" if "w \<in> set (tp_workers s)" for w
      using that by blast
    have "holds w = 0" if "w \<in> set (tp_workers s)" for w
      using stuck [OF that] by (cases w) (auto split: option.splits if_splits)
    then have "sum_list (map holds (tp_workers s)) = 0" by (auto simp: sum_list_eq_0_iff)
    moreover have "sum_list (map holds (tp_workers s)) = (if tp_locked s then 1 else 0)"
      using c by (simp only: counts_ok_def)
    ultimately have "\<not> tp_locked s" by (metis zero_neq_one)
    then have idle: "w = Waiting" if "w \<in> set (tp_workers s)" for w
      using stuck [OF that] h that by (cases w) (auto simp: list_all_iff split: option.splits if_splits proc_result.splits)
    obtain w where "w \<in> set (tp_workers s)" using ne by (cases "tp_workers s") auto
    then have tasks: "tp_tasks s = []" using stuck [of w] idle [of w] by (auto split: list.splits)
    have "busy w = 0" if "w \<in> set (tp_workers s)" for w using idle [OF that] by simp
    then have "sum_list (map busy (tp_workers s)) = 0" by (auto simp: sum_list_eq_0_iff)
    with c tasks n obtain name rest where "tp_todo s = name # rest"
      by (cases "tp_todo s") (auto simp: counts_ok_def joined_def)
    then have "put_step job s \<noteq> None" using tasks m by (simp add: put_step_def has_room_def)
    then show ?thesis by (auto intro: put)
  qed (use can in blast)
qed

lemma run_append: "\<lbrakk>pool_run env args job m s' s''; pool_run env args job n s s'\<rbrakk> \<Longrightarrow> pool_run env args job (n + m) s s''"
  by (induction rule: pool_run.induct) (auto intro: pool_run.intros)

lemma pool_ends:
  assumes "never_dies env args job" and "0 < tj_max_task job"
  shows "\<lbrakk>counts_ok s; list_all (healthy env) (tp_workers s); tp_workers s \<noteq> []\<rbrakk> \<Longrightarrow>
    \<exists>n s'. pool_run env args job n s s' \<and> joined s'"
proof (induction "pool_weight s" arbitrary: s rule: less_induct)
  case less
  show ?case
  proof (cases "joined s")
    case True
    then show ?thesis by (blast intro: pool_run.none)
  next
    case False
    from pool_progress [OF less.prems False assms(2)] obtain t where t: "pool_step env args job s t" ..
    then have run: "pool_run env args job 1 s t" using pool_run.step [OF pool_run.none] by simp
    have "tp_workers t \<noteq> []" "list_all (healthy env) (tp_workers t)"
      using run_healthy [OF run assms(1) less.prems(2)] less.prems(3) by auto
    with less.hyps [OF step_weight [OF t] step_counts [OF t less.prems(1)]]
    obtain n s' where "pool_run env args job n t s'" "joined s'" by blast
    with run_append [OF _ run] show ?thesis by blast
  qed
qed

text \<open>C10: If there is a positive number of threads, every temporary file can be created, no process fails
  to start and every output can be decoded, the threads never
  get stuck: a run takes at most nine steps for each file, besides the timeouts, and from
  wherever it has come it can be continued until the queue has been worked off.\<close>

theorem pool_completes:
  assumes "never_dies env args job" and "0 < tj_max_task job" and "pool_run env args job n (start_pool job) s"
  shows "n \<le> 9 * length (tj_files job) \<and> (\<exists>m s'. pool_run env args job m s s' \<and> joined s')"
proof
  show "n \<le> 9 * length (tj_files job)"
    using run_weight [OF assms(3)] by (simp add: pool_weight_def start_pool_def sum_list_replicate)
  have "list_all (healthy env) (tp_workers (start_pool job))" "tp_workers (start_pool job) \<noteq> []"
    using assms(2) by (auto simp: start_pool_def list_all_iff)
  with run_healthy [OF assms(3,1)] have "list_all (healthy env) (tp_workers s)" "tp_workers s \<noteq> []" by auto
  with pool_ends [OF assms(1,2) run_counts [OF assms(3) start_counts]]
  show "\<exists>m s'. pool_run env args job m s s' \<and> joined s'" by blast
qed


section \<open>The program\<close>

text \<open>How the program may end: with the lines that \<open>main\<close> prints outside the threads, and the exit status.\<close>

fun halted :: "halt \<Rightarrow> tidy_end" where
  "halted (Exit outs errs status) = (outs, errs, status)"
| "halted Traceback = ([], [], 1)"

inductive tidy_main :: "tidy_env \<Rightarrow> tidy_args \<Rightarrow> tidy_end \<Rightarrow> bool" for env args where
  no_job: "setup_tidy env args = Some (Inl h) \<Longrightarrow> tidy_main env args (halted h)"
| joins: "\<lbrakk>setup_tidy env args = Some (Inr job); pool_run env args job n (start_pool job) s; joined s\<rbrakk> \<Longrightarrow>
    tidy_main env args (finish_tidy env args (tj_tmpdir job) (tp_failed s))"

inductive_cases tidy_mainE: "tidy_main env args r"

lemma setup_job_tmpdir:
  "setup_job env args p = Inr job \<Longrightarrow> temp_directory env args = Inr (tj_tmpdir job)"
  by (auto simp: setup_job_def split: if_splits option.splits sum.splits)

lemma setup_tmpdir:
  assumes "setup_tidy env args = Some (Inr job)"
  shows "tj_tmpdir job \<noteq> None \<longleftrightarrow> ta_fix args \<or> truthy (ta_export_fixes args)"
proof -
  from assms obtain r where "(case r of Inl h \<Rightarrow> Inl h | Inr p \<Rightarrow> setup_job env args p) = Inr job"
    by (auto simp: setup_tidy_def)
  then obtain p where "setup_job env args p = Inr job" by (cases r) auto
  from setup_job_tmpdir [OF this] show ?thesis
    by (cases "tj_tmpdir job") (auto simp: temp_directory_def split: if_splits option.splits)
qed

lemma finish_status:
  "snd (snd (finish_tidy env args (Some d) failed_files)) =
    (if failed_files \<noteq> [] \<or>
        truthy (ta_export_fixes args) \<and>
          (te_glob env (join2 d ''*.yaml'') \<noteq> [] \<or> \<not> te_writable env (the (ta_export_fixes args))) \<or>
        ta_fix args \<and> \<not> apply_fixes env args (Some d)
     then 1 else 0)"
  "\<lbrakk>\<not> truthy (ta_export_fixes args); \<not> ta_fix args\<rbrakk> \<Longrightarrow>
    snd (snd (finish_tidy env args None failed_files)) = (if failed_files \<noteq> [] then 1 else 0)"
  by (cases "te_glob env (join2 d ''*.yaml'')";
      simp add: finish_tidy_def fix_step_def export_step_def report_failed_def merge_replacement_files_def Let_def)+

text \<open>C16: When the program comes to its end with a job, the exit status is 1 exactly if clang-tidy fails on
  a selected file of the job, or fixes are to be exported and there is a replacement file (which needs the
  module \<open>yaml\<close>, never imported) or the file cannot be written, or they are to be applied and that cannot
  be started; otherwise it is 0.\<close>

theorem tidy_exit_status:
  assumes "setup_tidy env args = Some (Inr job)" and "repeatable env args job"
    and "tidy_main env args (outs, errs, status)"
  shows "status =
    (if (\<exists>f. f \<in> set (tj_files job) \<and> selected job f \<and> fails env args job f) \<or>
        truthy (ta_export_fixes args) \<and>
          (te_glob env (join2 (the (tj_tmpdir job)) ''*.yaml'') \<noteq> [] \<or>
           \<not> te_writable env (the (ta_export_fixes args))) \<or>
        ta_fix args \<and> \<not> apply_fixes env args (tj_tmpdir job)
     then 1 else 0)"
proof -
  from assms(3,1) obtain n s where run: "pool_run env args job n (start_pool job) s" "joined s"
    and st: "status = snd (snd (finish_tidy env args (tj_tmpdir job) (tp_failed s)))"
    by (auto elim!: tidy_mainE) (metis snd_conv)
  have "set (tp_failed s) = set (filter (fails env args job) (filter (selected job) (tj_files job)))"
    using pool_result [OF assms(2) run] by (metis set_mset_mset)
  then have f: "tp_failed s \<noteq> [] \<longleftrightarrow>
      (\<exists>f. f \<in> set (tj_files job) \<and> selected job f \<and> fails env args job f)"
    by (auto simp: set_empty [symmetric] simp del: set_empty)
  show ?thesis
  proof (cases "ta_fix args \<or> truthy (ta_export_fixes args)")
    case True
    then obtain d where "tj_tmpdir job = Some d" using setup_tmpdir [OF assms(1)] by blast
    then show ?thesis using finish_status(1) [of env args d "tp_failed s"] f st by simp
  next
    case False
    then have "tj_tmpdir job = None" using setup_tmpdir [OF assms(1)] by blast
    then show ?thesis using finish_status(2) [of args env "tp_failed s"] f st False by simp
  qed
qed

section \<open>A small run\<close>

text \<open>One file, on which clang-tidy finds a problem; and a clang-tidy that cannot be started.\<close>

definition tidy_sample :: "(string list \<Rightarrow> proc_result) \<Rightarrow> tidy_env" where
  "tidy_sample runs =
     \<lparr>te_isfile = (\<lambda>_. False), te_realpath = id, te_is_a_tty = False, te_platform = ''linux'',
      te_environ = (\<lambda>_. None), te_cpu_count = 1, te_check_call = (\<lambda>_. True), te_call = (\<lambda>_. True),
      te_database = (\<lambda>_. Some [(''a.cc'', [slash] @ ''p'')]), te_git = (\<lambda>_. None),
      te_compile = (\<lambda>_. Some (\<lambda>_. True)), te_mkdtemp = None, te_mkstemp = (\<lambda>_ _. None), te_run = runs,
      te_glob = (\<lambda>_. []), te_writable = (\<lambda>_. True), te_pformat = concat\<rparr>"

definition finds_problem :: "string list \<Rightarrow> proc_result" where
  "finds_problem _ = Ended 1 (Some ''warning'') (Some [])"

definition sample_args :: tidy_args where
  "sample_args = default_args\<lparr>ta_build_path := Some ''build''\<rparr>"

definition sample_job :: tidy_job where
  "sample_job = \<lparr>tj_build_path = ''build'', tj_tmpdir = None, tj_files = [[slash] @ ''p'' @ [slash] @ ''a.cc''],
     tj_max_task = 1, tj_search = (\<lambda>_. True)\<rparr>"

lemma sample_setup: "setup_tidy (tidy_sample runs) sample_args = Some (Inr sample_job)"
proof -
  have "make_absolute ''a.cc'' ([slash] @ ''p'') = [slash] @ ''p'' @ [slash] @ ''a.cc''" by code_simp
  then show ?thesis
    by (simp add: setup_tidy_def find_build_path_def sample_args_def default_args_def setup_job_def
        database_files_def files_to_check_def temp_directory_def max_tasks_def truthy_def tidy_sample_def
        sample_job_def)
qed

lemma sample_repeatable: "repeatable (tidy_sample runs) sample_args sample_job"
  by (simp add: repeatable_def launch_def get_tidy_invocation_def temp_file_def sample_job_def)

definition sample_run :: "(string list \<Rightarrow> proc_result) \<Rightarrow> nat \<Rightarrow> pool option" where
  "sample_run runs k = pool_schedule (tidy_sample runs) sample_args sample_job
     (Main # replicate k (Thread 0)) (start_pool sample_job)"

lemma sample_joins:
  "map_option (\<lambda>s. (joined s, tp_failed s, tp_output s)) (sample_run finds_problem 8) =
    Some (True, [[slash] @ ''p'' @ [slash] @ ''a.cc''],
      [checking_line ([slash] @ ''p'' @ [slash] @ ''a.cc''), [CHR 0x0A], ''warning''])"
  by code_simp

lemma sample_dies:
  "map_option (\<lambda>s. Dead \<in> set (tp_workers s)) (sample_run (\<lambda>_. NotStarted) 4) = Some True"
  by code_simp


lemma pool_checks_each_file_witness:
  "\<exists>n s. pool_run (tidy_sample finds_problem) sample_args sample_job n (start_pool sample_job) s \<and> joined s \<and>
    mset (tp_failed s) = {#[slash] @ ''p'' @ [slash] @ ''a.cc''#}"
proof -
  from sample_joins obtain s where s: "sample_run finds_problem 8 = Some s" "joined s" by auto
  then obtain n where run: "pool_run (tidy_sample finds_problem) sample_args sample_job n (start_pool sample_job) s"
    unfolding sample_run_def using schedule_run by blast
  have "filter (fails (tidy_sample finds_problem) sample_args sample_job)
      (filter (selected sample_job) (tj_files sample_job)) = [[slash] @ ''p'' @ [slash] @ ''a.cc'']" by code_simp
  moreover have "mset (tp_failed s) = mset (filter (fails (tidy_sample finds_problem) sample_args sample_job)
      (filter (selected sample_job) (tj_files sample_job)))"
    using pool_checks_each_file [OF sample_repeatable run s(2)] by blast
  moreover have "mset [f] = {#f#}" for f :: string by simp
  ultimately have "mset (tp_failed s) = {#[slash] @ ''p'' @ [slash] @ ''a.cc''#}" by (simp only:)
  with run s(2) show ?thesis by blast
qed

lemma dead_worker_blocks_join_witness:
  "\<exists>n s. pool_run (tidy_sample (\<lambda>_. NotStarted)) sample_args sample_job n (start_pool sample_job) s \<and>
    \<not> (\<exists>m s'. pool_run (tidy_sample (\<lambda>_. NotStarted)) sample_args sample_job m s s' \<and> joined s')"
proof -
  from sample_dies obtain s where s: "sample_run (\<lambda>_. NotStarted) 4 = Some s" "Dead \<in> set (tp_workers s)" by auto
  then obtain n where "pool_run (tidy_sample (\<lambda>_. NotStarted)) sample_args sample_job n (start_pool sample_job) s"
    unfolding sample_run_def using schedule_run by blast
  with dead_worker_blocks_join [OF this s(2)] show ?thesis by blast
qed

lemma pool_completes_witness:
  "\<exists>m s. pool_run (tidy_sample finds_problem) sample_args sample_job m (start_pool sample_job) s \<and> joined s"
proof -
  have "never_dies (tidy_sample finds_problem) sample_args sample_job"
    by (simp add: never_dies_def get_tidy_invocation_def temp_file_def sample_job_def tidy_sample_def
        finds_problem_def decoded_def)
  moreover have "0 < tj_max_task sample_job" by (simp add: sample_job_def)
  ultimately show ?thesis using pool_completes [OF _ _ pool_run.none] by blast
qed

lemma tidy_exit_status_witness:
  "\<exists>outs errs. tidy_main (tidy_sample finds_problem) sample_args (outs, errs, 1)"
proof -
  from sample_joins obtain s where s: "sample_run finds_problem 8 = Some s" "joined s" by auto
  then obtain n where run: "pool_run (tidy_sample finds_problem) sample_args sample_job n (start_pool sample_job) s"
    unfolding sample_run_def using schedule_run by blast
  obtain outs errs status where r: "finish_tidy (tidy_sample finds_problem) sample_args (tj_tmpdir sample_job)
      (tp_failed s) = (outs, errs, status)" by (metis prod_cases3)
  from joins [OF sample_setup run s(2)] r
  have main: "tidy_main (tidy_sample finds_problem) sample_args (outs, errs, status)" by simp
  have "list_ex (\<lambda>f. selected sample_job f \<and> fails (tidy_sample finds_problem) sample_args sample_job f)
      (tj_files sample_job)" by code_simp
  with tidy_exit_status [OF sample_setup sample_repeatable main] have "status = 1" by (auto simp: list_ex_iff)
  with main show ?thesis by blast
qed

end
