(* ===== verification/Spec2Isabelle.thy ===== *)
theory Spec2Isabelle
  imports Program Formats TidyPool
begin

text \<open>
  This development models the Python programs of the repository that its build runs on the C++
  sources of the database: the linter \<open>src/build_support/cpplint.py\<close>, and the script that runs
  clang-tidy, \<open>src/build_support/run_clang_tidy.py\<close> with \<open>run_clang_tidy_extra.py\<close> beside it.

  \<^bold>\<open>The program.\<close>  \<open>cpplint\<close> reads a file, adds a marker line at both ends, removes comments and
  strings (\<open>RemoveMultiLineComments\<close>, \<open>CleansedLines\<close>), and runs its checks line by line over
  the cleansed lines.  The checks keep state between the lines: the stack of open blocks
  (\<open>NestingState\<close>), the section of the includes (\<open>_IncludeState\<close>), the length of the function
  being read (\<open>_FunctionState\<close>).  A check reports through the callback \<open>error\<close>; the callback of
  the program, \<open>Error\<close>, drops what a NOLINT comment, the verbosity or a filter suppresses, counts
  and prints the rest, and so depends on the global state \<open>_cpplint_state\<close>.

  \<open>run_clang_tidy\<close> takes the files of a compilation database, puts them into a queue, and has a
  number of threads run clang-tidy on them; it then tells which files failed and merges or applies
  the replacement files.

  \<^bold>\<open>Theories.\<close>  In the order of their imports:
  \<^item> \<open>Prelude\<close>: Python's string operations on lists of characters (code points up to U+00FF; the
    check that looks for U+FFFD works on lists of code points), reports and callbacks,
    exceptions as values of a sum.
  \<^item> \<open>PyRegex\<close>: the patterns of the module \<open>re\<close> that the code uses, as a datatype with a
    backtracking matcher \<open>rm\<close> that lists all results in the order of the search; \<open>Match\<close>, \<open>Search\<close>
    and \<open>ReplaceAll\<close> of the code are defined with it.  Every pattern of the source is
    translated by hand, with its text beside it.  The number of iterations of a repetition
    is bounded by the length of the text, which is enough since an iteration that consumes
    nothing ends the repetition (\<open>star_run_enough\<close>).
  \<^item> \<open>Tables\<close>: the constant tables of the module (categories, headers, macros, tokens).
  \<^item> \<open>LintState\<close>: the global variables, NOLINT suppressions, \<open>_CppLintState\<close> with its filters,
    counters and output formats, \<open>_ShouldPrintError\<close> and \<open>Error\<close>.  The locales \<open>report_sink\<close>
    and \<open>report_log\<close> are the contract of a callback; they are interpreted on \<open>Error\<close> (printing
    and JUnit) and on the callback that records.
  \<^item> \<open>Includes\<close>: \<open>_IncludeState\<close>.
  \<^item> \<open>Paths\<close>: extensions, \<open>FileInfo\<close>, \<open>PathSplitToList\<close>,
    \<open>GetHeaderGuardCPPVariable\<close>, with \<open>os.path\<close> for POSIX; the file system is the parameter
    \<open>os_env\<close>.  The walk up a Subversion checkout may never end and is an
    option-valued partial function.
  \<^item> \<open>Config\<close>: \<open>ProcessConfigOverrides\<close>; the files and the patterns written in them are the
    parameter \<open>cfg_env\<close>.
  \<^item> \<open>CommandLine\<close>: \<open>ParseArguments\<close> with the part of \<open>getopt\<close> it uses, and the lists of files.
  \<^item> \<open>FunctionLength\<close>: \<open>_FunctionState\<close>.
  \<^item> \<open>Cleanse\<close>: the cleansing of lines.
  \<^item> \<open>Brackets\<close>: \<open>FindEndOfExpressionInLine\<close>, \<open>CloseExpression\<close> and their backward
    counterparts.
  \<^item> \<open>FileChecks\<close>: checks of a file as a whole, with \<open>CheckForHeaderGuard\<close>.
  \<^item> \<open>LineChecks\<close>: checks of one line.
  \<^item> \<open>Nesting\<close>: \<open>NestingState\<close> and the blocks on its stack.
  \<^item> \<open>Reporting\<close>: checks that may raise (\<open>outcome\<close>: the reports made before the exception, and
    the exception), steps on a state that may raise (\<open>action\<close>), the promise of a check
    (\<open>outcome_may E f n\<close>: its reports are on the \<open>n\<close> lines of the file, of known categories, and it
    raises only what is in \<open>E\<close>) with its introduction rules \<open>outcome_intros\<close>, and the searches
    backwards over the lines.  The locale \<open>lint_callback\<close> is what a check needs of the callback:
    a property of the state that reports and suppressions keep.
  \<^item> \<open>Spacing\<close>, \<open>Braces\<close>, \<open>Assertions\<close>, \<open>Style\<close>: the checks of style, up to \<open>CheckStyle\<close>.
  \<^item> \<open>Constructs\<close>, \<open>Casts\<close>, \<open>References\<close>, \<open>IncludeLines\<close>, \<open>Language\<close>, \<open>IncludeUse\<close>: the checks of
    the language, of includes, and \<open>CheckForIncludeWhatYouUse\<close>.
  \<^item> \<open>Driver\<close>: \<open>ProcessLine\<close> and \<open>ProcessFileData\<close>.  The locale \<open>file_callback\<close> extends
    \<open>lint_callback\<close> by what a whole file does to the state; it is interpreted on \<open>Error\<close>, with the
    property that only reports have been written since the file was begun (\<open>written_since\<close>).
  \<^item> \<open>Formats\<close>: no code of its own; the locale \<open>callback_morphism\<close> states when a map of global
    states takes one callback to another, and shows that it then takes one pass over a file to the
    other.  It is interpreted on \<open>Error\<close>, for the text formats against the collection for JUnit.
  \<^item> \<open>Tidy\<close>: \<open>CheckConfig\<close>, the functions of \<open>run_clang_tidy.py\<close> and its \<open>main\<close> before and after
    the threads.  Everything outside the script (file system, processes, git, JSON, patterns of the
    user) is the parameter \<open>tidy_env\<close>.  The search for the database may never end and is an
    option-valued partial function.
  \<^item> \<open>TidyPool\<close>: the threads, as a step relation \<open>pool_step\<close> on what they share (queue with its count
    of unfinished tasks, lock, failed files, output) and the place of each in its loop; \<open>pool_run\<close>
    counts the steps, and a scheduler computes runs.  The invariants \<open>counts_ok\<close> (unfinished tasks,
    one holder of the lock) and \<open>pool_inv\<close> (what is still to be reported and printed, as
    multisets) hold in every run; the weight of a state, at most nine for a file, falls with each step.
  \<^item> \<open>Program\<close>: \<open>ProcessFile\<close> and \<open>main\<close>; the decoded text of the files is a parameter
    (\<open>lint_env\<close>), and so is the serialiser of XML.

  \<^bold>\<open>Conventions.\<close>  A method is a function on the record of its object, and has the name of the
  method.  A check that only calls the callback is the list of its reports; one that also reads
  or changes the global state takes the callback and the state.  A Python exception is \<open>Inl\<close> of
  an error.  \<open>None\<close> stands for Python's \<open>None\<close>, or, where said, for a call that does not return;
  inside a check, a call that does not return is the error \<open>NoReturn\<close>.
  Python's stacks (lists whose last element is the top) are lists whose head is the top.  Loops
  are recursive functions with termination proofs; those that go on with a group of a match use
  the facts of \<open>PyRegex\<close> on the length of groups.

  \<^bold>\<open>What is proved.\<close>  Properties carry the identifiers C1, C2, and so on, in the order of their
  importance: the searches for matching brackets find exactly balanced text, and forward
  and backward search are inverse; the counters, filters and JUnit output agree with the reports;
  the nesting stack keeps its invariant, counts braces and restores the stack at preprocessor
  conditionals; the cleansing of lines is total and keeps the code; the suggested header guard
  is a macro name and is accepted; paths and repository names are taken apart as stated (an absolute path has the root as a component);
  options from files and from the command line have the stated effect.  Each check keeps its
  promise; together they show that linting a file ends normally, with \<open>IndexError\<close>, or with a
  walk up the directories that does not return, and apart from the suppressions does nothing but
  write reports on its lines (or the marker lines, or, for a missing own header, no line);
  that \<open>ProcessFile\<close> restores the filters and writes these reports after its notices; and that
  standard error is what the files of the command line contribute, part by part, and the exit status
  of \<open>main\<close> tells whether there are reports among it.  The check of includes reports what is used
  and missing, exactly; the suggestion for a CHECK macro with a comparison means that comparison;
  headers are compared up to case, dashes and \<open>-inl\<close>; the line ends of a file do not matter;
  the text formats write what the JUnit format records.  For \<open>run_clang_tidy\<close>: in every
  interleaving each selected file is checked once and the failing ones are reported; the threads
  never get stuck unless one of them dies, and then the program waits for ever; and the exit status
  is as stated.

  \<^bold>\<open>Not modelled.\<close>  In \<open>cpplint\<close>: the cache of compiled patterns, the debug output of \<open>--root\<close>, extra
  check functions (\<open>main\<close> passes none), the encoding of what is written to standard error, characters
  beyond U+00FF in the text of a line.  In \<open>run_clang_tidy\<close>: the parsing of the command line by
  \<open>argparse\<close> (only its defaults are), \<open>update_progress\<close> (never called), tracebacks, the removal of the
  temporary directory and Ctrl-C; one call of \<open>print\<close> is one step.  The C++ code of the database itself
  is outside this development.
\<close>

end
